(* ===== verification/Py_Errors.thy ===== *)
theory Py_Errors
  imports Main
begin

text \<open>
  The exception classes of the package (\<open>src/src/channel/errors.py\<close> and the classes each
  submodule derives from \<open>ChannelError\<close>) together with the builtin exceptions of Python that
  the modelled code can raise.  An exception is known by its class; the message text, which only
  humans read, is dropped.
\<close>

section \<open>Exception classes\<close>

datatype exn =
    ChannelError
  | ConfigError
  | AccountingError
  | FractionalSatoshiError
  | StateError
  | UnconfirmedFundingError
  | ScriptBuildError
  | VerificationError
  | RoutingError
  | KeyReplacementError
  | PersistenceError
  \<comment> \<open>declared by the submodules\<close>
  | SafetyError
  | StoreError
  | HeaderError
  | P2PError
  | ManagerError
  | ClusterError
  | RegistryError
  | TowerError
  | IncentiveError
  | WalletError
  | WalletBuildError
  | SendError
  | DaemonError
  \<comment> \<open>builtins of the language\<close>
  | PyIndexError
  | PyKeyError
  | PyValueError
  | PyJSONDecodeError
  | PyUnicodeDecodeError
  | PyOverflowError
  | PyTypeError
  | PyRuntimeError
  | PyAttributeError
  | PyOSError
  | PyAssertionError
  \<comment> \<open>anything an external package raises\<close>
  | ForeignError
  \<comment> \<open>no exception: the mark of a run that the model does not follow\<close>
  | OutsideModel

text \<open>The direct base class, as the class statements give it; \<open>None\<close> is the end of the
  package's hierarchy (\<open>Exception\<close>).\<close>

fun base_class :: "exn \<Rightarrow> exn option" where
  "base_class ChannelError = None"
| "base_class FractionalSatoshiError = Some AccountingError"
| "base_class UnconfirmedFundingError = Some StateError"
| "base_class PyJSONDecodeError = Some PyValueError"
| "base_class PyUnicodeDecodeError = Some PyValueError"
| "base_class e =
     (if e \<in> {PyIndexError, PyKeyError, PyValueError, PyOverflowError, PyTypeError,
              PyRuntimeError, PyAttributeError, PyOSError, PyAssertionError, ForeignError,
              OutsideModel}
      then None else Some ChannelError)"

text \<open>\<open>except h\<close> catches \<open>e\<close> when \<open>h\<close> is the class of \<open>e\<close> or one of its bases; the
  hierarchy is three classes deep.\<close>

definition catches :: "exn \<Rightarrow> exn \<Rightarrow> bool" where
  "catches h e \<longleftrightarrow>
     e = h \<or> base_class e = Some h \<or> Option.bind (base_class e) base_class = Some h"

lemma catches_refl [simp, intro]: "catches e e"
  by (simp add: catches_def)

lemma catches_fractional [simp]:
  "catches AccountingError FractionalSatoshiError"
  "catches ChannelError FractionalSatoshiError"
  "catches StateError UnconfirmedFundingError"
  "catches ChannelError UnconfirmedFundingError"
  by (simp_all add: catches_def)

end
