(* ===== verification/Prelude.thy ===== *)
theory Prelude
  imports Py_Errors "HOL-Library.Word"
begin

text \<open>
  The development's prelude: results (a raised exception or a value) with their bind and the two
  loop shapes of the sources (a comprehension and a fold, both stopping at the first exception),
  Python list indexing, and the generic list lemmas the components share.
\<close>

named_theorems conservation \<open>sums of balances, outputs and ledger entries\<close>
named_theorems result_simps \<open>inversion of a computation that returned\<close>

section \<open>Results\<close>

type_synonym 'a result = "exn + 'a"

abbreviation raise :: "exn \<Rightarrow> 'a result" where
  "raise \<equiv> Inl"

abbreviation return :: "'a \<Rightarrow> 'a result" where
  "return \<equiv> Inr"

definition bindR :: "'a result \<Rightarrow> ('a \<Rightarrow> 'b result) \<Rightarrow> 'b result" where
  "bindR m k = (case m of Inl e \<Rightarrow> Inl e | Inr x \<Rightarrow> k x)"

lemma bindR_simps [simp]:
  "bindR (Inl e) k = Inl e"
  "bindR (Inr x) k = k x"
  by (simp_all add: bindR_def)

lemma bindR_return [simp]: "bindR m Inr = m"
  by (cases m) simp_all

lemma bindR_assoc: "bindR (bindR m k) l = bindR m (\<lambda>x. bindR (k x) l)"
  by (cases m) simp_all

lemma bindR_eq_Inr [result_simps]: "bindR m k = Inr y \<longleftrightarrow> (\<exists>x. m = Inr x \<and> k x = Inr y)"
  by (cases m) simp_all

lemma bindR_eq_Inl [result_simps]:
  "bindR m k = Inl e \<longleftrightarrow> m = Inl e \<or> (\<exists>x. m = Inr x \<and> k x = Inl e)"
  by (cases m) simp_all

lemma if_raise_eq_Inr [result_simps]:
  "(if b then Inl e else m) = Inr y \<longleftrightarrow> \<not> b \<and> m = Inr y"
  by simp

lemma bindR_cong [fundef_cong]:
  assumes "m = m'" and "\<And>x. m' = Inr x \<Longrightarrow> k x = k' x"
  shows "bindR m k = bindR m' k'"
  using assms by (cases m') simp_all

definition isOK :: "'a result \<Rightarrow> bool" where
  "isOK m \<longleftrightarrow> (case m of Inl _ \<Rightarrow> False | Inr _ \<Rightarrow> True)"

lemma isOK_simps [simp]: "isOK (Inr x)" "\<not> isOK (Inl e)"
  by (simp_all add: isOK_def)

lemma isOK_iff: "isOK m \<longleftrightarrow> (\<exists>x. m = Inr x)"
  by (cases m) simp_all

text \<open>A comprehension \<open>[f(x) for x in xs]\<close> whose body may raise.\<close>

fun mapR :: "('a \<Rightarrow> 'b result) \<Rightarrow> 'a list \<Rightarrow> 'b list result" where
  "mapR f [] = Inr []"
| "mapR f (x # xs) = bindR (f x) (\<lambda>y. bindR (mapR f xs) (\<lambda>ys. Inr (y # ys)))"

lemma mapR_return [simp]: "mapR (\<lambda>x. Inr (f x)) xs = Inr (map f xs)"
  by (induction xs) simp_all

lemma mapR_Inr_all2 [result_simps]:
  "mapR f xs = Inr ys \<longleftrightarrow> list_all2 (\<lambda>x y. f x = Inr y) xs ys"
  by (induction xs arbitrary: ys) (auto simp: bindR_eq_Inr list_all2_Cons1)

lemma mapR_cong [fundef_cong]:
  "xs = xs' \<Longrightarrow> (\<And>x. x \<in> set xs' \<Longrightarrow> f x = g x) \<Longrightarrow> mapR f xs = mapR g xs'"
  by (induction xs arbitrary: xs') auto

lemma mapR_all_return:
  assumes "\<And>x. x \<in> set xs \<Longrightarrow> f x = Inr (g x)"
  shows "mapR f xs = Inr (map g xs)"
  using assms by (induction xs) simp_all

lemma mapR_Inl_at:
  assumes "x \<in> set xs" and "f x = Inl e" and "\<And>y e'. y \<in> set xs \<Longrightarrow> f y = Inl e' \<Longrightarrow> e' = e"
  shows "mapR f xs = Inl e"
  using assms
proof (induction xs)
  case (Cons y ys)
  show ?case
  proof (cases "f y")
    case (Inl e')
    then have "e' = e" by (intro Cons.prems(3)) simp_all
    with Inl show ?thesis by simp
  next
    case (Inr v)
    have "mapR f ys = Inl e"
    proof (rule Cons.IH)
      show "x \<in> set ys" using Cons.prems(1,2) Inr by auto
      show "f x = Inl e" by (rule Cons.prems(2))
    next
      fix z e' assume "z \<in> set ys" and "f z = Inl e'"
      then show "e' = e" by (intro Cons.prems(3)) simp_all
    qed
    with Inr show ?thesis by simp
  qed
qed simp

lemma mapR_length: "mapR f xs = Inr ys \<Longrightarrow> length ys = length xs"
  by (auto simp: mapR_Inr_all2 dest: list_all2_lengthD)

text \<open>A loop \<open>for x in xs: s = f(s, x)\<close> whose body may raise.\<close>

fun foldR :: "('s \<Rightarrow> 'a \<Rightarrow> 's result) \<Rightarrow> 's \<Rightarrow> 'a list \<Rightarrow> 's result" where
  "foldR f s [] = Inr s"
| "foldR f s (x # xs) = bindR (f s x) (\<lambda>s'. foldR f s' xs)"

lemma foldR_append: "foldR f s (xs @ ys) = bindR (foldR f s xs) (\<lambda>s'. foldR f s' ys)"
  by (induction xs arbitrary: s) (simp_all add: bindR_assoc)

lemma foldR_invariant:
  assumes "foldR f s xs = Inr s'" and "P s"
    and "\<And>s x s'. x \<in> set xs \<Longrightarrow> P s \<Longrightarrow> f s x = Inr s' \<Longrightarrow> P s'"
  shows "P s'"
  using assms by (induction xs arbitrary: s) (auto simp: bindR_eq_Inr)

lemma foldR_error:
  assumes "foldR f s xs = Inl e"
    and "\<And>s x. x \<in> set xs \<Longrightarrow> f s x = Inl e \<Longrightarrow> P"
  shows P
  using assms by (induction xs arbitrary: s) (auto simp: bindR_eq_Inl)

text \<open>The loop \<open>for x in xs: if p(x): acc.append(f(x))\<close>.\<close>

lemma foldR_append_if:
  "foldR (\<lambda>acc x. if P x then bindR (f x) (\<lambda>y. return (acc @ [y])) else return acc) acc xs =
     bindR (mapR f (filter P xs)) (\<lambda>ys. return (acc @ ys))"
  by (induction xs arbitrary: acc) (simp_all add: bindR_assoc)

lemma foldR_append_if2:
  "foldR (\<lambda>acc (i, z). if P i z then bindR (f i z) (\<lambda>y. return (acc @ [y])) else return acc) acc xs =
     bindR (mapR (\<lambda>(i, z). f i z) (filter (\<lambda>(i, z). P i z) xs)) (\<lambda>ys. return (acc @ ys))"
  by (induction xs arbitrary: acc) (auto simp: bindR_assoc)

lemma foldR_total:
  assumes "\<And>s x. x \<in> set xs \<Longrightarrow> P s \<Longrightarrow> \<exists>s'. f s x = Inr s' \<and> P s'" and "P s"
  shows "\<exists>s'. foldR f s xs = Inr s' \<and> P s'"
  using assms
proof (induction xs arbitrary: s)
  case (Cons x xs)
  then obtain s1 where "f s x = Inr s1" "P s1" by force
  with Cons show ?case by simp
qed simp

lemma foldR_cong [fundef_cong]:
  assumes "s = s'" and "xs = xs'" and "\<And>s x. x \<in> set xs' \<Longrightarrow> f s x = g s x"
  shows "foldR f s xs = foldR g s' xs'"
  using assms(3) unfolding assms(1,2) by (induction xs' arbitrary: s') (auto cong: bindR_cong)

text \<open>A check \<open>for x in xs: if bad(x): raise e\<close>.\<close>

definition check_all :: "('a \<Rightarrow> unit result) \<Rightarrow> 'a list \<Rightarrow> unit result" where
  "check_all f xs = foldR (\<lambda>_ x. f x) () xs"

lemma check_all_simps [simp]:
  "check_all f [] = Inr ()"
  "check_all f (x # xs) = bindR (f x) (\<lambda>_. check_all f xs)"
  by (simp_all add: check_all_def)

lemma check_all_Inr [result_simps]: "check_all f xs = Inr u \<longleftrightarrow> (\<forall>x \<in> set xs. f x = Inr ())"
  by (induction xs) (auto simp: bindR_eq_Inr)

lemma check_all_ok: "(\<And>x. x \<in> set xs \<Longrightarrow> f x = Inr ()) \<Longrightarrow> check_all f xs = Inr ()"
  by (simp add: check_all_Inr)

section \<open>Python sequences\<close>

text \<open>\<open>range(n)\<close> as the list of its integers.\<close>

definition py_range :: "int \<Rightarrow> int list" where
  "py_range n = map int [0..<nat n]"

lemma set_py_range [simp]: "set (py_range n) = {0..<n}"
  by (auto simp: py_range_def image_iff intro!: bexI [of _ "nat _"])

lemma length_py_range [simp]: "length (py_range n) = nat n"
  by (simp add: py_range_def)

lemma nth_py_range [simp]: "i < nat n \<Longrightarrow> py_range n ! i = int i"
  by (simp add: py_range_def)

lemma distinct_py_range [simp]: "distinct (py_range n)"
  by (simp add: py_range_def distinct_map)

lemma py_range_int: "py_range (int n) = map int [0..<n]"
  by (simp add: py_range_def)

text \<open>\<open>xs[i]\<close>: a negative index counts from the end, an index out of range raises.\<close>

definition py_index :: "'a list \<Rightarrow> int \<Rightarrow> nat result" where
  "py_index xs i =
     (let n = int (length xs); j = (if i < 0 then n + i else i)
      in if 0 \<le> j \<and> j < n then Inr (nat j) else Inl PyIndexError)"

definition py_nth :: "'a list \<Rightarrow> int \<Rightarrow> 'a result" where
  "py_nth xs i = bindR (py_index xs i) (\<lambda>j. Inr (xs ! j))"

text \<open>\<open>xs[i] = v\<close> on a list.\<close>

definition py_set :: "'a list \<Rightarrow> int \<Rightarrow> 'a \<Rightarrow> 'a list result" where
  "py_set xs i v = bindR (py_index xs i) (\<lambda>j. Inr (xs[j := v]))"

lemma py_nth_in_range [simp]:
  "0 \<le> i \<Longrightarrow> i < int (length xs) \<Longrightarrow> py_nth xs i = Inr (xs ! nat i)"
  by (simp add: py_nth_def py_index_def)

lemma py_set_in_range [simp]:
  "0 \<le> i \<Longrightarrow> i < int (length xs) \<Longrightarrow> py_set xs i v = Inr (xs[nat i := v])"
  by (simp add: py_set_def py_index_def)

lemma py_nth_int [simp]: "i < length xs \<Longrightarrow> py_nth xs (int i) = Inr (xs ! i)"
  by simp

lemma py_nth_beyond: "int (length xs) \<le> i \<Longrightarrow> py_nth xs i = Inl PyIndexError"
  by (auto simp: py_nth_def py_index_def)

section \<open>List lemmas\<close>

lemma sum_list_update_int [conservation]:
  fixes xs :: "int list"
  assumes "i < length xs"
  shows "sum_list (xs[i := v]) = sum_list xs - xs ! i + v"
  using assms by (induction xs arbitrary: i) (auto split: nat.splits)

lemma sum_list_nonneg_int: "(\<And>x. x \<in> set xs \<Longrightarrow> (0::int) \<le> x) \<Longrightarrow> 0 \<le> sum_list xs"
  by (rule sum_list_nonneg)

lemma sum_list_filter_zero:
  fixes f :: "'a \<Rightarrow> int"
  shows "sum_list (map f (filter (\<lambda>x. f x \<noteq> 0) xs)) = sum_list (map f xs)"
  by (induction xs) simp_all

lemma sum_list_filter_pos [conservation]:
  fixes f :: "'a \<Rightarrow> int"
  assumes "\<And>x. x \<in> set xs \<Longrightarrow> 0 \<le> f x"
  shows "sum_list (map f (filter (\<lambda>x. 0 < f x) xs)) = sum_list (map f xs)"
  using assms
proof (induction xs)
  case (Cons x xs)
  then have "f x = 0" if "\<not> 0 < f x" using that by force
  with Cons show ?case by auto
qed simp

lemma insort_key_cong:
  "(\<And>y. y \<in> insert x (set xs) \<Longrightarrow> f y = g y) \<Longrightarrow> insort_key f x xs = insort_key g x xs"
  by (induction xs) auto

lemma sort_key_cong:
  assumes "\<And>x. x \<in> set xs \<Longrightarrow> f x = g x"
  shows "sort_key f xs = sort_key g xs"
  using assms
proof (induction xs)
  case (Cons x xs)
  then have "sort_key f xs = sort_key g xs" by simp
  moreover have "insort_key f x (sort_key g xs) = insort_key g x (sort_key g xs)"
    using Cons.prems by (intro insort_key_cong) auto
  ultimately show ?case by simp
qed simp

lemma ball_enumerate:
  "(\<forall>p \<in> set (List.enumerate 0 xs). P p) \<longleftrightarrow> (\<forall>i < length xs. P (i, xs ! i))"
  by (force simp: in_set_enumerate_eq)

lemma map_enumerate:
  "map (\<lambda>p. f (fst p)) (List.enumerate 0 xs) = map f [0..<length xs]"
  "map (\<lambda>p. g (snd p)) (List.enumerate k xs) = map g xs"
  by (rule nth_equalityI; simp add: nth_enumerate_eq)+

lemma set_map_filter: "y \<in> set (List.map_filter f xs) \<longleftrightarrow> (\<exists>x \<in> set xs. f x = Some y)"
  by (induction xs) (auto simp: map_filter_simps split: option.splits)

lemma map_of_rev_distinct: "distinct (map fst xs) \<Longrightarrow> map_of (rev xs) = map_of xs"
  by (simp add: map_of_inject_set rev_map [symmetric])

lemma sum_list_map_nth_upt: "sum_list (map (\<lambda>i. xs ! i) [0..<length xs]) = sum_list xs"
  by (simp add: map_nth)

end
