(* ===== verification/Channel_Config.thy ===== *)
theory Channel_Config
  imports Prelude
begin

text \<open>
  \<open>config.py\<close>: the protocol constants and the channel configuration.  A frozen dataclass with
  a checking \<open>__post_init__\<close> is a record together with the function that builds it or raises;
  \<open>valid_config\<close> is what every configuration that was built satisfies.  The interpreter-limit
  factories only fill in a \<open>bitcoinx\<close> object and are not modelled.
\<close>

section \<open>Constants\<close>

definition SIGHASH_ALL_FORKID :: int where "SIGHASH_ALL_FORKID = 0x41"
definition START_SEQUENCE :: int where "START_SEQUENCE = 0"
definition FINAL_SEQUENCE :: int where "FINAL_SEQUENCE = 0xFFFFFFFF"
definition MAX_NON_FINAL_SEQUENCE :: int where "MAX_NON_FINAL_SEQUENCE = 0xFFFFFFFE"
definition DEFAULT_DELTA :: int where "DEFAULT_DELTA = 144"
definition DEFAULT_L0 :: int where "DEFAULT_L0 = 100000"
definition COOP_LOCKTIME :: int where "COOP_LOCKTIME = 0"

lemmas sequence_constants = START_SEQUENCE_def FINAL_SEQUENCE_def MAX_NON_FINAL_SEQUENCE_def

section \<open>The limits of the interpreter\<close>

text \<open>The objects handed to bitcoinx with every input that is verified.\<close>

definition MAX_SCRIPT_SIZE :: int where "MAX_SCRIPT_SIZE = 10 ^ 9"
definition MAX_SCRIPT_NUM_LENGTH :: int where "MAX_SCRIPT_NUM_LENGTH = 750000"
definition MAX_STACK_MEMORY :: int where "MAX_STACK_MEMORY = 10 ^ 10"
definition MAX_OPS_PER_SCRIPT :: int where "MAX_OPS_PER_SCRIPT = 10 ^ 8"
definition MAX_PUBKEYS_PER_MULTISIG :: int where "MAX_PUBKEYS_PER_MULTISIG = 20000"

record miner_policy =
  max_script_size :: int
  max_script_num_length :: int
  max_stack_memory :: int
  max_ops_per_script :: int
  max_pubkeys_per_multisig :: int

record interpreter_limits =
  il_policy :: miner_policy
  is_genesis_enabled :: bool
  is_consensus :: bool

definition make_miner_policy :: miner_policy where
  "make_miner_policy = \<lparr>max_script_size = MAX_SCRIPT_SIZE, max_script_num_length = MAX_SCRIPT_NUM_LENGTH,
     max_stack_memory = MAX_STACK_MEMORY, max_ops_per_script = MAX_OPS_PER_SCRIPT,
     max_pubkeys_per_multisig = MAX_PUBKEYS_PER_MULTISIG\<rparr>"

definition make_interpreter_limits :: interpreter_limits where
  "make_interpreter_limits = \<lparr>il_policy = make_miner_policy, is_genesis_enabled = True, is_consensus = True\<rparr>"

section \<open>The configuration of a channel\<close>

record config =
  cfg_n :: int
  cfg_k :: int
  cfg_S :: int
  cfg_bonds :: "int list"
  cfg_L0 :: int
  cfg_delta :: int

definition ChannelConfig ::
  "int \<Rightarrow> int \<Rightarrow> int \<Rightarrow> int list \<Rightarrow> int \<Rightarrow> int \<Rightarrow> config result" where
  "ChannelConfig n k S bonds L0 delta =
     (if n < 2 then raise ConfigError
      else if k < 1 then raise ConfigError
      else if S < 1 then raise ConfigError
      else if int (length bonds) \<noteq> n then raise ConfigError
      else bindR (check_all (\<lambda>b. if b < 1 then raise ConfigError else return ()) bonds) (\<lambda>_.
        if L0 < 1 then raise ConfigError
        else if delta < 1 then raise ConfigError
        else if 500000000 \<le> L0 then raise ConfigError
        else return \<lparr>cfg_n = n, cfg_k = k, cfg_S = S, cfg_bonds = bonds,
                      cfg_L0 = L0, cfg_delta = delta\<rparr>))"

definition uniform_bond ::
  "int \<Rightarrow> int \<Rightarrow> int \<Rightarrow> int \<Rightarrow> int \<Rightarrow> int \<Rightarrow> config result" where
  "uniform_bond n k S bond L0 delta = ChannelConfig n k S (replicate (nat n) bond) L0 delta"

definition valid_config :: "config \<Rightarrow> bool" where
  "valid_config c \<longleftrightarrow>
     2 \<le> cfg_n c \<and> 1 \<le> cfg_k c \<and> 1 \<le> cfg_S c \<and>
     int (length (cfg_bonds c)) = cfg_n c \<and> (\<forall>b \<in> set (cfg_bonds c). 1 \<le> b) \<and>
     1 \<le> cfg_L0 c \<and> 1 \<le> cfg_delta c \<and> cfg_L0 c < 500000000"

lemma ChannelConfig_Inr:
  "ChannelConfig n k S bonds L0 delta = Inr c \<longleftrightarrow>
     valid_config c \<and> c = \<lparr>cfg_n = n, cfg_k = k, cfg_S = S, cfg_bonds = bonds,
                             cfg_L0 = L0, cfg_delta = delta\<rparr>"
  by (auto simp: ChannelConfig_def valid_config_def result_simps not_less not_le
      split: if_splits)

lemma ChannelConfig_Inl: "ChannelConfig n k S bonds L0 delta = Inl e \<Longrightarrow> e = ConfigError"
  by (auto simp: ChannelConfig_def check_all_def result_simps split: if_splits
      elim: foldR_error)

lemma valid_configD:
  assumes "valid_config c"
  shows "2 \<le> cfg_n c" "1 \<le> cfg_k c" "1 \<le> cfg_S c" "length (cfg_bonds c) = nat (cfg_n c)"
    "int (length (cfg_bonds c)) = cfg_n c" "\<And>b. b \<in> set (cfg_bonds c) \<Longrightarrow> 1 \<le> b"
    "\<And>i. 0 \<le> i \<Longrightarrow> i < cfg_n c \<Longrightarrow> 1 \<le> cfg_bonds c ! nat i"
  using assms by (auto simp: valid_config_def)

end
