(* ===== verification/Channel_Accounting.thy ===== *)
theory Channel_Accounting
  imports Channel_Config "HOL-Library.Product_Lexorder"
begin

text \<open>
  \<open>accounting.py\<close> and \<open>fees.py\<close>: the micro-unit state of a channel, transfers, and the netting
  quantisation \<open>Q*\<close> that settles a state in whole satoshis.
\<close>

section \<open>The whole-satoshi guard\<close>

text \<open>The argument is any Python object: what the guard tells apart is its type.\<close>

datatype pyval = PyBool bool | PyInt int | PyFloat | PyOther

fun ensure_whole_satoshi :: "pyval \<Rightarrow> int result" where
  "ensure_whole_satoshi (PyBool b) = raise FractionalSatoshiError"
| "ensure_whole_satoshi (PyInt v) = (if v < 0 then raise FractionalSatoshiError else return v)"
| "ensure_whole_satoshi _ = raise FractionalSatoshiError"

lemma ensure_whole_satoshi_Inr [result_simps]:
  "ensure_whole_satoshi v = Inr n \<longleftrightarrow> v = PyInt n \<and> 0 \<le> n"
  by (cases v) auto

section \<open>States\<close>

record state =
  balances :: "int list"
  version :: int

definition State :: "int list \<Rightarrow> int \<Rightarrow> state result" where
  "State bal v =
     (if v < 0 then raise AccountingError
      else bindR (check_all (\<lambda>b. if b < 0 then raise AccountingError else return ()) bal)
        (\<lambda>_. return \<lparr>balances = bal, version = v\<rparr>))"

definition total_micro :: "state \<Rightarrow> int" where
  "total_micro s = sum_list (balances s)"

definition conservation_check :: "state \<Rightarrow> config \<Rightarrow> unit result" where
  "conservation_check s cfg =
     (if total_micro s \<noteq> cfg_k cfg * cfg_S cfg then raise AccountingError
      else if int (length (balances s)) \<noteq> cfg_n cfg then raise AccountingError
      else return ())"

definition initial_state :: "config \<Rightarrow> int \<Rightarrow> state result" where
  "initial_state cfg funder_index =
     (if \<not> (0 \<le> funder_index \<and> funder_index < cfg_n cfg) then raise AccountingError
      else bindR (py_set (replicate (nat (cfg_n cfg)) 0) funder_index (cfg_k cfg * cfg_S cfg))
        (\<lambda>bal. bindR (State bal 0)
        (\<lambda>s. bindR (conservation_check s cfg) (\<lambda>_. return s))))"

definition transfer :: "state \<Rightarrow> int \<Rightarrow> int \<Rightarrow> int \<Rightarrow> config \<Rightarrow> state result" where
  "transfer st sender recipient delta cfg =
     (if sender = recipient then raise AccountingError
      else if \<not> (0 \<le> sender \<and> sender < cfg_n cfg) then raise AccountingError
      else if \<not> (0 \<le> recipient \<and> recipient < cfg_n cfg) then raise AccountingError
      else if delta < 0 then raise AccountingError
      else bindR (py_nth (balances st) sender) (\<lambda>bs.
        if bs < delta then raise AccountingError
        else bindR (py_set (balances st) sender (bs - delta)) (\<lambda>b1.
          bindR (py_nth b1 recipient) (\<lambda>br.
          bindR (py_set b1 recipient (br + delta)) (\<lambda>b2.
          bindR (State b2 (version st + 1)) (\<lambda>st'.
          bindR (conservation_check st' cfg) (\<lambda>_. return st')))))))"

definition assert_conservation_over_sequence ::
  "state \<Rightarrow> (int \<times> int \<times> int) list \<Rightarrow> config \<Rightarrow> state result" where
  "assert_conservation_over_sequence initial transfers cfg =
     bindR (conservation_check initial cfg) (\<lambda>_.
       foldR (\<lambda>cur (s, r, d). bindR (transfer cur s r d cfg) (\<lambda>cur'.
         bindR (conservation_check cur' cfg) (\<lambda>_. return cur'))) initial transfers)"

text \<open>The invariant of a channel state under its configuration.\<close>

definition valid_state :: "config \<Rightarrow> state \<Rightarrow> bool" where
  "valid_state cfg s \<longleftrightarrow>
     0 \<le> version s \<and> (\<forall>b \<in> set (balances s). 0 \<le> b) \<and>
     int (length (balances s)) = cfg_n cfg \<and> sum_list (balances s) = cfg_k cfg * cfg_S cfg"

lemma State_Inr [result_simps]:
  "State bal v = Inr s \<longleftrightarrow>
     0 \<le> v \<and> (\<forall>b \<in> set bal. 0 \<le> b) \<and> s = \<lparr>balances = bal, version = v\<rparr>"
  by (auto simp: State_def result_simps not_less split: if_splits)

lemma State_Inl: "State bal v = Inl e \<Longrightarrow> e = AccountingError"
  by (auto simp: State_def check_all_def result_simps split: if_splits elim: foldR_error)

lemma conservation_check_Inr [result_simps]:
  "conservation_check s cfg = Inr u \<longleftrightarrow>
     sum_list (balances s) = cfg_k cfg * cfg_S cfg \<and> int (length (balances s)) = cfg_n cfg"
  by (auto simp: conservation_check_def total_micro_def)

lemma valid_state_check: "valid_state cfg s \<Longrightarrow> conservation_check s cfg = Inr ()"
  by (simp add: conservation_check_Inr valid_state_def)

lemma valid_stateI:
  "State bal v = Inr s \<Longrightarrow> conservation_check s cfg = Inr u \<Longrightarrow> valid_state cfg s"
  by (auto simp: valid_state_def result_simps)

section \<open>The initial state\<close>

lemma sum_list_replicate_update:
  "i < n \<Longrightarrow> sum_list ((replicate n (0::int))[i := v]) = v"
  by (simp add: sum_list_update_int sum_list_replicate)

lemma initial_state_ok:
  assumes "valid_config cfg" and "0 \<le> f" and "f < cfg_n cfg"
  shows "\<exists>s. initial_state cfg f = Inr s \<and> valid_state cfg s \<and> version s = 0 \<and>
     (\<forall>i < nat (cfg_n cfg). balances s ! i = (if i = nat f then cfg_k cfg * cfg_S cfg else 0))"
proof -
  let ?bal = "(replicate (nat (cfg_n cfg)) 0)[nat f := cfg_k cfg * cfg_S cfg]"
  have sum: "sum_list ?bal = cfg_k cfg * cfg_S cfg"
    using assms by (intro sum_list_replicate_update) simp
  have nonneg: "\<forall>b \<in> set ?bal. 0 \<le> b"
    using assms valid_configD [OF assms(1)] set_update_subset_insert by fastforce
  have init: "initial_state cfg f = Inr \<lparr>balances = ?bal, version = 0\<rparr>"
    using assms sum nonneg valid_configD(1) [OF assms(1)]
    by (auto simp: initial_state_def result_simps State_Inr)
  show ?thesis
    using assms sum nonneg valid_configD(1) [OF assms(1)]
    by (simp add: init valid_state_def nth_list_update)
qed

section \<open>Transfers\<close>

text \<open>What a transfer that goes through does to the balances.\<close>

lemma transfer_Inr:
  assumes "transfer st s r d cfg = Inr st'"
  shows "s \<noteq> r" "0 \<le> s" "s < cfg_n cfg" "0 \<le> r" "r < cfg_n cfg" "0 \<le> d"
    and "valid_state cfg st'" and "version st' = version st + 1"
  using assms by (auto simp: transfer_def result_simps valid_state_def split: if_splits)

lemma transfer_balances:
  assumes "transfer st s r d cfg = Inr st'" and "int (length (balances st)) = cfg_n cfg"
  shows "balances st' =
      (balances st)[nat s := balances st ! nat s - d, nat r := balances st ! nat r + d]"
    and "d \<le> balances st ! nat s"
  using assms by (auto simp: transfer_def result_simps nth_list_update split: if_splits)

text \<open>In a valid state a transfer goes through exactly when its guards hold.\<close>

definition transfer_allowed :: "config \<Rightarrow> state \<Rightarrow> int \<Rightarrow> int \<Rightarrow> int \<Rightarrow> bool" where
  "transfer_allowed cfg st s r d \<longleftrightarrow>
     s \<noteq> r \<and> 0 \<le> s \<and> s < cfg_n cfg \<and> 0 \<le> r \<and> r < cfg_n cfg \<and> 0 \<le> d \<and>
     d \<le> balances st ! nat s"

lemma transfer_step:
  assumes "valid_state cfg st" and "transfer_allowed cfg st s r d"
  shows "transfer st s r d cfg = Inr
    \<lparr>balances = (balances st)[nat s := balances st ! nat s - d, nat r := balances st ! nat r + d],
     version = version st + 1\<rparr>" (is "_ = Inr \<lparr>balances = ?bal, version = _\<rparr>")
proof -
  note v = assms(1) [unfolded valid_state_def] and a = assms(2) [unfolded transfer_allowed_def]
  have len: "nat s < length (balances st)" "nat r < length (balances st)" "nat s \<noteq> nat r"
    using v a by auto
  have nonneg: "0 \<le> balances st ! nat s" "0 \<le> balances st ! nat r"
    using v len by auto
  have sum: "sum_list ?bal = cfg_k cfg * cfg_S cfg"
    using v len by (simp add: sum_list_update_int nth_list_update)
  have "set ?bal \<subseteq> {balances st ! nat s - d, balances st ! nat r + d} \<union> set (balances st)"
    using set_update_subset_insert [of "(balances st)[nat s := balances st ! nat s - d]"]
      set_update_subset_insert [of "balances st"] by blast
  then have "\<forall>b \<in> set ?bal. 0 \<le> b"
    using v a nonneg by auto
  with v a len sum show ?thesis
    by (auto simp: transfer_def result_simps nth_list_update State_Inr)
qed

lemma transfer_raises:
  assumes "valid_state cfg st" and "\<not> transfer_allowed cfg st s r d"
  shows "transfer st s r d cfg = Inl AccountingError"
  using assms by (auto simp: transfer_def transfer_allowed_def valid_state_def not_le)

lemma transfer_preserves:
  "valid_state cfg st \<Longrightarrow> transfer st s r d cfg = Inr st' \<Longrightarrow> valid_state cfg st'"
  by (rule transfer_Inr)

lemma sequence_fold_preserves:
  assumes "foldR (\<lambda>cur (s, r, d). bindR (transfer cur s r d cfg) (\<lambda>cur'.
       bindR (conservation_check cur' cfg) (\<lambda>_. return cur'))) st ts = Inr st'"
    and "valid_state cfg st"
  shows "valid_state cfg st' \<and> version st' = version st + int (length ts)"
  using assms
proof (induction ts arbitrary: st)
  case (Cons t ts)
  obtain s r d where t: "t = (s, r, d)" by (cases t)
  from Cons.prems(1) obtain st1 where step: "transfer st s r d cfg = Inr st1"
    and rest: "foldR (\<lambda>cur (s, r, d). bindR (transfer cur s r d cfg) (\<lambda>cur'.
       bindR (conservation_check cur' cfg) (\<lambda>_. return cur'))) st1 ts = Inr st'"
    by (auto simp: t bindR_eq_Inr)
  from Cons.IH [OF rest] transfer_Inr(7,8) [OF step] show ?case by simp
qed simp

lemma sequence_preserves:
  assumes "assert_conservation_over_sequence st ts cfg = Inr st'" and "valid_state cfg st"
  shows "valid_state cfg st' \<and> version st' = version st + int (length ts)"
  using assms sequence_fold_preserves
  by (auto simp: assert_conservation_over_sequence_def bindR_eq_Inr)

section \<open>The netting quantisation\<close>

definition quantise :: "state \<Rightarrow> config \<Rightarrow> int list result" where
  "quantise st cfg =
     bindR (conservation_check st cfg) (\<lambda>_.
       let k = cfg_k cfg; S = cfg_S cfg; n = cfg_n cfg;
           floors = map (\<lambda>a. a div k) (balances st);
           remainders = map (\<lambda>a. a mod k) (balances st);
           total_floor = sum_list floors;
           R = S - total_floor
       in if R < 0 \<or> n \<le> R then raise AccountingError
          else
            let order = sort_key (\<lambda>i. (- (remainders ! nat i), i)) (py_range n);
                winners = set (take (nat R) order);
                q = map (\<lambda>i. floors ! nat i + (if i \<in> winners then 1 else 0)) (py_range n)
            in if sum_list q \<noteq> S then raise AccountingError
               else bindR (mapR (\<lambda>qi. ensure_whole_satoshi (PyInt qi)) q) (\<lambda>_. return q))"

text \<open>The parties ranked by remainder, and how many of them get one more satoshi.\<close>

definition netting_order :: "state \<Rightarrow> config \<Rightarrow> int list" where
  "netting_order st cfg =
     sort_key (\<lambda>i. (- (balances st ! nat i mod cfg_k cfg), i)) (py_range (cfg_n cfg))"

definition netting_remainder :: "state \<Rightarrow> config \<Rightarrow> int" where
  "netting_remainder st cfg = cfg_S cfg - sum_list (map (\<lambda>a. a div cfg_k cfg) (balances st))"

definition netting_winners :: "state \<Rightarrow> config \<Rightarrow> int set" where
  "netting_winners st cfg = set (take (nat (netting_remainder st cfg)) (netting_order st cfg))"

definition netting_payout :: "state \<Rightarrow> config \<Rightarrow> int \<Rightarrow> int" where
  "netting_payout st cfg i =
     balances st ! nat i div cfg_k cfg + (if i \<in> netting_winners st cfg then 1 else 0)"

lemma sum_list_div_mod:
  "sum_list xs = (k::int) * sum_list (map (\<lambda>a. a div k) xs) + sum_list (map (\<lambda>a. a mod k) xs)"
proof (induction xs)
  case (Cons x xs)
  have "x = k * (x div k) + x mod k" by simp
  with Cons show ?case by (simp add: distrib_left)
qed simp

lemma sum_list_mod_bounds:
  assumes "(0::int) < k"
  shows "0 \<le> sum_list (map (\<lambda>a. a mod k) xs)"
    and "xs \<noteq> [] \<Longrightarrow> sum_list (map (\<lambda>a. a mod k) xs) < k * int (length xs)"
proof -
  show "0 \<le> sum_list (map (\<lambda>a. a mod k) xs)"
    using assms by (intro sum_list_nonneg) auto
  show "xs \<noteq> [] \<Longrightarrow> sum_list (map (\<lambda>a. a mod k) xs) < k * int (length xs)"
  proof (induction xs)
    case (Cons x xs)
    have "x mod k < k" using assms by simp
    with Cons show ?case by (cases "xs = []") (auto simp: distrib_left)
  qed simp
qed

text \<open>The number of satoshis left after the floors lies in \<open>[0, n)\<close>, as the source argues.\<close>

lemma netting_remainder_bounds:
  assumes "valid_config cfg" and "valid_state cfg st"
  shows "0 \<le> netting_remainder st cfg" and "netting_remainder st cfg < cfg_n cfg"
    and "cfg_k cfg * netting_remainder st cfg = sum_list (map (\<lambda>a. a mod cfg_k cfg) (balances st))"
proof -
  let ?k = "cfg_k cfg" and ?r = "sum_list (map (\<lambda>a. a mod cfg_k cfg) (balances st))"
  have k: "0 < ?k" and n: "2 \<le> cfg_n cfg" using valid_configD(1,2) [OF assms(1)] by auto
  have len: "int (length (balances st)) = cfg_n cfg"
    and sum: "sum_list (balances st) = ?k * cfg_S cfg"
    using assms(2) by (auto simp: valid_state_def)
  show eq: "?k * netting_remainder st cfg = ?r"
    using sum sum_list_div_mod [of "balances st" ?k]
    by (simp add: netting_remainder_def right_diff_distrib)
  have "0 \<le> ?k * netting_remainder st cfg"
    unfolding eq using k by (rule sum_list_mod_bounds)
  then show "0 \<le> netting_remainder st cfg" using k by (simp add: zero_le_mult_iff)
  have "balances st \<noteq> []" using len n by auto
  then have "?k * netting_remainder st cfg < ?k * cfg_n cfg"
    unfolding eq len [symmetric] using k by (rule sum_list_mod_bounds(2) [rotated])
  then show "netting_remainder st cfg < cfg_n cfg" using k by simp
qed

lemma netting_order_props:
  "set (netting_order st cfg) = {0..<cfg_n cfg}" "distinct (netting_order st cfg)"
  "length (netting_order st cfg) = nat (cfg_n cfg)"
  "sorted (map (\<lambda>i. (- (balances st ! nat i mod cfg_k cfg), i)) (netting_order st cfg))"
  by (simp_all add: netting_order_def)

lemma card_netting_winners:
  assumes "valid_config cfg" and "valid_state cfg st"
  shows "int (card (netting_winners st cfg)) = netting_remainder st cfg"
    and "netting_winners st cfg \<subseteq> {0..<cfg_n cfg}"
proof -
  note b = netting_remainder_bounds(1,2) [OF assms]
  have "card (netting_winners st cfg) = nat (netting_remainder st cfg)"
    using b by (simp add: netting_winners_def distinct_card netting_order_props)
  then show "int (card (netting_winners st cfg)) = netting_remainder st cfg" using b by simp
  show "netting_winners st cfg \<subseteq> {0..<cfg_n cfg}"
    unfolding netting_winners_def
    using set_take_subset [of _ "netting_order st cfg"] netting_order_props(1) by fastforce
qed

lemma sum_indicator:
  assumes "W \<subseteq> set xs" and "distinct xs"
  shows "(\<Sum>i \<leftarrow> xs. if i \<in> W then 1 else (0::int)) = int (card W)"
proof -
  have "(\<Sum>i \<leftarrow> xs. if i \<in> W then 1 else (0::int)) = (\<Sum>i \<in> set xs. if i \<in> W then 1 else 0)"
    using assms(2) by (rule sum_list_distinct_conv_sum_set)
  also have "\<dots> = int (card (set xs \<inter> W))"
    by (simp add: sum.If_cases)
  finally show ?thesis using assms(1) by (simp add: Int_absorb1)
qed

lemma sum_netting_payout [conservation]:
  assumes "valid_config cfg" and "valid_state cfg st"
  shows "sum_list (map (netting_payout st cfg) (py_range (cfg_n cfg))) = cfg_S cfg"
proof -
  let ?f = "\<lambda>i. balances st ! nat i div cfg_k cfg"
  have len: "nat (cfg_n cfg) = length (balances st)"
    using assms(2) by (auto simp: valid_state_def)
  have "map ?f (py_range (cfg_n cfg)) = map (\<lambda>a. a div cfg_k cfg) (balances st)"
    by (rule nth_equalityI) (simp_all add: len)
  moreover have "(\<Sum>i \<leftarrow> py_range (cfg_n cfg). if i \<in> netting_winners st cfg then 1 else 0)
      = netting_remainder st cfg"
    using card_netting_winners [OF assms] by (simp add: sum_indicator)
  moreover have "netting_payout st cfg =
      (\<lambda>i. ?f i + (if i \<in> netting_winners st cfg then 1 else 0))"
    by (simp add: netting_payout_def fun_eq_iff)
  ultimately show ?thesis
    by (simp add: sum_list_addf netting_remainder_def)
qed

text \<open>On a valid state \<open>quantise\<close> returns: none of its three guards can fire.\<close>

lemma quantise_eq:
  assumes "valid_config cfg" and "valid_state cfg st"
  shows "quantise st cfg = Inr (map (netting_payout st cfg) (py_range (cfg_n cfg)))"
proof -
  have k: "1 \<le> cfg_k cfg" using assms(1) by (rule valid_configD)
  have len: "nat (cfg_n cfg) = length (balances st)"
    and nonneg: "\<And>i. i < length (balances st) \<Longrightarrow> 0 \<le> balances st ! i"
    using assms(2) by (auto simp: valid_state_def)
  have order: "sort_key (\<lambda>i. (- (map (\<lambda>a. a mod cfg_k cfg) (balances st) ! nat i), i))
      (py_range (cfg_n cfg)) = netting_order st cfg"
    unfolding netting_order_def
    by (rule sort_key_cong) (auto simp: len [symmetric])
  have q: "map (\<lambda>i. map (\<lambda>a. a div cfg_k cfg) (balances st) ! nat i +
        (if i \<in> netting_winners st cfg then 1 else 0)) (py_range (cfg_n cfg))
      = map (netting_payout st cfg) (py_range (cfg_n cfg))"
    by (auto simp: netting_payout_def len [symmetric])
  have pos: "0 \<le> netting_payout st cfg i" if "i \<in> {0..<cfg_n cfg}" for i
    using that k nonneg [of "nat i"] len
    by (auto simp: netting_payout_def pos_imp_zdiv_nonneg_iff)
  then have "\<forall>x \<in> set (map (netting_payout st cfg) (py_range (cfg_n cfg))). 0 \<le> x" by auto
  then have whole: "mapR (\<lambda>qi. ensure_whole_satoshi (PyInt qi))
      (map (netting_payout st cfg) (py_range (cfg_n cfg)))
      = Inr (map (netting_payout st cfg) (py_range (cfg_n cfg)))"
    by (subst mapR_all_return [where g = "\<lambda>x. x"]) (auto simp del: set_map)
  show ?thesis
    using netting_remainder_bounds(1,2) [OF assms] sum_netting_payout [OF assms] whole
    unfolding quantise_def Let_def valid_state_check [OF assms(2)] bindR_simps
      netting_remainder_def [symmetric] order netting_winners_def [symmetric] q
    by simp
qed

lemma netting_payout_cases:
  "netting_payout st cfg i = balances st ! nat i div cfg_k cfg \<or>
   netting_payout st cfg i = balances st ! nat i div cfg_k cfg + 1"
  by (simp add: netting_payout_def)

lemma sorted_take_drop:
  assumes "sorted (map f xs)" and "x \<in> set (take n xs)" and "y \<in> set (drop n xs)"
  shows "f x \<le> f y"
proof -
  have "sorted (map f (take n xs) @ map f (drop n xs))"
    using assms(1) by (simp flip: map_append)
  with assms(2,3) show ?thesis by (auto simp: sorted_append)
qed

text \<open>Largest remainder first, ties to the smaller index.\<close>

lemma netting_winner_beats_loser:
  assumes "i \<in> netting_winners st cfg" and "0 \<le> j" "j < cfg_n cfg" "j \<notin> netting_winners st cfg"
  shows "balances st ! nat j mod cfg_k cfg < balances st ! nat i mod cfg_k cfg \<or>
    (balances st ! nat j mod cfg_k cfg = balances st ! nat i mod cfg_k cfg \<and> i < j)"
proof -
  let ?xs = "netting_order st cfg" and ?n = "nat (netting_remainder st cfg)"
  have "j \<in> set (take ?n ?xs @ drop ?n ?xs)"
    using assms by (simp add: netting_order_props del: set_append)
  then have "j \<in> set (drop ?n ?xs)"
    using assms(4) by (simp only: set_append netting_winners_def) blast
  then have "(- (balances st ! nat i mod cfg_k cfg), i) \<le> (- (balances st ! nat j mod cfg_k cfg), j)"
    using assms(1) netting_order_props(4)
    by (intro sorted_take_drop [of "\<lambda>i. (- (balances st ! nat i mod cfg_k cfg), i)"])
       (auto simp: netting_winners_def)
  moreover have "i \<noteq> j" using assms by auto
  ultimately show ?thesis by auto
qed

section \<open>Fees\<close>

record fee_model =
  sat_per_byte :: int
  min_tx_fee :: int

definition DEFAULT_FEE_MODEL :: fee_model where
  "DEFAULT_FEE_MODEL = \<lparr>sat_per_byte = 1, min_tx_fee = 1\<rparr>"

definition fee_for_size :: "fee_model \<Rightarrow> int \<Rightarrow> int result" where
  "fee_for_size m size_bytes =
     (if size_bytes < 0 then raise PyValueError
      else ensure_whole_satoshi (PyInt (max (min_tx_fee m) (size_bytes * sat_per_byte m))))"

end
