(* ===== verification/Py_Bytes.thy ===== *)
theory Py_Bytes
  imports Prelude
begin

text \<open>
  Byte strings: \<open>int.to_bytes\<close> and \<open>int.from_bytes\<close> at a fixed width, reading from a byte
  stream (\<open>io.BytesIO\<close>, whose state is the list of bytes not yet read), and the interface
  \<open>codec\<close> of a serialiser with the parser that undoes it, with the lemmas about sequences of
  encoded items proved once from its law.
\<close>

section \<open>Bytes and integers\<close>

type_synonym byte = "8 word"
type_synonym bytes = "byte list"

fun le_bytes :: "nat \<Rightarrow> nat \<Rightarrow> bytes" where
  "le_bytes 0 n = []"
| "le_bytes (Suc w) n = word_of_nat n # le_bytes w (n div 256)"

fun from_le :: "bytes \<Rightarrow> nat" where
  "from_le [] = 0"
| "from_le (b # bs) = unat b + 256 * from_le bs"

lemma length_le_bytes [simp]: "length (le_bytes w n) = w"
  by (induction w arbitrary: n) simp_all

lemma unat_byte_of_nat: "unat (word_of_nat n :: byte) = n mod 256"
  by (simp add: unat_of_nat)

lemma byte_of_nat_mod [simp]: "(word_of_nat (n mod 256) :: byte) = word_of_nat n"
  by (simp add: word_eq_iff_unsigned [where 'a = nat] unat_byte_of_nat)

lemma unat_byte_less [simp]: "unat (b :: byte) < 256"
  using unsigned_less [of b, where 'a = nat] by simp

lemma from_le_le_bytes: "from_le (le_bytes w n) = n mod 256 ^ w"
proof (induction w arbitrary: n)
  case (Suc w)
  have "n mod (256 * 256 ^ w) = n mod 256 + 256 * (n div 256 mod 256 ^ w)"
    by (simp add: mod_mult2_eq)
  with Suc show ?case by (simp add: unat_byte_of_nat)
qed simp

lemma from_le_bound: "from_le bs < 256 ^ length bs"
proof (induction bs)
  case (Cons b bs)
  have "unat b + 256 * from_le bs < 256 + 256 * from_le bs" by simp
  also have "\<dots> = 256 * Suc (from_le bs)" by simp
  also have "\<dots> \<le> 256 * 256 ^ length bs" using Cons by (intro mult_le_mono2) simp
  finally show ?case by simp
qed simp

lemma le_bytes_from_le [simp]: "le_bytes (length bs) (from_le bs) = bs"
proof (induction bs)
  case (Cons b bs)
  have "unat (word_of_nat (unat b + 256 * from_le bs) :: byte) = unat b"
    by (simp only: unat_byte_of_nat) simp
  then have "(word_of_nat (unat b + 256 * from_le bs) :: byte) = b"
    by (rule word_unat_eq_iff [THEN iffD2])
  with Cons show ?case by simp
qed simp

lemma from_le_inj: "length xs = length ys \<Longrightarrow> from_le xs = from_le ys \<Longrightarrow> xs = ys"
  by (metis le_bytes_from_le)

lemma from_le_append: "from_le (xs @ ys) = from_le xs + 256 ^ length xs * from_le ys"
  by (induction xs) (simp_all add: algebra_simps)

lemma power_256: "(2::int) ^ (8 * w) = 256 ^ w" "(2::nat) ^ (8 * w) = 256 ^ w"
  by (simp_all add: power_mult)

text \<open>\<open>n.to_bytes(w, "little")\<close> and \<open>int.from_bytes(b, "little")\<close>.\<close>

definition to_bytes_le :: "nat \<Rightarrow> int \<Rightarrow> bytes result" where
  "to_bytes_le w n =
     (if n < 0 \<or> 2 ^ (8 * w) \<le> n then Inl PyOverflowError else Inr (le_bytes w (nat n)))"

definition int_from_le :: "bytes \<Rightarrow> int" where
  "int_from_le bs = int (from_le bs)"

text \<open>The same with \<open>signed=True\<close>: two's complement.\<close>

definition to_bytes_le_signed :: "nat \<Rightarrow> int \<Rightarrow> bytes result" where
  "to_bytes_le_signed w n =
     (if n < - (2 ^ (8 * w - 1)) \<or> 2 ^ (8 * w - 1) \<le> n then Inl PyOverflowError
      else Inr (le_bytes w (nat (n mod 2 ^ (8 * w)))))"

definition int_from_le_signed :: "bytes \<Rightarrow> int" where
  "int_from_le_signed bs =
     (let v = int_from_le bs
      in if bs \<noteq> [] \<and> 2 ^ (8 * length bs - 1) \<le> v then v - 2 ^ (8 * length bs) else v)"

text \<open>And with \<open>"big"\<close>.\<close>

definition to_bytes_be :: "nat \<Rightarrow> int \<Rightarrow> bytes result" where
  "to_bytes_be w n = bindR (to_bytes_le w n) (\<lambda>bs. Inr (rev bs))"

definition int_from_be :: "bytes \<Rightarrow> int" where
  "int_from_be bs = int_from_le (rev bs)"

lemma int_from_le_bounds: "0 \<le> int_from_le bs" "int_from_le bs < 2 ^ (8 * length bs)"
proof -
  have "int (from_le bs) < int (256 ^ length bs)"
    using from_le_bound [of bs] by linarith
  then show "int_from_le bs < 2 ^ (8 * length bs)"
    by (simp add: int_from_le_def power_256)
qed (simp add: int_from_le_def)

lemma int_from_le_le_bytes: "0 \<le> n \<Longrightarrow> int_from_le (le_bytes w (nat n)) = n mod 2 ^ (8 * w)"
  by (simp add: int_from_le_def from_le_le_bytes power_256 zmod_int)

lemma to_bytes_le_Inr [result_simps]:
  "to_bytes_le w n = Inr bs \<longleftrightarrow> 0 \<le> n \<and> n < 2 ^ (8 * w) \<and> bs = le_bytes w (nat n)"
  by (auto simp: to_bytes_le_def)

lemma to_bytes_le_ok: "0 \<le> n \<Longrightarrow> n < 2 ^ (8 * w) \<Longrightarrow> to_bytes_le w n = Inr (le_bytes w (nat n))"
  by (simp add: to_bytes_le_def)

lemma from_to_bytes_le: "to_bytes_le w n = Inr bs \<Longrightarrow> int_from_le bs = n \<and> length bs = w"
  by (auto simp: to_bytes_le_Inr int_from_le_le_bytes)

lemma to_from_bytes_le: "to_bytes_le (length bs) (int_from_le bs) = Inr bs"
  using int_from_le_bounds [of bs] by (simp add: to_bytes_le_ok) (simp add: int_from_le_def)

lemma from_to_bytes_le_signed:
  assumes "to_bytes_le_signed w n = Inr bs" and "0 < w"
  shows "int_from_le_signed bs = n" and "length bs = w"
proof -
  let ?M = "(2::int) ^ (8 * w)" and ?H = "(2::int) ^ (8 * w - 1)"
  have dbl: "?M = 2 * ?H"
    using assms(2) by (simp add: power_Suc [symmetric] Suc_diff_Suc flip: power_Suc)
  have range: "- ?H \<le> n" "n < ?H" and bs: "bs = le_bytes w (nat (n mod ?M))"
    using assms(1) by (auto simp: to_bytes_le_signed_def split: if_splits)
  from bs show len: "length bs = w" by simp
  with assms(2) have ne: "bs \<noteq> []" by auto
  have v: "int_from_le bs = n mod ?M"
    by (simp add: bs int_from_le_le_bytes)
  show "int_from_le_signed bs = n"
  proof (cases "0 \<le> n")
    case True
    with range dbl have "n mod ?M = n" by simp
    with True range show ?thesis by (simp add: int_from_le_signed_def v len Let_def)
  next
    case False
    have "n mod ?M = (n + ?M) mod ?M" by simp
    also have "\<dots> = n + ?M" using False range dbl by (intro mod_pos_pos_trivial) auto
    finally show ?thesis
      using False range dbl ne by (simp add: int_from_le_signed_def v len Let_def)
  qed
qed

lemma from_to_bytes_be: "to_bytes_be w n = Inr bs \<Longrightarrow> int_from_be bs = n \<and> length bs = w"
  by (auto simp: to_bytes_be_def int_from_be_def bindR_eq_Inr dest!: from_to_bytes_le)

section \<open>Byte streams\<close>

text \<open>\<open>buf.read(n)\<close> returns up to \<open>n\<close> bytes and moves past them.\<close>

definition buf_read :: "nat \<Rightarrow> bytes \<Rightarrow> bytes \<times> bytes" where
  "buf_read n buf = (take n buf, drop n buf)"

lemma buf_read_append: "length xs = n \<Longrightarrow> buf_read n (xs @ rest) = (xs, rest)"
  by (simp add: buf_read_def)

text \<open>\<open>[parse(buf) for _ in range(n)]\<close>\<close>

fun parse_n :: "(bytes \<Rightarrow> ('a \<times> bytes) result) \<Rightarrow> nat \<Rightarrow> bytes \<Rightarrow> ('a list \<times> bytes) result" where
  "parse_n p 0 buf = Inr ([], buf)"
| "parse_n p (Suc n) buf =
     bindR (p buf) (\<lambda>(x, buf'). bindR (parse_n p n buf') (\<lambda>(xs, buf''). Inr (x # xs, buf'')))"

text \<open>\<open>for v in items: out += v.serialise()\<close>\<close>

definition encode_all :: "('a \<Rightarrow> bytes result) \<Rightarrow> 'a list \<Rightarrow> bytes result" where
  "encode_all enc xs = foldR (\<lambda>out x. bindR (enc x) (\<lambda>b. Inr (out @ b))) [] xs"

lemma encode_all_acc:
  "foldR (\<lambda>out x. bindR (enc x) (\<lambda>b. Inr (out @ b))) acc xs =
     bindR (mapR enc xs) (\<lambda>bs. Inr (acc @ concat bs))"
  by (induction xs arbitrary: acc) (simp_all add: bindR_assoc)

lemma encode_all_eq: "encode_all enc xs = bindR (mapR enc xs) (\<lambda>bs. Inr (concat bs))"
  by (simp add: encode_all_def encode_all_acc)

lemma encode_all_simps [simp]:
  "encode_all enc [] = Inr []"
  "encode_all enc (x # xs) = bindR (enc x) (\<lambda>b. bindR (encode_all enc xs) (\<lambda>bs. Inr (b @ bs)))"
  by (simp_all add: encode_all_eq bindR_assoc)

section \<open>The codec interface\<close>

text \<open>A serialiser and the parser that undoes it on every valid item, whatever follows.\<close>

locale codec =
  fixes enc :: "'a \<Rightarrow> bytes result"
    and dec :: "bytes \<Rightarrow> ('a \<times> bytes) result"
    and valid :: "'a \<Rightarrow> bool"
  assumes enc_ok: "valid x \<Longrightarrow> \<exists>bs. enc x = Inr bs"
    and dec_enc: "valid x \<Longrightarrow> enc x = Inr bs \<Longrightarrow> dec (bs @ rest) = Inr (x, rest)"
begin

lemma dec_enc_exact: "valid x \<Longrightarrow> enc x = Inr bs \<Longrightarrow> dec bs = Inr (x, [])"
  using dec_enc [of x bs "[]"] by simp

lemma enc_injective:
  assumes "valid x" and "valid y" and "enc x = Inr bs" and "enc y = Inr bs"
  shows "x = y"
  using dec_enc_exact [OF assms(1,3)] dec_enc_exact [OF assms(2,4)] by simp

text \<open>No encoding is a proper prefix of another.\<close>

lemma enc_prefix_free:
  assumes "valid x" and "valid y" and "enc x = Inr bs" and "enc y = Inr (bs @ more)"
  shows "more = []"
  using dec_enc [OF assms(1,3)] dec_enc_exact [OF assms(2,4)] by simp

lemma encode_all_ok: "(\<And>x. x \<in> set xs \<Longrightarrow> valid x) \<Longrightarrow> \<exists>bs. encode_all enc xs = Inr bs"
proof (induction xs)
  case (Cons x xs)
  then obtain b bs where "enc x = Inr b" and "encode_all enc xs = Inr bs"
    using enc_ok [of x] by auto
  then show ?case by simp
qed simp

lemma parse_n_encode_all:
  assumes "\<And>x. x \<in> set xs \<Longrightarrow> valid x" and "encode_all enc xs = Inr bs"
  shows "parse_n dec (length xs) (bs @ rest) = Inr (xs, rest)"
  using assms
proof (induction xs arbitrary: bs)
  case (Cons x xs)
  from Cons.prems(2) obtain b bs' where b: "enc x = Inr b" and bs': "encode_all enc xs = Inr bs'"
    and bs: "bs = b @ bs'" by (auto simp: bindR_eq_Inr)
  have "dec (b @ bs' @ rest) = Inr (x, bs' @ rest)"
    using Cons.prems(1) b by (intro dec_enc) auto
  moreover have "parse_n dec (length xs) (bs' @ rest) = Inr (xs, rest)"
    using Cons.prems(1) bs' by (intro Cons.IH) auto
  ultimately show ?case by (simp add: bs)
qed simp

end

text \<open>A codec whose items all take the same number of bytes.\<close>

locale fixed_codec = codec +
  fixes width :: nat
  assumes enc_width: "valid x \<Longrightarrow> enc x = Inr bs \<Longrightarrow> length bs = width"
begin

lemma encode_all_width:
  assumes "\<And>x. x \<in> set xs \<Longrightarrow> valid x" and "encode_all enc xs = Inr bs"
  shows "length bs = width * length xs"
  using assms
proof (induction xs arbitrary: bs)
  case (Cons x xs)
  then show ?case using enc_width [of x] by (auto simp: bindR_eq_Inr)
qed simp

end

end
