(* ===== verification/Bitcoinx.thy ===== *)
theory Bitcoinx
  imports Channel_Accounting Py_Bytes
begin

text \<open>
  What the sources use of the third-party package \<open>bitcoinx\<close> and of the hash functions.

  Transactions, inputs, outputs, scripts and keys are passive data here: the records hold the
  constructor arguments the sources pass and the attributes they read.  A script is the sequence
  of the operands given to \<open><<\<close>, each an opcode or a byte string to push.  Every operation whose
  code is not part of the repository (hashing, signing, serialising a transaction, the script
  interpreter) is a field of the record \<open>externals\<close>, which every definition that needs one takes
  as its first argument.  Nothing is assumed of the fields; a lemma that relies on documented
  behaviour (an interpreter that accepts a correctly signed spend, a parser that undoes the
  serialiser) names it as a hypothesis.
\<close>

section \<open>Passive data\<close>

text \<open>Opcodes by name; the small-integer opcodes are known by their value, 0x00 for \<open>OP_0\<close> and
  0x51 to 0x60 for \<open>OP_1\<close> to \<open>OP_16\<close>.\<close>

datatype ops =
    OP_SMALL int
  | OP_IF | OP_ELSE | OP_ENDIF
  | OP_DUP | OP_HASH160 | OP_EQUALVERIFY | OP_CHECKSIG | OP_CHECKMULTISIG
  | OP_RETURN
  | OP_CHECKLOCKTIMEVERIFY | OP_CHECKSEQUENCEVERIFY

abbreviation OP_0 :: ops where "OP_0 \<equiv> OP_SMALL 0"
abbreviation OP_1 :: ops where "OP_1 \<equiv> OP_SMALL 0x51"
abbreviation OP_TRUE :: ops where "OP_TRUE \<equiv> OP_1"

datatype script_item = Op ops | Push bytes

type_synonym script = "script_item list"

datatype privkey = PrivateKey bytes
datatype pubkey = PublicKey bytes

fun sk_to_bytes :: "privkey \<Rightarrow> bytes" where
  "sk_to_bytes (PrivateKey b) = b"

fun pk_to_bytes :: "pubkey \<Rightarrow> bytes" where
  "pk_to_bytes (PublicKey b) = b"

record txinput =
  prev_hash :: bytes
  prev_idx :: int
  script_sig :: script
  sequence :: int

record txoutput =
  out_value :: int
  script_pubkey :: script

record tx =
  tx_version :: int
  tx_inputs :: "txinput list"
  tx_outputs :: "txoutput list"
  tx_locktime :: int

definition TxInput :: "bytes \<Rightarrow> int \<Rightarrow> script \<Rightarrow> int \<Rightarrow> txinput" where
  "TxInput h i s q = \<lparr>prev_hash = h, prev_idx = i, script_sig = s, sequence = q\<rparr>"

definition TxOutput :: "int \<Rightarrow> script \<Rightarrow> txoutput" where
  "TxOutput v s = \<lparr>out_value = v, script_pubkey = s\<rparr>"

definition Tx :: "int \<Rightarrow> txinput list \<Rightarrow> txoutput list \<Rightarrow> int \<Rightarrow> tx" where
  "Tx v ins outs l = \<lparr>tx_version = v, tx_inputs = ins, tx_outputs = outs, tx_locktime = l\<rparr>"

lemma TxInput_sel [simp]:
  "prev_hash (TxInput h i s q) = h" "prev_idx (TxInput h i s q) = i"
  "script_sig (TxInput h i s q) = s" "sequence (TxInput h i s q) = q"
  by (simp_all add: TxInput_def)

lemma TxOutput_sel [simp]:
  "out_value (TxOutput v s) = v" "script_pubkey (TxOutput v s) = s"
  by (simp_all add: TxOutput_def)

lemma TxOutput_eq [simp]: "TxOutput v s = TxOutput v' s' \<longleftrightarrow> v = v' \<and> s = s'"
  by (simp add: TxOutput_def)

lemma Tx_sel [simp]:
  "tx_version (Tx v ins outs l) = v" "tx_inputs (Tx v ins outs l) = ins"
  "tx_outputs (Tx v ins outs l) = outs" "tx_locktime (Tx v ins outs l) = l"
  by (simp_all add: Tx_def)

text \<open>The outpoint an input spends, and what a transaction pays in total.\<close>

type_synonym outpoint = "bytes \<times> int"

definition outpoint_of :: "txinput \<Rightarrow> outpoint" where
  "outpoint_of i = (prev_hash i, prev_idx i)"

lemma outpoint_of_TxInput [simp]: "outpoint_of (TxInput h i s q) = (h, i)"
  by (simp add: outpoint_of_def)

definition outputs_total :: "txoutput list \<Rightarrow> int" where
  "outputs_total outs = sum_list (map out_value outs)"

lemma outputs_total_simps [simp]:
  "outputs_total [] = 0"
  "outputs_total (x # xs) = out_value x + outputs_total xs"
  "outputs_total (xs @ ys) = outputs_total xs + outputs_total ys"
  by (simp_all add: outputs_total_def)

text \<open>\<open>tx.inputs[i] = TxInput(prev, idx, sig, seq)\<close> with the previous point and sequence kept.\<close>

definition set_script_sig :: "tx \<Rightarrow> nat \<Rightarrow> script \<Rightarrow> tx" where
  "set_script_sig t i s =
     t\<lparr>tx_inputs := (tx_inputs t)[i := TxInput (prev_hash (tx_inputs t ! i))
        (prev_idx (tx_inputs t ! i)) s (sequence (tx_inputs t ! i))]\<rparr>"

lemma set_script_sig_sel [simp]:
  "tx_version (set_script_sig t i s) = tx_version t"
  "tx_outputs (set_script_sig t i s) = tx_outputs t"
  "tx_locktime (set_script_sig t i s) = tx_locktime t"
  "length (tx_inputs (set_script_sig t i s)) = length (tx_inputs t)"
  by (simp_all add: set_script_sig_def)

lemma set_script_sig_outpoints [simp]:
  "map outpoint_of (tx_inputs (set_script_sig t i s)) = map outpoint_of (tx_inputs t)"
  by (cases "i < length (tx_inputs t)")
     (simp_all add: set_script_sig_def map_update list_update_beyond list_update_same_conv
        outpoint_of_def)

lemma set_script_sig_sequences [simp]:
  "map sequence (tx_inputs (set_script_sig t i s)) = map sequence (tx_inputs t)"
  by (cases "i < length (tx_inputs t)")
     (simp_all add: set_script_sig_def map_update list_update_beyond list_update_same_conv)

text \<open>Everything of a transaction but its unlocking scripts: what signing leaves alone.\<close>

definition unsigned_view :: "tx \<Rightarrow> int \<times> outpoint list \<times> int list \<times> txoutput list \<times> int" where
  "unsigned_view t =
     (tx_version t, map outpoint_of (tx_inputs t), map sequence (tx_inputs t), tx_outputs t,
      tx_locktime t)"

lemma unsigned_view_set_script_sig [simp]: "unsigned_view (set_script_sig t i s) = unsigned_view t"
  by (simp add: unsigned_view_def)

lemma unsigned_viewD:
  assumes "unsigned_view t = unsigned_view t'"
  shows "tx_version t = tx_version t'" "tx_outputs t = tx_outputs t'"
    "tx_locktime t = tx_locktime t'" "length (tx_inputs t) = length (tx_inputs t')"
    "map outpoint_of (tx_inputs t) = map outpoint_of (tx_inputs t')"
    "map sequence (tx_inputs t) = map sequence (tx_inputs t')"
  using assms by (auto simp: unsigned_view_def dest: map_eq_imp_length_eq)

section \<open>The externals\<close>

record externals =
  x_txid :: "tx \<Rightarrow> bytes"
  x_is_coinbase :: "tx \<Rightarrow> bool"
  x_tx_size :: "tx \<Rightarrow> int"
  x_tx_bytes :: "tx \<Rightarrow> bytes"
  x_tx_read :: "bytes \<Rightarrow> (tx \<times> bytes) result"
  x_signature_hash :: "tx \<Rightarrow> nat \<Rightarrow> int \<Rightarrow> script \<Rightarrow> int \<Rightarrow> bytes"
  x_sign :: "privkey \<Rightarrow> bytes \<Rightarrow> bytes"
  x_public_key :: "privkey \<Rightarrow> pubkey"
  x_verify_with :: "interpreter_limits \<Rightarrow> bool \<Rightarrow> tx \<Rightarrow> nat \<Rightarrow> txoutput \<Rightarrow> bool result"
  x_p2pkh :: "pubkey \<Rightarrow> script"
  x_script_bytes :: "script \<Rightarrow> bytes"
  x_script_of_bytes :: "bytes \<Rightarrow> script"
  x_hash160 :: "bytes \<Rightarrow> bytes"
  x_sha256 :: "bytes \<Rightarrow> bytes"
  x_tx_to_hex :: "tx \<Rightarrow> string"
  x_tx_from_hex :: "string \<Rightarrow> tx result"
  x_private_key :: "bytes \<Rightarrow> privkey result"
  x_public_key_from_hex :: "string \<Rightarrow> pubkey result"

text \<open>\<open>TxInputContext(tx, i, utxo).verify_input(limits, is_utxo_after_genesis=True)\<close>\<close>

abbreviation x_verify_input :: "externals \<Rightarrow> tx \<Rightarrow> nat \<Rightarrow> txoutput \<Rightarrow> bool result" where
  "x_verify_input x \<equiv> x_verify_with x make_interpreter_limits True"

section \<open>Signing and verifying\<close>

text \<open>\<open>signing.py\<close>: the DER signature followed by the sighash byte.\<close>

definition sign_input :: "externals \<Rightarrow> tx \<Rightarrow> nat \<Rightarrow> int \<Rightarrow> script \<Rightarrow> privkey \<Rightarrow> bytes" where
  "sign_input x t i utxo_value script_code priv =
     x_sign x priv (x_signature_hash x t i utxo_value script_code SIGHASH_ALL_FORKID)
       @ [word_of_int SIGHASH_ALL_FORKID]"

text \<open>\<open>verify.py\<close>: the interpreter's verdict, a refusal raised as an exception.\<close>

definition verify_spend :: "externals \<Rightarrow> tx \<Rightarrow> nat \<Rightarrow> txoutput \<Rightarrow> bool result" where
  "verify_spend x t i utxo =
     bindR (x_verify_input x t i utxo) (\<lambda>ok. if \<not> ok then raise VerificationError else return True)"

definition spend_verifies :: "externals \<Rightarrow> tx \<Rightarrow> nat \<Rightarrow> txoutput \<Rightarrow> bool" where
  "spend_verifies x t i utxo = (case verify_spend x t i utxo of Inl _ \<Rightarrow> False | Inr b \<Rightarrow> b)"

definition verify_all_inputs :: "externals \<Rightarrow> tx \<Rightarrow> txoutput list \<Rightarrow> bool result" where
  "verify_all_inputs x t utxos =
     (if length utxos \<noteq> length (tx_inputs t) then raise VerificationError
      else bindR (check_all (\<lambda>(i, utxo). bindR (verify_spend x t i utxo) (\<lambda>_. return ()))
             (List.enumerate 0 utxos)) (\<lambda>_. return True))"

lemma verify_spend_Inr [result_simps]:
  "verify_spend x t i u = Inr b \<longleftrightarrow> x_verify_input x t i u = Inr True \<and> b"
  by (auto simp: verify_spend_def result_simps split: if_splits)

lemma spend_verifies_iff: "spend_verifies x t i u \<longleftrightarrow> x_verify_input x t i u = Inr True"
  by (auto simp: spend_verifies_def verify_spend_def bindR_def split: sum.splits)

lemma verify_all_inputs_Inr [result_simps]:
  "verify_all_inputs x t utxos = Inr b \<longleftrightarrow>
     b \<and> length utxos = length (tx_inputs t) \<and>
     (\<forall>i < length utxos. x_verify_input x t i (utxos ! i) = Inr True)"
  by (auto simp: verify_all_inputs_def result_simps ball_enumerate split: if_splits)

end
