(* ===== verification/Channel_Scripts.thy ===== *)
theory Channel_Scripts
  imports Bitcoinx
begin

text \<open>
  \<open>scripts.py\<close>: small-integer opcodes, the minimal script-number encoding, and the locking and
  unlocking scripts of the protocol; \<open>keymgmt.py\<close>: the key book.
\<close>

unbundle bit_operations_syntax

section \<open>Opcode helpers\<close>

definition op_n :: "int \<Rightarrow> ops result" where
  "op_n n =
     (if n = 0 then return OP_0
      else if \<not> (1 \<le> n \<and> n \<le> 16) then raise ScriptBuildError
      else return (OP_SMALL (0x51 + n - 1)))"

text \<open>The loop of \<open>_encode_script_num\<close> that writes the magnitude, least significant byte first.\<close>

fun magnitude_bytes :: "nat \<Rightarrow> bytes" where
  "magnitude_bytes n = (if n = 0 then [] else word_of_nat n # magnitude_bytes (n div 256))"

declare magnitude_bytes.simps [simp del]

definition encode_script_num :: "int \<Rightarrow> bytes" where
  "encode_script_num n =
     (if n = 0 then []
      else
        let out = magnitude_bytes (nat \<bar>n\<bar>)
        in if last out AND 0x80 \<noteq> 0 then out @ [if n < 0 then 0x80 else 0]
           else if n < 0 then butlast out @ [last out OR 0x80]
           else out)"

definition push_count :: "script \<Rightarrow> int \<Rightarrow> script result" where
  "push_count s n =
     (if 0 \<le> n \<and> n \<le> 16 then bindR (op_n n) (\<lambda>p. return (s @ [Op p]))
      else return (s @ [Push (encode_script_num n)]))"

section \<open>Locking and unlocking scripts\<close>

definition push_keys :: "script \<Rightarrow> pubkey list \<Rightarrow> script" where
  "push_keys s pks = fold (\<lambda>pk s. s @ [Push (pk_to_bytes pk)]) pks s"

definition push_sigs :: "script \<Rightarrow> bytes list \<Rightarrow> script" where
  "push_sigs s sigs = fold (\<lambda>sig s. s @ [Push sig]) sigs s"

definition channel_funding_script :: "pubkey list \<Rightarrow> script result" where
  "channel_funding_script pubkeys =
     (let n = int (length pubkeys)
      in if n < 1 then raise ScriptBuildError
         else bindR (push_count [] n) (\<lambda>s.
           bindR (push_count (push_keys s pubkeys) n) (\<lambda>s'.
             return (s' @ [Op OP_CHECKMULTISIG]))))"

definition channel_funding_unlock :: "bytes list \<Rightarrow> script result" where
  "channel_funding_unlock signatures =
     (if signatures = [] then raise ScriptBuildError
      else return (push_sigs [Op OP_0] signatures))"

definition hop_script :: "bytes \<Rightarrow> pubkey \<Rightarrow> pubkey \<Rightarrow> script result" where
  "hop_script image_h160 payee_pk payer_pk =
     (if length image_h160 \<noteq> 20 then raise ScriptBuildError
      else return
        [Op OP_IF,
           Op OP_HASH160, Push image_h160, Op OP_EQUALVERIFY,
           Push (pk_to_bytes payee_pk), Op OP_CHECKSIG,
         Op OP_ELSE,
           Push (pk_to_bytes payer_pk), Op OP_CHECKSIG,
         Op OP_ENDIF])"

definition hop_claim_unlock :: "bytes \<Rightarrow> bytes \<Rightarrow> script" where
  "hop_claim_unlock payee_sig preimage = [Push payee_sig, Push preimage, Op OP_1]"

definition hop_return_unlock :: "bytes \<Rightarrow> script" where
  "hop_return_unlock payer_sig = [Push payer_sig, Op OP_0]"

definition p2pkh_script :: "externals \<Rightarrow> pubkey \<Rightarrow> script" where
  "p2pkh_script x pk = x_p2pkh x pk"

definition p2pkh_unlock :: "bytes \<Rightarrow> pubkey \<Rightarrow> script" where
  "p2pkh_unlock sig pk = [Push sig, Push (pk_to_bytes pk)]"

definition bond_script :: "pubkey \<Rightarrow> pubkey list \<Rightarrow> script result" where
  "bond_script owner_pk counterparty_pks =
     (let m = int (length counterparty_pks)
      in if m < 1 then raise ScriptBuildError
         else bindR (push_count
             [Op OP_IF, Push (pk_to_bytes owner_pk), Op OP_CHECKSIG, Op OP_ELSE] m) (\<lambda>s.
           bindR (push_count (push_keys s counterparty_pks) m) (\<lambda>s'.
             return (s' @ [Op OP_CHECKMULTISIG, Op OP_ENDIF]))))"

definition bond_return_unlock :: "bytes \<Rightarrow> script" where
  "bond_return_unlock owner_sig = [Push owner_sig, Op OP_1]"

definition bond_forfeit_unlock :: "bytes list \<Rightarrow> script result" where
  "bond_forfeit_unlock counterparty_sigs =
     (if counterparty_sigs = [] then raise ScriptBuildError
      else return (push_sigs [Op OP_0] counterparty_sigs @ [Op OP_0]))"

section \<open>The key book\<close>

record keybook =
  keys :: "privkey list"

definition kb_n :: "keybook \<Rightarrow> int" where
  "kb_n kb = int (length (keys kb))"

definition public_keys :: "externals \<Rightarrow> keybook \<Rightarrow> pubkey list" where
  "public_keys x kb = map (x_public_key x) (keys kb)"

definition kb_private :: "keybook \<Rightarrow> int \<Rightarrow> privkey result" where
  "kb_private kb index =
     (if \<not> (0 \<le> index \<and> index < kb_n kb) then raise KeyReplacementError
      else py_nth (keys kb) index)"

definition kb_public :: "externals \<Rightarrow> keybook \<Rightarrow> int \<Rightarrow> pubkey result" where
  "kb_public x kb index = bindR (kb_private kb index) (\<lambda>k. return (x_public_key x k))"

definition replace_key :: "keybook \<Rightarrow> int \<Rightarrow> privkey \<Rightarrow> keybook result" where
  "replace_key kb index new_priv =
     (if \<not> (0 \<le> index \<and> index < kb_n kb) then raise KeyReplacementError
      else bindR (py_set (keys kb) index new_priv) (\<lambda>ks. return (kb\<lparr>keys := ks\<rparr>)))"

definition kb_copy :: "keybook \<Rightarrow> keybook" where
  "kb_copy kb = \<lparr>keys = keys kb\<rparr>"

lemma kb_copy_id [simp]: "kb_copy kb = kb"
  by (simp add: kb_copy_def)

lemma kb_private_in_range [simp]:
  "0 \<le> i \<Longrightarrow> i < kb_n kb \<Longrightarrow> kb_private kb i = Inr (keys kb ! nat i)"
  by (simp add: kb_private_def kb_n_def)

lemma kb_public_in_range [simp]:
  "0 \<le> i \<Longrightarrow> i < kb_n kb \<Longrightarrow> kb_public x kb i = Inr (x_public_key x (keys kb ! nat i))"
  by (simp add: kb_public_def)

lemma private_out_of_range: "\<not> (0 \<le> i \<and> i < kb_n kb) \<Longrightarrow> kb_private kb i = Inl KeyReplacementError"
  by (simp add: kb_private_def)

lemma replace_key_Inr:
  "replace_key kb i k = Inr kb' \<longleftrightarrow>
     0 \<le> i \<and> i < kb_n kb \<and> kb' = kb\<lparr>keys := (keys kb)[nat i := k]\<rparr>"
  by (auto simp: replace_key_def kb_n_def)

section \<open>Script numbers\<close>

text \<open>What the interpreter reads back: little-endian magnitude, the top bit is the sign.\<close>

definition script_num_value :: "bytes \<Rightarrow> int" where
  "script_num_value bs =
     (if bs = [] then 0
      else let m = int (from_le (butlast bs @ [last bs AND 0x7F]))
           in if last bs AND 0x80 \<noteq> 0 then - m else m)"

lemma magnitude_bytes_Nil [simp]: "magnitude_bytes n = [] \<longleftrightarrow> n = 0"
  by (subst magnitude_bytes.simps) simp

lemma from_le_magnitude: "from_le (magnitude_bytes n) = n"
proof (induction n rule: magnitude_bytes.induct)
  case (1 n)
  show ?case
  proof (cases "n = 0")
    case False
    with 1 show ?thesis
      by (subst magnitude_bytes.simps) (simp add: unat_byte_of_nat)
  qed (simp add: magnitude_bytes.simps)
qed

lemma last_magnitude_nonzero: "0 < n \<Longrightarrow> last (magnitude_bytes n) \<noteq> 0"
proof (induction n rule: magnitude_bytes.induct)
  case (1 n)
  show ?case
  proof (cases "n div 256 = 0")
    case True
    then have "n < 256" by simp
    with 1 True show ?thesis
      by (subst magnitude_bytes.simps) (simp add: word_unat_eq_iff unat_byte_of_nat)
  next
    case False
    with 1 show ?thesis by (subst magnitude_bytes.simps) simp
  qed
qed

text \<open>The sign bit of a byte, read and set.\<close>

lemma byte_split: "b = (b AND 0x7F) OR (b AND 0x80)" for b :: byte
proof (rule bit_eqI)
  fix n
  show "bit b n \<longleftrightarrow> bit ((b AND 0x7F) OR (b AND 0x80)) n"
    by (cases "n < 8") (auto simp: bit_simps less_Suc_eq numeral_eq_Suc dest: bit_imp_le_length)
qed

lemma low7_of_clear: "b AND 0x80 = 0 \<Longrightarrow> b AND 0x7F = b" for b :: byte
  using byte_split [of b] by simp

lemma low7_set_sign: "b AND 0x80 = 0 \<Longrightarrow> (b OR 0x80) AND 0x7F = b" for b :: byte
  by (simp add: bit.conj_disj_distrib2 low7_of_clear)

lemma sign_set: "(b OR 0x80) AND 0x80 \<noteq> (0 :: byte)"
proof -
  have "bit ((b OR 0x80) AND 0x80) 7" by (simp add: bit_simps)
  then show ?thesis by force
qed

lemma script_num_roundtrip: "script_num_value (encode_script_num n) = n"
proof (cases "n = 0")
  case False
  let ?out = "magnitude_bytes (nat \<bar>n\<bar>)"
  have ne: "?out \<noteq> []" and val: "int (from_le ?out) = \<bar>n\<bar>"
    using False by (simp_all add: from_le_magnitude)
  have out: "butlast ?out @ [last ?out] = ?out" using ne by simp
  consider (carry) "last ?out AND 0x80 \<noteq> 0" | (neg) "last ?out AND 0x80 = 0" "n < 0"
    | (pos) "last ?out AND 0x80 = 0" "0 < n" using False by linarith
  then show ?thesis
  proof cases
    case carry
    then show ?thesis using False val
      by (auto simp: encode_script_num_def script_num_value_def Let_def from_le_append)
  next
    case neg
    then show ?thesis using False val out
      by (simp add: encode_script_num_def script_num_value_def Let_def low7_set_sign sign_set)
  next
    case pos
    then show ?thesis using val out ne
      by (simp add: encode_script_num_def script_num_value_def Let_def low7_of_clear)
  qed
qed (simp add: encode_script_num_def script_num_value_def)

text \<open>Minimality: the last byte carries more than the sign unless the byte before needs its
  top bit.\<close>

definition minimal_script_num :: "bytes \<Rightarrow> bool" where
  "minimal_script_num bs \<longleftrightarrow>
     bs = [] \<or> last bs AND 0x7F \<noteq> 0 \<or>
     (1 < length bs \<and> last (butlast bs) AND 0x80 \<noteq> 0)"

lemma minimal_script_numI:
  assumes "bs \<noteq> []" and "last bs \<noteq> 0"
  shows "last bs AND 0x80 \<noteq> 0 \<Longrightarrow> minimal_script_num (bs @ [b])"
    and "last bs AND 0x80 = 0 \<Longrightarrow> minimal_script_num (butlast bs @ [last bs OR 0x80])"
    and "last bs AND 0x80 = 0 \<Longrightarrow> minimal_script_num bs"
  using assms by (simp_all add: minimal_script_num_def low7_set_sign low7_of_clear Suc_lessI)

lemma encode_script_num_minimal: "minimal_script_num (encode_script_num n)"
proof (cases "n = 0")
  case False
  then have "magnitude_bytes (nat \<bar>n\<bar>) \<noteq> []" and "last (magnitude_bytes (nat \<bar>n\<bar>)) \<noteq> 0"
    using last_magnitude_nonzero [of "nat \<bar>n\<bar>"] by auto
  note m = minimal_script_numI [OF this]
  show ?thesis
    using False m unfolding encode_script_num_def Let_def
    by (cases "n < 0"; cases "last (magnitude_bytes (nat \<bar>n\<bar>)) AND 0x80 = 0") simp_all
qed (simp add: encode_script_num_def minimal_script_num_def)

lemma encode_script_num_inj: "encode_script_num m = encode_script_num n \<Longrightarrow> m = n"
  by (metis script_num_roundtrip)

section \<open>What the scripts are made of\<close>

definition timelock_op :: "ops \<Rightarrow> bool" where
  "timelock_op p \<longleftrightarrow> p = OP_CHECKLOCKTIMEVERIFY \<or> p = OP_CHECKSEQUENCEVERIFY"

definition documented_op :: "ops \<Rightarrow> bool" where
  "documented_op p \<longleftrightarrow>
     p \<in> {OP_HASH160, OP_EQUALVERIFY, OP_CHECKSIG, OP_DUP, OP_IF, OP_ELSE, OP_ENDIF,
          OP_CHECKMULTISIG} \<or> (\<exists>v. p = OP_SMALL v \<and> (v = 0 \<or> (0x51 \<le> v \<and> v \<le> 0x60)))"

definition script_ops :: "script \<Rightarrow> ops list" where
  "script_ops s = List.map_filter (\<lambda>it. case it of Op p \<Rightarrow> Some p | Push _ \<Rightarrow> None) s"

lemma script_ops_simps [simp]:
  "script_ops [] = []"
  "script_ops (Op p # s) = p # script_ops s"
  "script_ops (Push b # s) = script_ops s"
  "script_ops (s @ s') = script_ops s @ script_ops s'"
  by (simp_all add: script_ops_def List.map_filter_def)

lemma documented_not_timelock: "documented_op p \<Longrightarrow> \<not> timelock_op p"
  by (auto simp: documented_op_def timelock_op_def)

lemma documented_simps [simp]:
  "documented_op OP_HASH160" "documented_op OP_EQUALVERIFY" "documented_op OP_CHECKSIG"
  "documented_op OP_IF" "documented_op OP_ELSE" "documented_op OP_ENDIF"
  "documented_op OP_CHECKMULTISIG" "documented_op OP_0" "documented_op OP_1"
  by (simp_all add: documented_op_def)

lemma push_keys_eq: "push_keys s pks = s @ map (\<lambda>pk. Push (pk_to_bytes pk)) pks"
  by (induction pks arbitrary: s) (simp_all add: push_keys_def)

lemma push_sigs_eq: "push_sigs s sigs = s @ map Push sigs"
  by (induction sigs arbitrary: s) (simp_all add: push_sigs_def)

lemma script_ops_map_Push [simp]: "script_ops (map (\<lambda>v. Push (f v)) xs) = []"
  by (induction xs) simp_all

lemma op_n_Inr [result_simps]:
  "op_n n = Inr p \<longleftrightarrow> 0 \<le> n \<and> n \<le> 16 \<and> p = OP_SMALL (if n = 0 then 0 else 0x50 + n)"
  by (auto simp: op_n_def)

text \<open>The item \<open>push_count\<close> appends.\<close>

definition count_item :: "int \<Rightarrow> script_item" where
  "count_item n =
     (if 0 \<le> n \<and> n \<le> 16 then Op (OP_SMALL (if n = 0 then 0 else 0x50 + n))
      else Push (encode_script_num n))"

lemma push_count_eq: "push_count s n = Inr (s @ [count_item n])"
  by (auto simp: push_count_def count_item_def op_n_def)

lemma count_item_ops: "\<forall>p \<in> set (script_ops [count_item n]). documented_op p"
  by (auto simp: count_item_def documented_op_def)

lemma count_item_inj: "count_item m = count_item n \<Longrightarrow> m = n"
  by (auto simp: count_item_def split: if_splits dest: encode_script_num_inj)

lemma channel_funding_script_eq:
  "pks \<noteq> [] \<Longrightarrow> channel_funding_script pks =
     Inr (count_item (int (length pks)) # map (\<lambda>pk. Push (pk_to_bytes pk)) pks @
          [count_item (int (length pks)), Op OP_CHECKMULTISIG])"
  by (cases pks) (simp_all add: channel_funding_script_def push_count_eq push_keys_eq Let_def)

lemma bond_script_eq:
  "cps \<noteq> [] \<Longrightarrow> bond_script owner cps =
     Inr ([Op OP_IF, Push (pk_to_bytes owner), Op OP_CHECKSIG, Op OP_ELSE,
           count_item (int (length cps))] @ map (\<lambda>pk. Push (pk_to_bytes pk)) cps @
          [count_item (int (length cps)), Op OP_CHECKMULTISIG, Op OP_ENDIF])"
  by (cases cps) (simp_all add: bond_script_def push_count_eq push_keys_eq Let_def)

lemma channel_funding_script_Nil: "channel_funding_script [] = Inl ScriptBuildError"
  by (simp add: channel_funding_script_def)

lemma bond_script_Nil: "bond_script owner [] = Inl ScriptBuildError"
  by (simp add: bond_script_def)

end
