(* ===== verification/Channel_Lifecycle.thy ===== *)
theory Channel_Lifecycle
  imports Channel_Scripts
begin

text \<open>
  \<open>bond.py\<close> and \<open>lifecycle.py\<close>: bond outputs, the channel object, and the transactions of its
  life: the funding transaction, the off-chain state transactions, the cooperative close, the
  forfeiture of an offender's bond, and the refresh into a successor.  A method that assigns to
  \<open>self\<close> returns the updated channel.  Divisions by \<open>k\<close> and by the number of honest parties are
  total here: both are at least one in every configuration that was built.
\<close>

section \<open>Bonds\<close>

record bond_output =
  owner_index :: int
  bond_value :: int
  bond_funding_txid :: bytes
  bond_vout :: int
  bond_locking_script :: script

definition bond_utxo :: "bond_output \<Rightarrow> txoutput" where
  "bond_utxo b = TxOutput (bond_value b) (bond_locking_script b)"

definition make_bond_script_for :: "pubkey \<Rightarrow> pubkey list \<Rightarrow> script result" where
  "make_bond_script_for owner counterparties =
     (if counterparties = [] then raise ScriptBuildError else bond_script owner counterparties)"

definition sign_bond_return ::
  "externals \<Rightarrow> tx \<Rightarrow> nat \<Rightarrow> bond_output \<Rightarrow> privkey \<Rightarrow> script result" where
  "sign_bond_return x t input_index bond owner_priv =
     bindR (ensure_whole_satoshi (PyInt (bond_value bond))) (\<lambda>_.
       return (bond_return_unlock
         (sign_input x t input_index (bond_value bond) (bond_locking_script bond) owner_priv)))"

definition sign_bond_forfeit ::
  "externals \<Rightarrow> tx \<Rightarrow> nat \<Rightarrow> bond_output \<Rightarrow> privkey list \<Rightarrow> script result" where
  "sign_bond_forfeit x t input_index bond counterparty_privs =
     (if counterparty_privs = [] then raise ScriptBuildError
      else bond_forfeit_unlock (map (\<lambda>p.
        sign_input x t input_index (bond_value bond) (bond_locking_script bond) p)
        counterparty_privs))"

section \<open>The channel object\<close>

definition sequence_for_version :: "int \<Rightarrow> int result" where
  "sequence_for_version ver =
     (if ver < 0 then raise StateError
      else if FINAL_SEQUENCE \<le> START_SEQUENCE + ver then raise StateError
      else return (START_SEQUENCE + ver))"

text \<open>\<open>[pubs[j] for j in range(cfg.n) if j != i]\<close>\<close>

definition counterparty_keys :: "pubkey list \<Rightarrow> int \<Rightarrow> int \<Rightarrow> pubkey list result" where
  "counterparty_keys pubs n i = mapR (py_nth pubs) (filter (\<lambda>j. j \<noteq> i) (py_range n))"

definition build_channel_outputs ::
  "externals \<Rightarrow> config \<Rightarrow> keybook \<Rightarrow> txoutput list result" where
  "build_channel_outputs x cfg kb =
     (if kb_n kb \<noteq> cfg_n cfg then raise StateError
      else
        let pubs = public_keys x kb
        in bindR (channel_funding_script pubs) (\<lambda>fs.
           bindR (mapR (\<lambda>i.
               bindR (counterparty_keys pubs (cfg_n cfg) i) (\<lambda>cp.
               bindR (py_nth (cfg_bonds cfg) i) (\<lambda>b.
               bindR (py_nth pubs i) (\<lambda>pk.
               bindR (make_bond_script_for pk cp) (\<lambda>s.
                 return (TxOutput b s)))))) (py_range (cfg_n cfg))) (\<lambda>outs.
             return (TxOutput (cfg_S cfg) fs # outs))))"

record channel =
  ch_cfg :: config
  ch_keybook :: keybook
  ch_funding_tx :: tx
  ch_funding_utxos :: "txoutput list"
  ch_funding_confirmed :: bool
  ch_state :: state
  ch_bonds :: "bond_output list"

text \<open>The bond descriptors of a funding transaction (the loop \<open>_wrap_funding\<close>, \<open>dict_to_channel\<close>
  and \<open>recover_channel\<close> share).\<close>

definition bond_descriptors ::
  "externals \<Rightarrow> config \<Rightarrow> keybook \<Rightarrow> tx \<Rightarrow> bond_output list result" where
  "bond_descriptors x cfg kb funding_tx =
     (let pubs = public_keys x kb
      in mapR (\<lambda>i.
        bindR (counterparty_keys pubs (cfg_n cfg) i) (\<lambda>cp.
        bindR (py_nth pubs i) (\<lambda>pk.
        bindR (make_bond_script_for pk cp) (\<lambda>s.
        bindR (py_nth (cfg_bonds cfg) i) (\<lambda>b.
          return \<lparr>owner_index = i, bond_value = b, bond_funding_txid = x_txid x funding_tx,
                  bond_vout = 1 + i, bond_locking_script = s\<rparr>))))) (py_range (cfg_n cfg)))"

definition wrap_funding ::
  "externals \<Rightarrow> config \<Rightarrow> keybook \<Rightarrow> tx \<Rightarrow> txoutput list \<Rightarrow> channel result" where
  "wrap_funding x cfg kb funding_tx funding_utxos =
     (if kb_n kb \<noteq> cfg_n cfg then raise StateError
      else bindR (bond_descriptors x cfg kb funding_tx) (\<lambda>bonds.
        bindR (initial_state cfg 0) (\<lambda>st.
          return \<lparr>ch_cfg = cfg, ch_keybook = kb, ch_funding_tx = funding_tx,
                  ch_funding_utxos = funding_utxos, ch_funding_confirmed = False,
                  ch_state = st, ch_bonds = bonds\<rparr>)))"

definition default_parent :: outpoint where
  "default_parent = (replicate 32 0, 0)"

definition channel_open ::
  "externals \<Rightarrow> config \<Rightarrow> keybook \<Rightarrow> outpoint \<Rightarrow> int option \<Rightarrow> channel result" where
  "channel_open x cfg kb parent_outpoint parent_value =
     bindR (ensure_whole_satoshi (PyInt (cfg_S cfg + sum_list (cfg_bonds cfg)))) (\<lambda>total.
       let value = (case parent_value of None \<Rightarrow> total | Some v \<Rightarrow> v)
       in bindR (build_channel_outputs x cfg kb) (\<lambda>outputs.
            let (prev_h, prev_i) = parent_outpoint;
                funding_tx = Tx 1 [TxInput prev_h prev_i [] FINAL_SEQUENCE] outputs 0;
                funding_utxos = [TxOutput value [Op OP_TRUE]]
            in wrap_funding x cfg kb funding_tx funding_utxos))"

definition from_funding_tx ::
  "externals \<Rightarrow> config \<Rightarrow> keybook \<Rightarrow> tx \<Rightarrow> txoutput list \<Rightarrow> channel result" where
  "from_funding_tx x cfg kb funding_tx parent_utxos =
     bindR (build_channel_outputs x cfg kb) (\<lambda>expected.
       if int (length (tx_outputs funding_tx)) < 1 + cfg_n cfg then raise StateError
       else bindR (check_all (\<lambda>i.
           bindR (py_nth (tx_outputs funding_tx) i) (\<lambda>actual.
           bindR (py_nth expected i) (\<lambda>want.
             if out_value actual \<noteq> out_value want then raise StateError
             else if x_script_bytes x (script_pubkey actual) \<noteq> x_script_bytes x (script_pubkey want)
             then raise StateError
             else return ()))) (py_range (1 + cfg_n cfg))) (\<lambda>_.
         wrap_funding x cfg kb funding_tx parent_utxos))"

definition mark_confirmed :: "channel \<Rightarrow> channel" where
  "mark_confirmed ch = ch\<lparr>ch_funding_confirmed := True\<rparr>"

definition require_confirmed :: "channel \<Rightarrow> unit result" where
  "require_confirmed ch =
     (if \<not> ch_funding_confirmed ch then raise UnconfirmedFundingError else return ())"

definition channel_output_value :: "channel \<Rightarrow> int result" where
  "channel_output_value ch = bindR (py_nth (tx_outputs (ch_funding_tx ch)) 0) (\<lambda>out. return (out_value out))"

definition channel_locking_script :: "channel \<Rightarrow> script result" where
  "channel_locking_script ch =
     bindR (py_nth (tx_outputs (ch_funding_tx ch)) 0) (\<lambda>out. return (script_pubkey out))"

definition funding_txid :: "externals \<Rightarrow> channel \<Rightarrow> bytes" where
  "funding_txid x ch = x_txid x (ch_funding_tx ch)"

definition apply_transfer :: "channel \<Rightarrow> int \<Rightarrow> int \<Rightarrow> int \<Rightarrow> channel result" where
  "apply_transfer ch sender recipient delta =
     bindR (transfer (ch_state ch) sender recipient delta (ch_cfg ch)) (\<lambda>st.
       return (ch\<lparr>ch_state := st\<rparr>))"

definition apply_sequence :: "channel \<Rightarrow> (int \<times> int \<times> int) list \<Rightarrow> channel result" where
  "apply_sequence ch ops =
     bindR (assert_conservation_over_sequence (ch_state ch) ops (ch_cfg ch)) (\<lambda>st.
       return (ch\<lparr>ch_state := st\<rparr>))"

section \<open>State transactions\<close>

definition build_state_tx :: "externals \<Rightarrow> channel \<Rightarrow> state \<Rightarrow> (tx \<times> txoutput list) result" where
  "build_state_tx x ch st =
     bindR (quantise st (ch_cfg ch)) (\<lambda>q.
     bindR (sequence_for_version (version st)) (\<lambda>seq.
       let tx_in = TxInput (funding_txid x ch) 0 [] seq
       in bindR (foldR (\<lambda>outs (i, qi).
              if 0 < qi
              then bindR (bindR (ensure_whole_satoshi (PyInt qi)) (\<lambda>v.
                     bindR (kb_public x (ch_keybook ch) (int i)) (\<lambda>pk.
                       return (TxOutput v (p2pkh_script x pk))))) (\<lambda>out. return (outs @ [out]))
              else return outs) [] (List.enumerate 0 q)) (\<lambda>outs.
          let outputs = (if outs = [] then [TxOutput 0 [Op OP_RETURN]] else outs);
              t = Tx 1 [tx_in] outputs 0
          in bindR (channel_output_value ch) (\<lambda>v.
             bindR (channel_locking_script ch) (\<lambda>s.
               return (t, [TxOutput v s]))))))"

text \<open>The n-of-n signatures of input 0.\<close>

definition channel_signatures ::
  "externals \<Rightarrow> channel \<Rightarrow> tx \<Rightarrow> txoutput list \<Rightarrow> bytes list result" where
  "channel_signatures x ch t utxos =
     mapR (\<lambda>i. bindR (py_nth utxos 0) (\<lambda>u. bindR (kb_private (ch_keybook ch) i) (\<lambda>k.
       return (sign_input x t 0 (out_value u) (script_pubkey u) k)))) (py_range (cfg_n (ch_cfg ch)))"

definition sign_state_tx :: "externals \<Rightarrow> channel \<Rightarrow> state \<Rightarrow> (tx \<times> txoutput list) result" where
  "sign_state_tx x ch st =
     bindR (require_confirmed ch) (\<lambda>_.
     bindR (build_state_tx x ch st) (\<lambda>(t, utxos).
     bindR (channel_signatures x ch t utxos) (\<lambda>sigs.
     bindR (channel_funding_unlock sigs) (\<lambda>unlock.
       return (set_script_sig t 0 unlock, utxos)))))"

section \<open>Cooperative close\<close>

definition build_close_tx :: "externals \<Rightarrow> channel \<Rightarrow> state \<Rightarrow> (tx \<times> txoutput list) result" where
  "build_close_tx x ch st =
     (let cfg = ch_cfg ch; n = cfg_n cfg
      in bindR (quantise st cfg) (\<lambda>q.
         bindR (channel_output_value ch) (\<lambda>cv.
         bindR (channel_locking_script ch) (\<lambda>cs.
         let inputs = TxInput (funding_txid x ch) 0 [] FINAL_SEQUENCE #
               map (\<lambda>i. TxInput (funding_txid x ch) (1 + i) [] FINAL_SEQUENCE) (py_range n)
         in bindR (mapR (\<lambda>i. bindR (py_nth (ch_bonds ch) i) (\<lambda>b. return (bond_utxo b))) (py_range n))
              (\<lambda>bond_utxos.
            bindR (foldR (\<lambda>outs i.
                bindR (py_nth q i) (\<lambda>qi.
                bindR (py_nth (cfg_bonds cfg) i) (\<lambda>bi.
                bindR (ensure_whole_satoshi (PyInt (qi + bi))) (\<lambda>payout.
                  if 0 < payout
                  then bindR (kb_public x (ch_keybook ch) i) (\<lambda>pk.
                         return (outs @ [TxOutput payout (p2pkh_script x pk)]))
                  else return outs)))) [] (py_range n)) (\<lambda>outputs.
              return (Tx 1 inputs outputs COOP_LOCKTIME, TxOutput cv cs # bond_utxos)))))))"

definition sign_bond_returns :: "externals \<Rightarrow> channel \<Rightarrow> tx \<Rightarrow> tx result" where
  "sign_bond_returns x ch t =
     foldR (\<lambda>t i.
       bindR (py_nth (ch_bonds ch) i) (\<lambda>b.
       bindR (kb_private (ch_keybook ch) i) (\<lambda>k.
       bindR (sign_bond_return x t (nat (1 + i)) b k) (\<lambda>s.
         return (set_script_sig t (nat (1 + i)) s))))) t (py_range (cfg_n (ch_cfg ch)))"

definition cooperative_close ::
  "externals \<Rightarrow> channel \<Rightarrow> state option \<Rightarrow> (tx \<times> txoutput list) result" where
  "cooperative_close x ch state =
     bindR (require_confirmed ch) (\<lambda>_.
       let s = (case state of Some s \<Rightarrow> s | None \<Rightarrow> ch_state ch)
       in bindR (build_close_tx x ch s) (\<lambda>(t, utxos).
          bindR (channel_signatures x ch t utxos) (\<lambda>sigs.
          bindR (channel_funding_unlock sigs) (\<lambda>unlock.
          bindR (sign_bond_returns x ch (set_script_sig t 0 unlock)) (\<lambda>t'.
          bindR (verify_all_inputs x t' utxos) (\<lambda>_.
            return (t', utxos)))))))"

section \<open>Contested close\<close>

definition superseded_state_tx_for ::
  "externals \<Rightarrow> channel \<Rightarrow> int \<Rightarrow> int list \<Rightarrow> (tx \<times> txoutput list) result" where
  "superseded_state_tx_for x ch ver allocation =
     bindR (require_confirmed ch) (\<lambda>_.
     bindR (State allocation ver) (\<lambda>s.
     bindR (conservation_check s (ch_cfg ch)) (\<lambda>_.
       sign_state_tx x (ch\<lparr>ch_state := s\<rparr>) s)))"

definition forfeit_bond_tx ::
  "externals \<Rightarrow> channel \<Rightarrow> int \<Rightarrow> pubkey option \<Rightarrow> int \<Rightarrow> (tx \<times> txoutput list) result" where
  "forfeit_bond_tx x ch offender tower_pubkey tower_fee =
     bindR (require_confirmed ch) (\<lambda>_.
       if \<not> (0 \<le> offender \<and> offender < cfg_n (ch_cfg ch)) then raise StateError
       else if tower_fee < 0 then raise StateError
       else bindR (py_nth (ch_bonds ch) offender) (\<lambda>bond.
         if bond_value bond < tower_fee then raise StateError
         else
           let honest = filter (\<lambda>i. i \<noteq> offender) (py_range (cfg_n (ch_cfg ch)));
               tx_in = TxInput (funding_txid x ch) (1 + offender) [] FINAL_SEQUENCE
           in bindR (case tower_pubkey of
                 Some pk \<Rightarrow> if 0 < tower_fee
                   then bindR (ensure_whole_satoshi (PyInt tower_fee)) (\<lambda>f.
                          return [TxOutput f (p2pkh_script x pk)])
                   else return []
               | None \<Rightarrow> return []) (\<lambda>tower_outs.
           let remaining = bond_value bond - (if tower_pubkey \<noteq> None then tower_fee else 0);
               m = int (length honest);
               share = remaining div m;
               rem = remaining - share * m
           in bindR (foldR (\<lambda>outs (k, idx).
                bindR (ensure_whole_satoshi (PyInt (share + (if int k = m - 1 then rem else 0)))) (\<lambda>v.
                  if 0 < v
                  then bindR (kb_public x (ch_keybook ch) idx) (\<lambda>pk.
                         return (outs @ [TxOutput v (p2pkh_script x pk)]))
                  else return outs)) tower_outs (List.enumerate 0 honest)) (\<lambda>outputs.
           let t = Tx 1 [tx_in] outputs 0; utxos = [bond_utxo bond]
           in bindR (mapR (kb_private (ch_keybook ch)) honest) (\<lambda>cp_privs.
              bindR (sign_bond_forfeit x t 0 bond cp_privs) (\<lambda>s.
              let t' = set_script_sig t 0 s
              in bindR (verify_all_inputs x t' utxos) (\<lambda>_. return (t', utxos))))))))"

section \<open>Refresh\<close>

definition refresh_channel :: "externals \<Rightarrow> channel \<Rightarrow> int \<Rightarrow> channel result" where
  "refresh_channel x ch new_L =
     (if new_L \<le> cfg_L0 (ch_cfg ch) then raise StateError
      else
        let cfg = ch_cfg ch
        in bindR (ChannelConfig (cfg_n cfg) (cfg_k cfg) (cfg_S cfg) (cfg_bonds cfg) new_L (cfg_delta cfg))
             (\<lambda>new_cfg.
           let new_book = kb_copy (ch_keybook ch)
           in bindR (channel_open x new_cfg new_book default_parent None) (\<lambda>successor.
              bindR (State (balances (ch_state ch)) 0) (\<lambda>st.
                return ((mark_confirmed successor)\<lparr>ch_state := st\<rparr>)))))"

end
