(* ===== verification/Lifecycle_Facts.thy ===== *)
theory Lifecycle_Facts
  imports Channel_Lifecycle
begin

text \<open>
  The lemmas about the channel object: what each builder returns on a well-formed channel, the
  well-formedness invariant \<open>channel_wf\<close> with its preservation by every operation, the sums of
  satoshis of each transaction, and the confirm-before-sign discipline.
\<close>

section \<open>The outputs of the funding transaction\<close>

abbreviation others :: "int \<Rightarrow> int \<Rightarrow> int list" where
  "others n i \<equiv> filter (\<lambda>j. j \<noteq> i) (py_range n)"

lemma others_nonempty: "2 \<le> n \<Longrightarrow> others n i \<noteq> []"
  by (cases "i = 0") (auto simp: filter_empty_conv intro: bexI [of _ "1"] bexI [of _ "0"])

lemma length_others:
  assumes "0 \<le> i" "i < n"
  shows "int (length (others n i)) = n - 1"
proof -
  have "length (others n i) = card (set (others n i))"
    by (rule distinct_card [symmetric]) simp
  also have "set (others n i) = {0..<n} - {i}" by auto
  also have "card \<dots> = nat n - 1" using assms by (simp add: card_Diff_singleton)
  finally show ?thesis using assms by simp
qed

definition party_key :: "externals \<Rightarrow> keybook \<Rightarrow> int \<Rightarrow> pubkey" where
  "party_key x kb i = x_public_key x (keys kb ! nat i)"

definition bond_lock :: "externals \<Rightarrow> keybook \<Rightarrow> int \<Rightarrow> int \<Rightarrow> script" where
  "bond_lock x kb n i =
     (let cps = map (party_key x kb) (others n i)
      in [Op OP_IF, Push (pk_to_bytes (party_key x kb i)), Op OP_CHECKSIG, Op OP_ELSE,
          count_item (int (length cps))] @ map (\<lambda>pk. Push (pk_to_bytes pk)) cps @
         [count_item (int (length cps)), Op OP_CHECKMULTISIG, Op OP_ENDIF])"

definition funding_lock :: "externals \<Rightarrow> keybook \<Rightarrow> script" where
  "funding_lock x kb =
     count_item (kb_n kb) # map (\<lambda>pk. Push (pk_to_bytes pk)) (public_keys x kb) @
       [count_item (kb_n kb), Op OP_CHECKMULTISIG]"

lemma public_keys_nth:
  "0 \<le> i \<Longrightarrow> i < kb_n kb \<Longrightarrow> py_nth (public_keys x kb) i = Inr (party_key x kb i)"
  by (simp add: public_keys_def kb_n_def party_key_def)

lemma kb_public_party:
  "0 \<le> i \<Longrightarrow> i < kb_n kb \<Longrightarrow> kb_public x kb i = Inr (party_key x kb i)"
  by (simp add: party_key_def)

lemma counterparty_keys_eq:
  assumes "kb_n kb = n"
  shows "counterparty_keys (public_keys x kb) n i = Inr (map (party_key x kb) (others n i))"
  unfolding counterparty_keys_def
  using assms by (intro mapR_all_return) (auto intro: public_keys_nth)

lemma make_bond_script_eq:
  assumes "2 \<le> n"
  shows "make_bond_script_for (party_key x kb i) (map (party_key x kb) (others n i))
    = Inr (bond_lock x kb n i)"
  using others_nonempty [OF assms, of i]
  by (simp add: make_bond_script_for_def bond_script_eq bond_lock_def Let_def)

lemma build_channel_outputs_eq:
  assumes "valid_config cfg" and "kb_n kb = cfg_n cfg"
  shows "build_channel_outputs x cfg kb = Inr (TxOutput (cfg_S cfg) (funding_lock x kb) #
    map (\<lambda>i. TxOutput (cfg_bonds cfg ! nat i) (bond_lock x kb (cfg_n cfg) i)) (py_range (cfg_n cfg)))"
proof -
  note v = valid_configD [OF assms(1)]
  have "public_keys x kb \<noteq> []"
    using assms(2) v(1) by (auto simp: kb_n_def public_keys_def)
  then have fund: "channel_funding_script (public_keys x kb) = Inr (funding_lock x kb)"
    by (simp add: channel_funding_script_eq funding_lock_def kb_n_def public_keys_def)
  have "mapR (\<lambda>i. bindR (counterparty_keys (public_keys x kb) (cfg_n cfg) i) (\<lambda>cp.
      bindR (py_nth (cfg_bonds cfg) i) (\<lambda>b. bindR (py_nth (public_keys x kb) i) (\<lambda>pk.
      bindR (make_bond_script_for pk cp) (\<lambda>s. return (TxOutput b s)))))) (py_range (cfg_n cfg))
    = Inr (map (\<lambda>i. TxOutput (cfg_bonds cfg ! nat i) (bond_lock x kb (cfg_n cfg) i))
        (py_range (cfg_n cfg)))"
    using assms(2) v(1,5)
    by (intro mapR_all_return)
       (auto simp: counterparty_keys_eq public_keys_nth make_bond_script_eq)
  then show ?thesis
    by (simp add: build_channel_outputs_def assms(2) fund)
qed

lemma build_channel_outputs_wrong_size:
  "kb_n kb \<noteq> cfg_n cfg \<Longrightarrow> build_channel_outputs x cfg kb = Inl StateError"
  by (simp add: build_channel_outputs_def)

definition bond_of :: "externals \<Rightarrow> config \<Rightarrow> keybook \<Rightarrow> tx \<Rightarrow> int \<Rightarrow> bond_output" where
  "bond_of x cfg kb ftx i =
     \<lparr>owner_index = i, bond_value = cfg_bonds cfg ! nat i, bond_funding_txid = x_txid x ftx,
      bond_vout = 1 + i, bond_locking_script = bond_lock x kb (cfg_n cfg) i\<rparr>"

lemma bond_descriptors_eq:
  assumes "valid_config cfg" and "kb_n kb = cfg_n cfg"
  shows "bond_descriptors x cfg kb ftx = Inr (map (bond_of x cfg kb ftx) (py_range (cfg_n cfg)))"
  unfolding bond_descriptors_def Let_def
  using assms(2) valid_configD(1,5) [OF assms(1)]
  by (intro mapR_all_return)
     (auto simp: counterparty_keys_eq public_keys_nth make_bond_script_eq bond_of_def)

section \<open>Well-formed channels\<close>

text \<open>The first \<open>1 + n\<close> outputs of the funding transaction are the canonical ones (scripts are
  compared as bytes, as the source compares them), the bond descriptors belong to it, and the
  state is valid under the configuration.\<close>

definition canonical_funding :: "externals \<Rightarrow> config \<Rightarrow> keybook \<Rightarrow> tx \<Rightarrow> bool" where
  "canonical_funding x cfg kb ftx \<longleftrightarrow>
     1 + cfg_n cfg \<le> int (length (tx_outputs ftx)) \<and>
     out_value (tx_outputs ftx ! 0) = cfg_S cfg \<and>
     x_script_bytes x (script_pubkey (tx_outputs ftx ! 0)) = x_script_bytes x (funding_lock x kb) \<and>
     (\<forall>i < nat (cfg_n cfg).
        out_value (tx_outputs ftx ! Suc i) = cfg_bonds cfg ! i \<and>
        x_script_bytes x (script_pubkey (tx_outputs ftx ! Suc i)) =
          x_script_bytes x (bond_lock x kb (cfg_n cfg) (int i)))"

definition channel_wf :: "externals \<Rightarrow> channel \<Rightarrow> bool" where
  "channel_wf x ch \<longleftrightarrow>
     valid_config (ch_cfg ch) \<and> kb_n (ch_keybook ch) = cfg_n (ch_cfg ch) \<and>
     valid_state (ch_cfg ch) (ch_state ch) \<and>
     canonical_funding x (ch_cfg ch) (ch_keybook ch) (ch_funding_tx ch) \<and>
     ch_bonds ch = map (bond_of x (ch_cfg ch) (ch_keybook ch) (ch_funding_tx ch))
       (py_range (cfg_n (ch_cfg ch)))"

lemma channel_wfD:
  assumes "channel_wf x ch"
  shows "valid_config (ch_cfg ch)" "kb_n (ch_keybook ch) = cfg_n (ch_cfg ch)"
    "valid_state (ch_cfg ch) (ch_state ch)"
    "canonical_funding x (ch_cfg ch) (ch_keybook ch) (ch_funding_tx ch)"
    "ch_bonds ch = map (bond_of x (ch_cfg ch) (ch_keybook ch) (ch_funding_tx ch))
       (py_range (cfg_n (ch_cfg ch)))"
    "2 \<le> cfg_n (ch_cfg ch)"
  using assms valid_configD(1) by (auto simp: channel_wf_def)

lemma wf_bond_nth:
  "channel_wf x ch \<Longrightarrow> 0 \<le> i \<Longrightarrow> i < cfg_n (ch_cfg ch) \<Longrightarrow>
     py_nth (ch_bonds ch) i = Inr (bond_of x (ch_cfg ch) (ch_keybook ch) (ch_funding_tx ch) i)"
  by (simp add: channel_wfD(5))

lemma wf_channel_output:
  assumes "channel_wf x ch"
  shows "channel_output_value ch = Inr (cfg_S (ch_cfg ch))"
    and "\<exists>s. channel_locking_script ch = Inr s \<and>
      x_script_bytes x s = x_script_bytes x (funding_lock x (ch_keybook ch))"
proof -
  have "0 < length (tx_outputs (ch_funding_tx ch))"
    using channel_wfD(4,6) [OF assms] by (auto simp: canonical_funding_def)
  then show "channel_output_value ch = Inr (cfg_S (ch_cfg ch))"
    and "\<exists>s. channel_locking_script ch = Inr s \<and>
      x_script_bytes x s = x_script_bytes x (funding_lock x (ch_keybook ch))"
    using channel_wfD(4) [OF assms]
    by (auto simp: channel_output_value_def channel_locking_script_def canonical_funding_def)
qed

lemma wrap_funding_wf:
  assumes "valid_config cfg" and "kb_n kb = cfg_n cfg" and "canonical_funding x cfg kb ftx"
  shows "\<exists>ch. wrap_funding x cfg kb ftx us = Inr ch \<and> channel_wf x ch \<and> ch_cfg ch = cfg \<and>
    ch_keybook ch = kb \<and> ch_funding_tx ch = ftx \<and> ch_funding_utxos ch = us \<and>
    \<not> ch_funding_confirmed ch \<and> version (ch_state ch) = 0"
proof -
  obtain st where st: "initial_state cfg 0 = Inr st" "valid_state cfg st" "version st = 0"
    using initial_state_ok [OF assms(1), of 0] valid_configD(1) [OF assms(1)] by auto
  then show ?thesis
    using assms by (simp add: wrap_funding_def bond_descriptors_eq channel_wf_def)
qed

lemma total_bonds_pos:
  assumes "valid_config cfg"
  shows "0 \<le> cfg_S cfg + sum_list (cfg_bonds cfg)"
proof -
  have "0 \<le> sum_list (cfg_bonds cfg)"
    using assms by (intro sum_list_nonneg) (auto simp: valid_config_def)
  then show ?thesis using valid_configD(3) [OF assms] by simp
qed

lemma channel_open_eq:
  assumes "valid_config cfg" and "kb_n kb = cfg_n cfg"
  shows "channel_open x cfg kb p v = wrap_funding x cfg kb
     (Tx 1 [TxInput (fst p) (snd p) [] FINAL_SEQUENCE]
        (TxOutput (cfg_S cfg) (funding_lock x kb) #
         map (\<lambda>i. TxOutput (cfg_bonds cfg ! nat i) (bond_lock x kb (cfg_n cfg) i))
           (py_range (cfg_n cfg))) 0)
     [TxOutput (case v of None \<Rightarrow> cfg_S cfg + sum_list (cfg_bonds cfg) | Some w \<Rightarrow> w) [Op OP_TRUE]]"
  using assms total_bonds_pos [OF assms(1)]
  by (cases p) (auto simp: channel_open_def build_channel_outputs_eq Let_def)

lemma open_canonical:
  assumes "valid_config cfg"
  shows "canonical_funding x cfg kb (Tx 1 ins
        (TxOutput (cfg_S cfg) (funding_lock x kb) #
         map (\<lambda>i. TxOutput (cfg_bonds cfg ! nat i) (bond_lock x kb (cfg_n cfg) i))
           (py_range (cfg_n cfg))) 0)"
  using valid_configD(1) [OF assms] by (auto simp: canonical_funding_def)

lemma channel_open_wf:
  assumes "valid_config cfg" and "kb_n kb = cfg_n cfg"
  shows "\<exists>ch. channel_open x cfg kb p v = Inr ch \<and> channel_wf x ch \<and> ch_cfg ch = cfg \<and>
    ch_keybook ch = kb \<and> \<not> ch_funding_confirmed ch \<and> version (ch_state ch) = 0"
  using wrap_funding_wf [OF assms open_canonical [OF assms(1)]]
  unfolding channel_open_eq [OF assms] by blast

lemma channel_open_Inr:
  assumes "channel_open x cfg kb p v = Inr ch" and "valid_config cfg"
  shows "channel_wf x ch" "ch_cfg ch = cfg" "ch_keybook ch = kb" "\<not> ch_funding_confirmed ch"
    "version (ch_state ch) = 0" "kb_n kb = cfg_n cfg"
proof -
  show kb: "kb_n kb = cfg_n cfg"
    using assms by (auto simp: channel_open_def result_simps build_channel_outputs_def Let_def
        split: if_splits)
  show "channel_wf x ch" "ch_cfg ch = cfg" "ch_keybook ch = kb" "\<not> ch_funding_confirmed ch"
    "version (ch_state ch) = 0"
    using channel_open_wf [OF assms(2) kb, of x p v] assms(1) by auto
qed

text \<open>\<open>from_funding_tx\<close> accepts exactly the transactions with the canonical output vector.\<close>

lemma py_range_Suc: "0 \<le> n \<Longrightarrow> py_range (1 + n) = 0 # map (\<lambda>i. 1 + i) (py_range n)"
  by (rule nth_equalityI) (auto simp: py_range_def nth_Cons split: nat.splits)

lemma check_all_if:
  assumes "\<And>i. i \<in> set xs \<Longrightarrow> f i = (if ok i then Inr () else Inl e)"
  shows "check_all f xs = (if \<forall>i \<in> set xs. ok i then Inr () else Inl e)"
  using assms by (induction xs) auto

lemma canonical_funding_range:
  assumes "2 \<le> cfg_n cfg" and "1 + cfg_n cfg \<le> int (length (tx_outputs ftx))"
    and "expected = TxOutput (cfg_S cfg) (funding_lock x kb) #
      map (\<lambda>i. TxOutput (cfg_bonds cfg ! nat i) (bond_lock x kb (cfg_n cfg) i)) (py_range (cfg_n cfg))"
  shows "canonical_funding x cfg kb ftx \<longleftrightarrow> (\<forall>i \<in> set (py_range (1 + cfg_n cfg)).
       out_value (tx_outputs ftx ! nat i) = out_value (expected ! nat i) \<and>
       x_script_bytes x (script_pubkey (tx_outputs ftx ! nat i)) =
         x_script_bytes x (script_pubkey (expected ! nat i)))"
    (is "_ \<longleftrightarrow> (\<forall>i \<in> _. ?ok i)")
proof -
  have "(\<forall>i \<in> set (py_range (1 + cfg_n cfg)). ?ok i) \<longleftrightarrow>
      ?ok 0 \<and> (\<forall>i < nat (cfg_n cfg). ?ok (1 + int i))"
    using assms(1) by (subst py_range_Suc) (auto simp: py_range_def)
  also have "\<dots> \<longleftrightarrow> canonical_funding x cfg kb ftx"
    using assms by (auto simp: canonical_funding_def nat_add_distrib)
  finally show ?thesis by simp
qed

lemma from_funding_tx_iff:
  assumes "valid_config cfg" and "kb_n kb = cfg_n cfg"
  shows "from_funding_tx x cfg kb ftx us =
    (if canonical_funding x cfg kb ftx then wrap_funding x cfg kb ftx us else Inl StateError)"
proof (cases "1 + cfg_n cfg \<le> int (length (tx_outputs ftx))")
  case True
  define expected where "expected = TxOutput (cfg_S cfg) (funding_lock x kb) #
    map (\<lambda>i. TxOutput (cfg_bonds cfg ! nat i) (bond_lock x kb (cfg_n cfg) i)) (py_range (cfg_n cfg))"
  have n: "2 \<le> cfg_n cfg" by (rule valid_configD(1) [OF assms(1)])
  have len: "int (length expected) = 1 + cfg_n cfg" using n by (simp add: expected_def)
  have "check_all (\<lambda>i. bindR (py_nth (tx_outputs ftx) i) (\<lambda>actual. bindR (py_nth expected i) (\<lambda>want.
       if out_value actual \<noteq> out_value want then Inl StateError
       else if x_script_bytes x (script_pubkey actual) \<noteq> x_script_bytes x (script_pubkey want)
       then Inl StateError else Inr ()))) (py_range (1 + cfg_n cfg)) =
     (if canonical_funding x cfg kb ftx then Inr () else Inl StateError)"
    unfolding canonical_funding_range [OF n True expected_def]
    using True n len by (intro check_all_if) auto
  then show ?thesis
    using True
    by (simp add: from_funding_tx_def build_channel_outputs_eq [OF assms] flip: expected_def)
next
  case False
  then show ?thesis
    by (simp add: from_funding_tx_def build_channel_outputs_eq [OF assms] canonical_funding_def)
qed

lemma from_funding_tx_wf:
  assumes "from_funding_tx x cfg kb ftx us = Inr ch" and "valid_config cfg"
  shows "channel_wf x ch" and "canonical_funding x cfg kb ftx" and "ch_funding_tx ch = ftx"
proof -
  have kb: "kb_n kb = cfg_n cfg"
    using assms by (auto simp: from_funding_tx_def result_simps build_channel_outputs_def
        split: if_splits)
  show can: "canonical_funding x cfg kb ftx"
    using assms(1) unfolding from_funding_tx_iff [OF assms(2) kb] by (simp split: if_splits)
  show "channel_wf x ch" and "ch_funding_tx ch = ftx"
    using wrap_funding_wf [OF assms(2) kb can, of us] assms(1) can
    unfolding from_funding_tx_iff [OF assms(2) kb] by auto
qed


section \<open>State transactions\<close>

lemma sequence_for_version_Inr [result_simps]:
  "sequence_for_version v = Inr s \<longleftrightarrow> 0 \<le> v \<and> v < 0xFFFFFFFF \<and> s = v"
  by (auto simp: sequence_for_version_def sequence_constants)

definition payouts :: "externals \<Rightarrow> channel \<Rightarrow> int list \<Rightarrow> txoutput list" where
  "payouts x ch q =
     map (\<lambda>(i, qi). TxOutput qi (p2pkh_script x (party_key x (ch_keybook ch) (int i))))
       (filter (\<lambda>(i, qi). 0 < qi) (List.enumerate 0 q))"

lemma payout_loop:
  assumes "int (length q) \<le> kb_n (ch_keybook ch)"
  shows "foldR (\<lambda>outs (i, qi).
      if 0 < qi
      then bindR (bindR (ensure_whole_satoshi (PyInt qi)) (\<lambda>v.
             bindR (kb_public x (ch_keybook ch) (int i)) (\<lambda>pk.
               return (TxOutput v (p2pkh_script x pk))))) (\<lambda>out. return (outs @ [out]))
      else return outs) [] (List.enumerate 0 q) = Inr (payouts x ch q)"
  unfolding foldR_append_if2 payouts_def
  using assms
  by (subst mapR_all_return [where g = "\<lambda>(i, qi).
        TxOutput qi (p2pkh_script x (party_key x (ch_keybook ch) (int i)))"])
     (auto simp: in_set_enumerate_eq party_key_def)

lemma payouts_total [conservation]:
  assumes "\<And>v. v \<in> set q \<Longrightarrow> 0 \<le> v"
  shows "outputs_total (payouts x ch q) = sum_list q"
proof -
  have "outputs_total (payouts x ch q) =
      sum_list (map snd (filter (\<lambda>p. 0 < snd p) (List.enumerate 0 q)))"
    by (simp add: outputs_total_def payouts_def case_prod_unfold comp_def)
  also have "\<dots> = sum_list (map snd (List.enumerate 0 q))"
    using assms by (intro sum_list_filter_pos) (auto simp: in_set_enumerate_eq)
  finally show ?thesis by simp
qed

lemma quantise_payout_nonneg:
  assumes "valid_config cfg" and "valid_state cfg st" and "v \<in> set (map (netting_payout st cfg) (py_range (cfg_n cfg)))"
  shows "0 \<le> v"
proof -
  obtain i where i: "0 \<le> i" "i < cfg_n cfg" and v: "v = netting_payout st cfg i"
    using assms(3) by auto
  have "0 \<le> balances st ! nat i" using assms(2) i by (auto simp: valid_state_def)
  then show ?thesis
    using valid_configD(2) [OF assms(1)] by (simp add: v netting_payout_def pos_imp_zdiv_nonneg_iff)
qed

definition state_tx :: "externals \<Rightarrow> channel \<Rightarrow> state \<Rightarrow> tx" where
  "state_tx x ch st =
     Tx 1 [TxInput (funding_txid x ch) 0 [] (version st)]
       (payouts x ch (map (netting_payout st (ch_cfg ch)) (py_range (cfg_n (ch_cfg ch))))) 0"

lemma state_tx_total:
  assumes "valid_config (ch_cfg ch)" and "valid_state (ch_cfg ch) st"
  shows "outputs_total (tx_outputs (state_tx x ch st)) = cfg_S (ch_cfg ch)"
  unfolding state_tx_def Tx_sel sum_netting_payout [OF assms, symmetric]
  using quantise_payout_nonneg [OF assms] by (rule payouts_total)

lemma build_state_tx_eq:
  assumes "channel_wf x ch" and "valid_state (ch_cfg ch) st" and "version st < 0xFFFFFFFF"
  shows "\<exists>s. channel_locking_script ch = Inr s \<and>
    build_state_tx x ch st = Inr (state_tx x ch st, [TxOutput (cfg_S (ch_cfg ch)) s])"
proof -
  note wf = channel_wfD [OF assms(1)]
  let ?q = "map (netting_payout st (ch_cfg ch)) (py_range (cfg_n (ch_cfg ch)))"
  obtain s where s: "channel_locking_script ch = Inr s"
    using wf_channel_output(2) [OF assms(1)] by blast
  have seq: "sequence_for_version (version st) = Inr (version st)"
    using assms(2,3) by (simp add: sequence_for_version_Inr valid_state_def)
  have "outputs_total (payouts x ch ?q) = cfg_S (ch_cfg ch)"
    using state_tx_total [OF wf(1) assms(2), of x] by (simp add: state_tx_def)
  then have ne: "payouts x ch ?q \<noteq> []"
    using valid_configD(3) [OF wf(1)] by auto
  have len: "int (length ?q) \<le> kb_n (ch_keybook ch)"
    using wf(2,6) by simp
  have "build_state_tx x ch st = Inr (state_tx x ch st, [TxOutput (cfg_S (ch_cfg ch)) s])"
    unfolding build_state_tx_def quantise_eq [OF wf(1) assms(2)] bindR_simps seq Let_def
      payout_loop [OF len] wf_channel_output(1) [OF assms(1)] s
    by (simp add: ne state_tx_def)
  with s show ?thesis by blast
qed

text \<open>A state the sequence space cannot hold any more is refused.\<close>

lemma build_state_tx_exhausted:
  assumes "channel_wf x ch" and "valid_state (ch_cfg ch) st" and "0xFFFFFFFF \<le> version st"
  shows "build_state_tx x ch st = Inl StateError"
  using assms quantise_eq [OF channel_wfD(1) [OF assms(1)] assms(2)]
  by (simp add: build_state_tx_def sequence_for_version_def sequence_constants valid_state_def)

lemma channel_signatures_ok:
  assumes "channel_wf x ch"
  shows "\<exists>sigs. channel_signatures x ch t (u # us) = Inr sigs \<and> sigs \<noteq> [] \<and>
    sigs = map (\<lambda>i. sign_input x t 0 (out_value u) (script_pubkey u) (keys (ch_keybook ch) ! nat i))
      (py_range (cfg_n (ch_cfg ch)))"
proof -
  have "py_range (cfg_n (ch_cfg ch)) \<noteq> []"
    using channel_wfD(6) [OF assms] by (auto simp: py_range_def)
  then show ?thesis
    unfolding channel_signatures_def
    using channel_wfD(2) [OF assms] by (subst mapR_all_return) auto
qed

lemma sign_state_tx_ok:
  assumes "channel_wf x ch" and "valid_state (ch_cfg ch) st" and "version st < 0xFFFFFFFF"
    and "ch_funding_confirmed ch"
  shows "\<exists>t s. sign_state_tx x ch st = Inr (t, [TxOutput (cfg_S (ch_cfg ch)) s]) \<and>
    unsigned_view t = unsigned_view (state_tx x ch st)"
proof -
  obtain s where b: "build_state_tx x ch st = Inr (state_tx x ch st, [TxOutput (cfg_S (ch_cfg ch)) s])"
    using build_state_tx_eq [OF assms(1-3)] by blast
  obtain sigs where "channel_signatures x ch (state_tx x ch st) [TxOutput (cfg_S (ch_cfg ch)) s] = Inr sigs"
    and "sigs \<noteq> []"
    using channel_signatures_ok [OF assms(1)] by blast
  then show ?thesis
    using assms(4) b
    by (simp add: sign_state_tx_def require_confirmed_def channel_funding_unlock_def)
qed

section \<open>Cooperative close\<close>

definition close_tx :: "externals \<Rightarrow> channel \<Rightarrow> state \<Rightarrow> tx" where
  "close_tx x ch st =
     Tx 1 (map (\<lambda>i. TxInput (funding_txid x ch) i [] FINAL_SEQUENCE) (py_range (1 + cfg_n (ch_cfg ch))))
       (map (\<lambda>i. TxOutput (netting_payout st (ch_cfg ch) i + cfg_bonds (ch_cfg ch) ! nat i)
            (p2pkh_script x (party_key x (ch_keybook ch) i))) (py_range (cfg_n (ch_cfg ch))))
       COOP_LOCKTIME"

definition close_utxos :: "externals \<Rightarrow> channel \<Rightarrow> script \<Rightarrow> txoutput list" where
  "close_utxos x ch s =
     TxOutput (cfg_S (ch_cfg ch)) s # map bond_utxo (ch_bonds ch)"

lemma sum_bonds_range:
  assumes "valid_config cfg"
  shows "(\<Sum>i \<leftarrow> py_range (cfg_n cfg). cfg_bonds cfg ! nat i) = sum_list (cfg_bonds cfg)"
proof -
  have "map (\<lambda>i. cfg_bonds cfg ! nat i) (py_range (cfg_n cfg)) = cfg_bonds cfg"
    using valid_configD(1,4) [OF assms] by (intro nth_equalityI) simp_all
  then show ?thesis by simp
qed

lemma close_tx_total [conservation]:
  assumes "valid_config (ch_cfg ch)" and "valid_state (ch_cfg ch) st"
  shows "outputs_total (tx_outputs (close_tx x ch st)) =
    cfg_S (ch_cfg ch) + sum_list (cfg_bonds (ch_cfg ch))"
  using sum_netting_payout [OF assms] sum_bonds_range [OF assms(1)]
  by (simp add: outputs_total_def close_tx_def comp_def sum_list_addf)

lemma close_utxos_total:
  assumes "channel_wf x ch"
  shows "outputs_total (close_utxos x ch s) = cfg_S (ch_cfg ch) + sum_list (cfg_bonds (ch_cfg ch))"
  using sum_bonds_range [OF channel_wfD(1) [OF assms]]
  by (simp add: close_utxos_def channel_wfD(5) [OF assms] outputs_total_def comp_def bond_utxo_def
      bond_of_def)

lemma close_payout_loop:
  assumes "channel_wf x ch" and "valid_state (ch_cfg ch) st"
  shows "foldR (\<lambda>outs i.
      bindR (py_nth (map (netting_payout st (ch_cfg ch)) (py_range (cfg_n (ch_cfg ch)))) i) (\<lambda>qi.
      bindR (py_nth (cfg_bonds (ch_cfg ch)) i) (\<lambda>bi.
      bindR (ensure_whole_satoshi (PyInt (qi + bi))) (\<lambda>payout.
        if 0 < payout
        then bindR (kb_public x (ch_keybook ch) i) (\<lambda>pk.
               return (outs @ [TxOutput payout (p2pkh_script x pk)]))
        else return outs)))) [] (py_range (cfg_n (ch_cfg ch))) =
    Inr (tx_outputs (close_tx x ch st))"
proof -
  note wf = channel_wfD [OF assms(1)]
  let ?cfg = "ch_cfg ch"
  let ?out = "\<lambda>i. TxOutput (netting_payout st ?cfg i + cfg_bonds ?cfg ! nat i)
    (p2pkh_script x (party_key x (ch_keybook ch) i))"
  have pos: "0 < netting_payout st ?cfg i + cfg_bonds ?cfg ! nat i"
    if "0 \<le> i" "i < cfg_n ?cfg" for i
    using that quantise_payout_nonneg [OF wf(1) assms(2), of "netting_payout st ?cfg i"]
      valid_configD(7) [OF wf(1), of i] by force
  have "foldR (\<lambda>outs i.
      bindR (py_nth (map (netting_payout st ?cfg) (py_range (cfg_n ?cfg))) i) (\<lambda>qi.
      bindR (py_nth (cfg_bonds ?cfg) i) (\<lambda>bi.
      bindR (ensure_whole_satoshi (PyInt (qi + bi))) (\<lambda>payout.
        if 0 < payout
        then bindR (kb_public x (ch_keybook ch) i) (\<lambda>pk.
               return (outs @ [TxOutput payout (p2pkh_script x pk)]))
        else return outs)))) [] (py_range (cfg_n ?cfg)) =
    foldR (\<lambda>outs i. if True then bindR (Inr (?out i)) (\<lambda>y. return (outs @ [y])) else return outs)
      [] (py_range (cfg_n ?cfg))"
  proof (rule foldR_cong [OF refl refl])
    fix outs i assume "i \<in> set (py_range (cfg_n ?cfg))"
    then have i: "0 \<le> i" "i < cfg_n ?cfg" by auto
    with pos [OF i] wf(2) valid_configD(5) [OF wf(1)]
    show "bindR (py_nth (map (netting_payout st ?cfg) (py_range (cfg_n ?cfg))) i) (\<lambda>qi.
      bindR (py_nth (cfg_bonds ?cfg) i) (\<lambda>bi.
      bindR (ensure_whole_satoshi (PyInt (qi + bi))) (\<lambda>payout.
        if 0 < payout
        then bindR (kb_public x (ch_keybook ch) i) (\<lambda>pk.
               return (outs @ [TxOutput payout (p2pkh_script x pk)]))
        else return outs))) =
      (if True then bindR (Inr (?out i)) (\<lambda>y. return (outs @ [y])) else return outs)"
      by (simp add: party_key_def)
  qed
  then show ?thesis
    by (simp only: foldR_append_if) (simp add: close_tx_def)
qed

lemma build_close_tx_eq:
  assumes "channel_wf x ch" and "valid_state (ch_cfg ch) st" and "channel_locking_script ch = Inr s"
  shows "build_close_tx x ch st = Inr (close_tx x ch st, close_utxos x ch s)"
proof -
  note wf = channel_wfD [OF assms(1)]
  have bonds: "mapR (\<lambda>i. bindR (py_nth (ch_bonds ch) i) (\<lambda>b. return (bond_utxo b)))
      (py_range (cfg_n (ch_cfg ch))) = Inr (map bond_utxo (ch_bonds ch))"
    by (subst mapR_all_return [where g = "\<lambda>i. bond_utxo
        (bond_of x (ch_cfg ch) (ch_keybook ch) (ch_funding_tx ch) i)"])
       (auto simp: wf_bond_nth [OF assms(1)] wf(5))
  have ins: "tx_inputs (close_tx x ch st) = TxInput (funding_txid x ch) 0 [] FINAL_SEQUENCE #
      map (\<lambda>i. TxInput (funding_txid x ch) (1 + i) [] FINAL_SEQUENCE) (py_range (cfg_n (ch_cfg ch)))"
    using wf(6) by (simp add: close_tx_def py_range_Suc)
  show ?thesis
    unfolding build_close_tx_def Let_def quantise_eq [OF wf(1) assms(2)] bindR_simps
      wf_channel_output(1) [OF assms(1)] assms(3) bonds close_payout_loop [OF assms(1,2)]
    by (simp add: close_utxos_def flip: ins) (simp add: close_tx_def)
qed

lemma sign_bond_returns_ok:
  assumes "channel_wf x ch"
  shows "\<exists>t'. sign_bond_returns x ch t = Inr t' \<and> unsigned_view t' = unsigned_view t"
  unfolding sign_bond_returns_def
proof (rule foldR_total)
  note wf = channel_wfD [OF assms]
  fix t' i assume "i \<in> set (py_range (cfg_n (ch_cfg ch)))" and v: "unsigned_view t' = unsigned_view t"
  then have i: "0 \<le> i" "i < cfg_n (ch_cfg ch)" by auto
  have "0 \<le> bond_value (bond_of x (ch_cfg ch) (ch_keybook ch) (ch_funding_tx ch) i)"
    using valid_configD(7) [OF wf(1) i] by (simp add: bond_of_def)
  with i v wf(2) show "\<exists>s'. bindR (py_nth (ch_bonds ch) i) (\<lambda>b.
       bindR (kb_private (ch_keybook ch) i) (\<lambda>k.
       bindR (sign_bond_return x t' (nat (1 + i)) b k) (\<lambda>s.
         return (set_script_sig t' (nat (1 + i)) s)))) = Inr s' \<and> unsigned_view s' = unsigned_view t"
    by (simp add: wf_bond_nth [OF assms] sign_bond_return_def)
qed simp

text \<open>The signed close, and the only way a close of a confirmed channel can fail: the
  interpreter refuses an input of it.\<close>

lemma cooperative_close_eq:
  assumes "channel_wf x ch" and "ch_funding_confirmed ch"
    and "valid_state (ch_cfg ch) (case so of Some s \<Rightarrow> s | None \<Rightarrow> ch_state ch)" (is "valid_state _ ?st")
  shows "\<exists>t s. unsigned_view t = unsigned_view (close_tx x ch ?st) \<and>
    channel_locking_script ch = Inr s \<and>
    cooperative_close x ch so =
      bindR (verify_all_inputs x t (close_utxos x ch s)) (\<lambda>_. Inr (t, close_utxos x ch s))"
proof -
  obtain s where s: "channel_locking_script ch = Inr s"
    using wf_channel_output(2) [OF assms(1)] by blast
  obtain sigs where sigs: "channel_signatures x ch (close_tx x ch ?st) (close_utxos x ch s) = Inr sigs"
    and ne: "sigs \<noteq> []"
    using channel_signatures_ok [OF assms(1)] unfolding close_utxos_def by blast
  obtain t where t: "sign_bond_returns x ch (set_script_sig (close_tx x ch ?st) 0
        (push_sigs [Op OP_0] sigs)) = Inr t"
    and view: "unsigned_view t = unsigned_view (close_tx x ch ?st)"
    using sign_bond_returns_ok [OF assms(1)] unsigned_view_set_script_sig by metis
  have "cooperative_close x ch so =
      bindR (verify_all_inputs x t (close_utxos x ch s)) (\<lambda>_. Inr (t, close_utxos x ch s))"
    using assms(2) sigs ne t
    by (simp add: cooperative_close_def require_confirmed_def Let_def
        build_close_tx_eq [OF assms(1,3) s] channel_funding_unlock_def)
  with s view show ?thesis by blast
qed

lemma cooperative_close_Inr:
  assumes "channel_wf x ch" and "cooperative_close x ch so = Inr (t, utxos)"
    and "valid_state (ch_cfg ch) (case so of Some s \<Rightarrow> s | None \<Rightarrow> ch_state ch)" (is "valid_state _ ?st")
  shows "ch_funding_confirmed ch" "unsigned_view t = unsigned_view (close_tx x ch ?st)"
    "outputs_total utxos = cfg_S (ch_cfg ch) + sum_list (cfg_bonds (ch_cfg ch))"
    "length utxos = length (tx_inputs t)"
    "\<forall>i < length utxos. x_verify_input x t i (utxos ! i) = Inr True"
proof -
  show conf: "ch_funding_confirmed ch"
    using assms(2) by (auto simp: cooperative_close_def require_confirmed_def result_simps
        split: if_splits)
  obtain t' s where v: "unsigned_view t' = unsigned_view (close_tx x ch ?st)"
    and c: "cooperative_close x ch so =
      bindR (verify_all_inputs x t' (close_utxos x ch s)) (\<lambda>_. Inr (t', close_utxos x ch s))"
    using cooperative_close_eq [OF assms(1) conf assms(3)] by blast
  have "bindR (verify_all_inputs x t' (close_utxos x ch s)) (\<lambda>_. Inr (t', close_utxos x ch s))
      = Inr (t, utxos)"
    using c assms(2) by simp
  then have eq: "t = t'" "utxos = close_utxos x ch s"
    and ok: "verify_all_inputs x t utxos = Inr True"
    by (auto simp: result_simps)
  show "unsigned_view t = unsigned_view (close_tx x ch ?st)" using v eq by simp
  show "outputs_total utxos = cfg_S (ch_cfg ch) + sum_list (cfg_bonds (ch_cfg ch))"
    unfolding eq by (rule close_utxos_total [OF assms(1)])
  show "length utxos = length (tx_inputs t)"
    "\<forall>i < length utxos. x_verify_input x t i (utxos ! i) = Inr True"
    using ok by (auto simp: verify_all_inputs_Inr)
qed

section \<open>Forfeiting a bond\<close>

text \<open>The shares of the honest parties: equal, the last one also takes the rest.\<close>

definition forfeit_share :: "int \<Rightarrow> int \<Rightarrow> nat \<Rightarrow> int" where
  "forfeit_share remaining m k =
     remaining div m + (if int k = m - 1 then remaining - remaining div m * m else 0)"

lemma forfeit_shares_total:
  assumes "0 < m"
  shows "sum_list (map (forfeit_share remaining (int m)) [0..<m]) = remaining"
proof -
  obtain m' where m: "m = Suc m'" using assms by (cases m) auto
  have "sum_list (map (forfeit_share remaining (int m)) [0..<m']) =
      sum_list (map (\<lambda>_. remaining div int m) [0..<m'])"
    by (rule arg_cong [where f = sum_list], rule map_cong) (auto simp: forfeit_share_def m)
  also have "\<dots> = int m' * (remaining div int m)" by (simp add: sum_list_triv)
  finally show ?thesis
    unfolding m by (simp add: forfeit_share_def algebra_simps del: upt_Suc) (simp add: upt_Suc_append forfeit_share_def algebra_simps)
qed

definition tower_cut :: "pubkey option \<Rightarrow> int \<Rightarrow> int" where
  "tower_cut tower fee = (if tower \<noteq> None then fee else 0)"

definition tower_outputs :: "externals \<Rightarrow> pubkey option \<Rightarrow> int \<Rightarrow> txoutput list" where
  "tower_outputs x tower fee =
     (case tower of Some pk \<Rightarrow> if 0 < fee then [TxOutput fee (p2pkh_script x pk)] else []
      | None \<Rightarrow> [])"

definition honest_outputs :: "externals \<Rightarrow> channel \<Rightarrow> int \<Rightarrow> int \<Rightarrow> txoutput list" where
  "honest_outputs x ch offender remaining =
     (let honest = others (cfg_n (ch_cfg ch)) offender; m = int (length honest)
      in map (\<lambda>(k, i). TxOutput (forfeit_share remaining m k)
               (p2pkh_script x (party_key x (ch_keybook ch) i)))
           (filter (\<lambda>(k, i). 0 < forfeit_share remaining m k) (List.enumerate 0 honest)))"

definition forfeit_tx :: "externals \<Rightarrow> channel \<Rightarrow> int \<Rightarrow> pubkey option \<Rightarrow> int \<Rightarrow> tx" where
  "forfeit_tx x ch offender tower fee =
     Tx 1 [TxInput (funding_txid x ch) (1 + offender) [] FINAL_SEQUENCE]
       (tower_outputs x tower fee @
        honest_outputs x ch offender (cfg_bonds (ch_cfg ch) ! nat offender - tower_cut tower fee)) 0"

lemma forfeit_share_nonneg:
  assumes "0 \<le> remaining" and "0 < m"
  shows "0 \<le> forfeit_share remaining m k"
proof -
  have "0 \<le> remaining - remaining div m * m"
    using assms by (simp add: minus_div_mult_eq_mod)
  with assms show ?thesis by (simp add: forfeit_share_def pos_imp_zdiv_nonneg_iff)
qed

lemma sum_enumerate_fst: "sum_list (map (\<lambda>p. f (fst p)) (List.enumerate 0 xs)) = sum_list (map f [0..<length xs])"
  by (simp add: enumerate_eq_zip comp_def flip: map_map [unfolded comp_def, of _ fst])

lemma honest_outputs_total [conservation]:
  assumes "0 \<le> remaining" and "others (cfg_n (ch_cfg ch)) offender \<noteq> []"
  shows "outputs_total (honest_outputs x ch offender remaining) = remaining"
proof -
  let ?h = "others (cfg_n (ch_cfg ch)) offender"
  let ?f = "forfeit_share remaining (int (length ?h))"
  have pos: "0 < int (length ?h)" using assms(2) by (cases ?h) auto
  have "outputs_total (honest_outputs x ch offender remaining) =
      sum_list (map (\<lambda>p. ?f (fst p)) (filter (\<lambda>p. 0 < ?f (fst p)) (List.enumerate 0 ?h)))"
    by (simp add: outputs_total_def honest_outputs_def case_prod_unfold comp_def Let_def)
  also have "\<dots> = sum_list (map (\<lambda>p. ?f (fst p)) (List.enumerate 0 ?h))"
    by (rule sum_list_filter_pos) (rule forfeit_share_nonneg [OF assms(1) pos])
  also have "\<dots> = remaining"
    using assms(2) by (simp add: sum_enumerate_fst forfeit_shares_total)
  finally show ?thesis .
qed

lemma honest_outputs_member:
  assumes "out \<in> set (honest_outputs x ch offender r)"
  shows "0 < out_value out"
    and "\<exists>i \<in> set (others (cfg_n (ch_cfg ch)) offender).
      script_pubkey out = p2pkh_script x (party_key x (ch_keybook ch) i)"
proof -
  define os where "os = others (cfg_n (ch_cfg ch)) offender"
  obtain k i where ki: "(k, i) \<in> set (List.enumerate 0 os)" "0 < forfeit_share r (int (length os)) k"
    and out: "out = TxOutput (forfeit_share r (int (length os)) k)
      (p2pkh_script x (party_key x (ch_keybook ch) i))"
    using assms by (auto simp: honest_outputs_def Let_def os_def)
  then have "i \<in> set os" by (auto simp: in_set_enumerate_eq)
  with ki(2) show "0 < out_value out"
    and "\<exists>i \<in> set (others (cfg_n (ch_cfg ch)) offender).
      script_pubkey out = p2pkh_script x (party_key x (ch_keybook ch) i)"
    unfolding os_def [symmetric] by (auto simp: out)
qed

lemma tower_outputs_total:
  "0 \<le> fee \<Longrightarrow> outputs_total (tower_outputs x tower fee) = tower_cut tower fee"
  by (auto simp: tower_outputs_def tower_cut_def split: option.splits)

lemma wf_others_nonempty: "channel_wf x ch \<Longrightarrow> others (cfg_n (ch_cfg ch)) i \<noteq> []"
  by (rule others_nonempty) (rule channel_wfD(6))

lemma forfeit_tx_total [conservation]:
  assumes "channel_wf x ch" and "0 \<le> fee" and "fee \<le> cfg_bonds (ch_cfg ch) ! nat offender"
  shows "outputs_total (tx_outputs (forfeit_tx x ch offender tower fee)) =
    cfg_bonds (ch_cfg ch) ! nat offender"
  using assms(2,3) wf_others_nonempty [OF assms(1)]
  by (simp add: forfeit_tx_def tower_outputs_total honest_outputs_total tower_cut_def)

lemma honest_output_loop:
  assumes "0 \<le> remaining" and "kb_n (ch_keybook ch) = cfg_n (ch_cfg ch)"
    and "honest = others (cfg_n (ch_cfg ch)) offender" and "honest \<noteq> []"
  shows "foldR (\<lambda>outs (k, idx).
      bindR (ensure_whole_satoshi (PyInt (forfeit_share remaining (int (length honest)) k))) (\<lambda>v.
        if 0 < v
        then bindR (kb_public x (ch_keybook ch) idx) (\<lambda>pk.
               return (outs @ [TxOutput v (p2pkh_script x pk)]))
        else return outs)) acc (List.enumerate 0 honest) =
    Inr (acc @ honest_outputs x ch offender remaining)"
proof -
  let ?m = "int (length honest)"
  have m: "0 < ?m" using assms(4) by (cases honest) auto
  let ?f = "\<lambda>(k :: nat) i. Inr (TxOutput (forfeit_share remaining ?m k)
      (p2pkh_script x (party_key x (ch_keybook ch) i))) :: txoutput result"
  have "foldR (\<lambda>outs (k, idx).
      bindR (ensure_whole_satoshi (PyInt (forfeit_share remaining ?m k))) (\<lambda>v.
        if 0 < v
        then bindR (kb_public x (ch_keybook ch) idx) (\<lambda>pk.
               return (outs @ [TxOutput v (p2pkh_script x pk)]))
        else return outs)) acc (List.enumerate 0 honest) =
    foldR (\<lambda>outs (k, idx). if 0 < forfeit_share remaining ?m k
        then bindR (?f k idx) (\<lambda>y. return (outs @ [y])) else return outs) acc
      (List.enumerate 0 honest)"
    using assms(2,3) forfeit_share_nonneg [OF assms(1) m]
    by (intro foldR_cong [OF refl refl])
       (auto simp: in_set_enumerate_eq party_key_def not_less [symmetric] dest!: nth_mem)
  also have "\<dots> = Inr (acc @ honest_outputs x ch offender remaining)"
    unfolding foldR_append_if2
    by (subst mapR_all_return [where g = "\<lambda>(k, i). TxOutput (forfeit_share remaining ?m k)
          (p2pkh_script x (party_key x (ch_keybook ch) i))"])
       (auto simp: honest_outputs_def assms(3) Let_def)
  finally show ?thesis .
qed

lemma forfeit_signatures_ok:
  assumes "channel_wf x ch"
  shows "mapR (kb_private (ch_keybook ch)) (others (cfg_n (ch_cfg ch)) i) =
    Inr (map (\<lambda>j. keys (ch_keybook ch) ! nat j) (others (cfg_n (ch_cfg ch)) i))"
  using channel_wfD(2) [OF assms] by (intro mapR_all_return) auto

lemma forfeit_bond_tx_eq:
  assumes "channel_wf x ch" and "ch_funding_confirmed ch"
    and "0 \<le> offender" "offender < cfg_n (ch_cfg ch)"
    and "0 \<le> fee" "fee \<le> cfg_bonds (ch_cfg ch) ! nat offender"
  shows "\<exists>t. unsigned_view t = unsigned_view (forfeit_tx x ch offender tower fee) \<and>
    forfeit_bond_tx x ch offender tower fee =
      (let utxos = [bond_utxo (bond_of x (ch_cfg ch) (ch_keybook ch) (ch_funding_tx ch) offender)]
       in bindR (verify_all_inputs x t utxos) (\<lambda>_. Inr (t, utxos)))"
proof -
  note wf = channel_wfD [OF assms(1)]
  let ?h = "others (cfg_n (ch_cfg ch)) offender"
  let ?b = "bond_of x (ch_cfg ch) (ch_keybook ch) (ch_funding_tx ch) offender"
  let ?r = "bond_value ?b - (if tower \<noteq> None then fee else 0)"
  have val: "bond_value ?b = cfg_bonds (ch_cfg ch) ! nat offender" by (simp add: bond_of_def)
  have r: "0 \<le> ?r" using assms(5,6) val by simp
  have tower: "(case tower of
       Some pk \<Rightarrow> if 0 < fee then bindR (ensure_whole_satoshi (PyInt fee)) (\<lambda>f.
            return [TxOutput f (p2pkh_script x pk)]) else return []
     | None \<Rightarrow> return []) = Inr (tower_outputs x tower fee)"
    by (auto simp: tower_outputs_def split: option.splits)
  let ?t0 = "forfeit_tx x ch offender tower fee"
  define sigs where "sigs = map (\<lambda>p. sign_input x ?t0 0 (bond_value ?b) (bond_locking_script ?b) p)
      (map (\<lambda>j. keys (ch_keybook ch) ! nat j) ?h)"
  have ne: "?h \<noteq> []" by (rule wf_others_nonempty [OF assms(1)])
  have sign: "sign_bond_forfeit x ?t0 0 ?b (map (\<lambda>j. keys (ch_keybook ch) ! nat j) ?h) =
      Inr (push_sigs [Op OP_0] sigs @ [Op OP_0])"
    using ne by (simp add: sign_bond_forfeit_def bond_forfeit_unlock_def sigs_def)
  have tx: "Tx 1 [TxInput (funding_txid x ch) (1 + offender) [] FINAL_SEQUENCE]
      (tower_outputs x tower fee @ honest_outputs x ch offender ?r) 0 = ?t0"
    by (simp add: forfeit_tx_def tower_cut_def val)
  have "forfeit_bond_tx x ch offender tower fee =
      bindR (verify_all_inputs x (set_script_sig ?t0 0 (push_sigs [Op OP_0] sigs @ [Op OP_0]))
          [bond_utxo ?b])
        (\<lambda>_. Inr (set_script_sig ?t0 0 (push_sigs [Op OP_0] sigs @ [Op OP_0]), [bond_utxo ?b]))"
    using assms(2-6)
    unfolding forfeit_bond_tx_def Let_def forfeit_share_def [symmetric]
    by (simp add: require_confirmed_def wf_bond_nth [OF assms(1)] val [symmetric] tower
        honest_output_loop [OF r wf(2) refl ne] forfeit_signatures_ok [OF assms(1)] tx sign
        del: ensure_whole_satoshi.simps not_None_eq split del: if_split)
  then show ?thesis
    unfolding Let_def by (metis unsigned_view_set_script_sig)
qed

lemma forfeit_bond_tx_refused:
  assumes "channel_wf x ch" and "ch_funding_confirmed ch"
    and "\<not> (0 \<le> offender \<and> offender < cfg_n (ch_cfg ch) \<and> 0 \<le> fee \<and>
             fee \<le> cfg_bonds (ch_cfg ch) ! nat offender)"
  shows "forfeit_bond_tx x ch offender tower fee = Inl StateError"
  using assms(2,3)
  by (cases "0 \<le> offender \<and> offender < cfg_n (ch_cfg ch)")
     (auto simp: forfeit_bond_tx_def require_confirmed_def wf_bond_nth [OF assms(1)] bond_of_def)

lemma forfeit_bond_tx_Inr:
  assumes "channel_wf x ch" and "forfeit_bond_tx x ch offender tower fee = Inr (t, utxos)"
  shows "ch_funding_confirmed ch" "0 \<le> offender" "offender < cfg_n (ch_cfg ch)"
    "0 \<le> fee" "fee \<le> cfg_bonds (ch_cfg ch) ! nat offender"
    "unsigned_view t = unsigned_view (forfeit_tx x ch offender tower fee)"
    "utxos = [bond_utxo (bond_of x (ch_cfg ch) (ch_keybook ch) (ch_funding_tx ch) offender)]"
    "x_verify_input x t 0 (hd utxos) = Inr True"
proof -
  show conf: "ch_funding_confirmed ch"
    using assms(2) by (auto simp: forfeit_bond_tx_def require_confirmed_def split: if_splits)
  have g: "0 \<le> offender \<and> offender < cfg_n (ch_cfg ch) \<and> 0 \<le> fee \<and>
      fee \<le> cfg_bonds (ch_cfg ch) ! nat offender"
    using forfeit_bond_tx_refused [OF assms(1) conf, of offender fee tower] assms(2) by fastforce
  then show "0 \<le> offender" "offender < cfg_n (ch_cfg ch)" "0 \<le> fee"
    "fee \<le> cfg_bonds (ch_cfg ch) ! nat offender" by auto
  define us where "us = [bond_utxo (bond_of x (ch_cfg ch) (ch_keybook ch) (ch_funding_tx ch) offender)]"
  obtain t' where v: "unsigned_view t' = unsigned_view (forfeit_tx x ch offender tower fee)"
    and f: "forfeit_bond_tx x ch offender tower fee =
      bindR (verify_all_inputs x t' us) (\<lambda>_. Inr (t', us))"
    using forfeit_bond_tx_eq [OF assms(1) conf, of offender fee tower] g
    unfolding us_def Let_def by blast
  have "bindR (verify_all_inputs x t' us) (\<lambda>_. Inr (t', us)) = Inr (t, utxos)"
    using f assms(2) by simp
  then have eq: "t = t'" "utxos = us" and ok: "verify_all_inputs x t us = Inr True"
    by (auto simp: result_simps)
  show "unsigned_view t = unsigned_view (forfeit_tx x ch offender tower fee)" using v eq by simp
  show "utxos = [bond_utxo (bond_of x (ch_cfg ch) (ch_keybook ch) (ch_funding_tx ch) offender)]"
    by (simp add: eq us_def)
  show "x_verify_input x t 0 (hd utxos) = Inr True"
    using ok by (simp add: verify_all_inputs_Inr eq us_def)
qed

section \<open>Confirm before sign\<close>

lemmas signing_operations =
  sign_state_tx_def cooperative_close_def superseded_state_tx_for_def forfeit_bond_tx_def

lemma unconfirmed_refused:
  assumes "\<not> ch_funding_confirmed ch"
  shows "sign_state_tx x ch st = Inl UnconfirmedFundingError"
    "cooperative_close x ch so = Inl UnconfirmedFundingError"
    "superseded_state_tx_for x ch v alloc = Inl UnconfirmedFundingError"
    "forfeit_bond_tx x ch i tower fee = Inl UnconfirmedFundingError"
  using assms by (simp_all add: signing_operations require_confirmed_def)

section \<open>The operations that change a channel\<close>

lemma mark_confirmed_wf: "channel_wf x ch \<Longrightarrow> channel_wf x (mark_confirmed ch)"
  by (simp add: channel_wf_def mark_confirmed_def)

lemma apply_transfer_wf:
  assumes "apply_transfer ch s r d = Inr ch'" and "channel_wf x ch"
  shows "channel_wf x ch'"
  using assms transfer_Inr(7)
  by (auto simp: apply_transfer_def result_simps channel_wf_def)

lemma apply_sequence_wf:
  assumes "apply_sequence ch ops = Inr ch'" and "channel_wf x ch"
  shows "channel_wf x ch'"
  using assms sequence_preserves [of "ch_state ch" ops "ch_cfg ch"]
  by (auto simp: apply_sequence_def result_simps channel_wf_def)

text \<open>A refresh keeps the allocation and confirms a successor with the later horizon.\<close>

lemma refresh_channel_Inr:
  assumes "refresh_channel x ch new_L = Inr ch'" and "channel_wf x ch"
  shows "channel_wf x ch'" "balances (ch_state ch') = balances (ch_state ch)"
    "version (ch_state ch') = 0" "ch_funding_confirmed ch'"
    "cfg_L0 (ch_cfg ch') = new_L" "cfg_L0 (ch_cfg ch) < new_L"
    "ch_cfg ch' = (ch_cfg ch)\<lparr>cfg_L0 := new_L\<rparr>" "ch_keybook ch' = ch_keybook ch"
proof -
  note wf = channel_wfD [OF assms(2)]
  let ?c = "ch_cfg ch"
  obtain cfg' succ where c: "ChannelConfig (cfg_n ?c) (cfg_k ?c) (cfg_S ?c) (cfg_bonds ?c) new_L
      (cfg_delta ?c) = Inr cfg'"
    and o: "channel_open x cfg' (ch_keybook ch) default_parent None = Inr succ"
    and ch': "ch' = (mark_confirmed succ)\<lparr>ch_state := \<lparr>balances = balances (ch_state ch), version = 0\<rparr>\<rparr>"
    and L: "cfg_L0 ?c < new_L"
    using assms(1) by (auto simp: refresh_channel_def result_simps State_Inr Let_def split: if_splits)
  have cfg': "cfg' = ?c\<lparr>cfg_L0 := new_L\<rparr>" "valid_config cfg'"
    using c by (auto simp: ChannelConfig_Inr)
  note s = channel_open_Inr [OF o cfg'(2)]
  have st: "valid_state cfg' \<lparr>balances = balances (ch_state ch), version = 0\<rparr>"
    using wf(3) by (simp add: valid_state_def cfg'(1))
  show "channel_wf x ch'"
    using s(1) st by (simp add: ch' channel_wf_def mark_confirmed_def s(2))
  show "balances (ch_state ch') = balances (ch_state ch)"
    "version (ch_state ch') = 0" "ch_funding_confirmed ch'"
    "cfg_L0 (ch_cfg ch') = new_L" "cfg_L0 (ch_cfg ch) < new_L"
    "ch_cfg ch' = (ch_cfg ch)\<lparr>cfg_L0 := new_L\<rparr>" "ch_keybook ch' = ch_keybook ch"
    using L by (simp_all add: ch' mark_confirmed_def s(2,3)) (simp_all add: cfg'(1))
qed

lemma refresh_channel_ok:
  assumes "channel_wf x ch" and "cfg_L0 (ch_cfg ch) < new_L" and "new_L < 500000000"
  shows "\<exists>ch'. refresh_channel x ch new_L = Inr ch'"
proof -
  note wf = channel_wfD [OF assms(1)]
  let ?cfg = "(ch_cfg ch)\<lparr>cfg_L0 := new_L\<rparr>"
  have v: "valid_config ?cfg" using wf(1) assms(2,3) by (simp add: valid_config_def)
  have c: "ChannelConfig (cfg_n (ch_cfg ch)) (cfg_k (ch_cfg ch)) (cfg_S (ch_cfg ch))
      (cfg_bonds (ch_cfg ch)) new_L (cfg_delta (ch_cfg ch)) = Inr ?cfg"
    using v by (simp add: ChannelConfig_Inr)
  obtain succ where "channel_open x ?cfg (ch_keybook ch) default_parent None = Inr succ"
    using channel_open_wf [OF v, of "ch_keybook ch" x default_parent None] wf(2) by auto
  moreover have "State (balances (ch_state ch)) 0 = Inr \<lparr>balances = balances (ch_state ch), version = 0\<rparr>"
    using wf(3) by (simp add: State_Inr valid_state_def)
  ultimately show ?thesis
    using assms(2) c by (auto simp: refresh_channel_def)
qed

text \<open>The successor of a channel that was itself opened on the default parent has the very
  funding transaction of its predecessor: the horizon is no part of it.\<close>

lemma refresh_same_funding:
  assumes "channel_open x cfg kb default_parent None = Inr ch" and "valid_config cfg"
    and "ch_funding_tx ch2 = ch_funding_tx ch" "ch_cfg ch2 = cfg" "ch_keybook ch2 = kb"
    and "refresh_channel x ch2 new_L = Inr ch'"
  shows "ch_funding_tx ch' = ch_funding_tx ch2"
proof -
  have kb: "kb_n kb = cfg_n cfg" by (rule channel_open_Inr(6) [OF assms(1,2)])
  obtain cfg' succ where c: "ChannelConfig (cfg_n cfg) (cfg_k cfg) (cfg_S cfg) (cfg_bonds cfg) new_L
      (cfg_delta cfg) = Inr cfg'"
    and o: "channel_open x cfg' kb default_parent None = Inr succ"
    and ch': "ch_funding_tx ch' = ch_funding_tx succ"
    using assms(4-6)
    by (auto simp: refresh_channel_def result_simps Let_def mark_confirmed_def split: if_splits)
  have cfg': "cfg' = cfg\<lparr>cfg_L0 := new_L\<rparr>" "valid_config cfg'"
    using c by (auto simp: ChannelConfig_Inr)
  have kb': "kb_n kb = cfg_n cfg'" using kb by (simp add: cfg'(1))
  have "ch_funding_tx succ = ch_funding_tx ch"
    using assms(1) o
    unfolding channel_open_eq [OF assms(2) kb] channel_open_eq [OF cfg'(2) kb']
    by (auto simp: wrap_funding_def result_simps cfg'(1) split: if_splits)
  then show ?thesis by (simp add: ch' assms(3))
qed

end
