(* ===== verification/Channel_Routing.thy ===== *)
theory Channel_Routing
  imports Channel_Scripts
begin

text \<open>
  \<open>routing.py\<close>: a path of hashlocked hops with staggered horizons, the claim and the return
  transaction of a hop, the settlement of a whole path in either direction, and the staggering
  check.  A hop keeps the private keys of its two ends, as in the source.
\<close>

section \<open>Hops and paths\<close>

record hop =
  payer_priv :: privkey
  payee_priv :: privkey
  hop_value :: int
  image_h160 :: bytes
  locktime :: int
  funding_outpoint :: outpoint

record path =
  hops :: "hop list"
  path_L0 :: int
  path_delta :: int
  path_image :: bytes
  path_preimage :: "bytes option"

definition hop_locking_script :: "externals \<Rightarrow> hop \<Rightarrow> script result" where
  "hop_locking_script x h =
     hop_script (image_h160 h) (x_public_key x (payee_priv h)) (x_public_key x (payer_priv h))"

definition hop_utxo :: "externals \<Rightarrow> hop \<Rightarrow> txoutput result" where
  "hop_utxo x h = bindR (hop_locking_script x h) (\<lambda>s. return (TxOutput (hop_value h) s))"

definition path_length :: "path \<Rightarrow> int" where
  "path_length p = int (length (hops p))"

text \<open>\<open>bytes([v] * 32)\<close>: a value that is not a byte raises.\<close>

definition synthetic_outpoint :: "int \<Rightarrow> outpoint result" where
  "synthetic_outpoint v =
     (if v < 0 \<or> 256 \<le> v then raise PyValueError else return (replicate 32 (word_of_int v), 0))"

definition build_path ::
  "externals \<Rightarrow> privkey list \<Rightarrow> int \<Rightarrow> int \<Rightarrow> int \<Rightarrow> bytes \<Rightarrow> outpoint list option \<Rightarrow> path result"
where
  "build_path x keys_on_path value L0 delta preimage funding_outpoints =
     (if length keys_on_path < 2 then raise RoutingError
      else
        let l = int (length keys_on_path) - 1
        in if L0 \<le> 0 then raise RoutingError
           else if delta \<le> 0 then raise RoutingError
           else if L0 \<le> l * delta then raise RoutingError
           else
             let image = x_hash160 x preimage
             in bindR (case funding_outpoints of
                    None \<Rightarrow> mapR (\<lambda>j. synthetic_outpoint (j + 1)) (py_range l)
                  | Some ps \<Rightarrow> return ps) (\<lambda>outpoints.
                if int (length outpoints) \<noteq> l then raise RoutingError
                else bindR (mapR (\<lambda>j.
                    bindR (py_nth keys_on_path j) (\<lambda>payer.
                    bindR (py_nth keys_on_path (j + 1)) (\<lambda>payee.
                    bindR (py_nth outpoints j) (\<lambda>op.
                      return \<lparr>payer_priv = payer, payee_priv = payee, hop_value = value,
                              image_h160 = image, locktime = L0 - j * delta,
                              funding_outpoint = op\<rparr>)))) (py_range l)) (\<lambda>hs.
                  return \<lparr>hops = hs, path_L0 = L0, path_delta = delta, path_image = image,
                          path_preimage = Some preimage\<rparr>)))"

section \<open>The two spends of a hop\<close>

definition build_claim_tx ::
  "externals \<Rightarrow> hop \<Rightarrow> bytes \<Rightarrow> pubkey option \<Rightarrow> (tx \<times> txoutput) result" where
  "build_claim_tx x h preimage sink_payout_pk =
     (if x_hash160 x preimage \<noteq> image_h160 h then raise RoutingError
      else
        let (prev_hash, prev_idx) = funding_outpoint h;
            tx_in = TxInput prev_hash prev_idx [] FINAL_SEQUENCE;
            pk = (case sink_payout_pk of Some pk \<Rightarrow> pk | None \<Rightarrow> x_public_key x (payee_priv h));
            out = TxOutput (hop_value h) (p2pkh_script x pk);
            t = Tx 1 [tx_in] [out] 0
        in bindR (hop_locking_script x h) (\<lambda>ls.
           let sig = sign_input x t 0 (hop_value h) ls (payee_priv h);
               t' = t\<lparr>tx_inputs := [TxInput prev_hash prev_idx (hop_claim_unlock sig preimage)
                                      FINAL_SEQUENCE]\<rparr>
           in bindR (hop_utxo x h) (\<lambda>u. return (t', u))))"

definition build_return_tx :: "externals \<Rightarrow> hop \<Rightarrow> (tx \<times> txoutput) result" where
  "build_return_tx x h =
     (let (prev_hash, prev_idx) = funding_outpoint h;
          tx_in = TxInput prev_hash prev_idx [] 0;
          out = TxOutput (hop_value h) (p2pkh_script x (x_public_key x (payer_priv h)));
          t = Tx 1 [tx_in] [out] (locktime h)
      in bindR (hop_locking_script x h) (\<lambda>ls.
         let sig = sign_input x t 0 (hop_value h) ls (payer_priv h);
             t' = t\<lparr>tx_inputs := [TxInput prev_hash prev_idx (hop_return_unlock sig) 0]\<rparr>
         in bindR (hop_utxo x h) (\<lambda>u. return (t', u))))"

definition settle_secret_revealed :: "externals \<Rightarrow> path \<Rightarrow> tx list result" where
  "settle_secret_revealed x p =
     (case path_preimage p of
        None \<Rightarrow> raise RoutingError
      | Some pre \<Rightarrow> mapR (\<lambda>h.
          bindR (build_claim_tx x h pre None) (\<lambda>(t, utxo).
          bindR (verify_spend x t 0 utxo) (\<lambda>_. return t))) (hops p))"

definition settle_secret_not_revealed :: "externals \<Rightarrow> path \<Rightarrow> tx list result" where
  "settle_secret_not_revealed x p =
     mapR (\<lambda>h.
       bindR (build_return_tx x h) (\<lambda>(t, utxo).
       bindR (verify_spend x t 0 utxo) (\<lambda>_. return t))) (hops p)"

section \<open>The staggering check\<close>

definition assert_staggering_invariant :: "path \<Rightarrow> unit result" where
  "assert_staggering_invariant p =
     bindR (foldR (\<lambda>prev (j, h).
         if locktime h \<noteq> path_L0 p - int j * path_delta p then raise RoutingError
         else if prev - locktime h \<noteq> path_delta p then raise RoutingError
         else return (locktime h)) (path_L0 p + path_delta p) (List.enumerate 0 (hops p))) (\<lambda>_.
     bindR (py_nth (hops p) (- 1)) (\<lambda>last_hop.
       if locktime last_hop < path_delta p then raise RoutingError else return ()))"

text \<open>What the check accepts: horizons \<open>L0, L0 - delta, \<dots>\<close>, the last one at least \<open>delta\<close>.\<close>

definition staggered :: "path \<Rightarrow> bool" where
  "staggered p \<longleftrightarrow>
     hops p \<noteq> [] \<and>
     (\<forall>j < length (hops p). locktime (hops p ! j) = path_L0 p - int j * path_delta p) \<and>
     path_delta p \<le> locktime (last (hops p))"

lemma py_nth_last: "xs \<noteq> [] \<Longrightarrow> py_nth xs (- 1) = Inr (last xs)"
  by (auto simp: py_nth_def py_index_def last_conv_nth Let_def nat_diff_distrib' Suc_le_eq
      intro!: arg_cong [where f = "nth xs"])

lemma stagger_loop:
  assumes "prev = L0 - int k * d + d"
  shows "foldR (\<lambda>prev (j, h).
      if locktime h \<noteq> L0 - int j * d then raise RoutingError
      else if prev - locktime h \<noteq> d then raise RoutingError
      else return (locktime h)) prev (List.enumerate k hs) =
    (if \<forall>j < length hs. locktime (hs ! j) = L0 - int (k + j) * d
     then Inr (if hs = [] then prev else locktime (last hs)) else Inl RoutingError)"
  using assms
proof (induction hs arbitrary: k prev)
  case (Cons h hs)
  have all: "(\<forall>j < length (h # hs). locktime ((h # hs) ! j) = L0 - int (k + j) * d) \<longleftrightarrow>
      locktime h = L0 - int k * d \<and> (\<forall>j < length hs. locktime (hs ! j) = L0 - int (Suc k + j) * d)"
    by (auto simp: less_Suc_eq_0_disj)
  show ?case
  proof (cases "locktime h = L0 - int k * d")
    case True
    then have "locktime h = L0 - int (Suc k) * d + d" by (simp add: algebra_simps)
    from Cons.IH [OF this] True Cons.prems show ?thesis unfolding all by simp
  next
    case False
    then show ?thesis unfolding all by simp
  qed
qed simp

lemma assert_staggering_iff:
  assumes "hops p \<noteq> []"
  shows "assert_staggering_invariant p = (if staggered p then Inr () else Inl RoutingError)"
  using assms stagger_loop [of "path_L0 p + path_delta p" "path_L0 p" 0 "path_delta p" "hops p"]
  by (auto simp: assert_staggering_invariant_def staggered_def py_nth_last)

section \<open>What a path is\<close>

definition path_hop :: "externals \<Rightarrow> privkey list \<Rightarrow> int \<Rightarrow> int \<Rightarrow> int \<Rightarrow> bytes \<Rightarrow> outpoint list \<Rightarrow> nat \<Rightarrow> hop" where
  "path_hop x ks v L0 delta pre ops j =
     \<lparr>payer_priv = ks ! j, payee_priv = ks ! Suc j, hop_value = v, image_h160 = x_hash160 x pre,
      locktime = L0 - int j * delta, funding_outpoint = ops ! j\<rparr>"

definition path_feasible :: "privkey list \<Rightarrow> int \<Rightarrow> int \<Rightarrow> bool" where
  "path_feasible ks L0 delta \<longleftrightarrow>
     2 \<le> length ks \<and> 0 < L0 \<and> 0 < delta \<and> (int (length ks) - 1) * delta < L0"

lemma path_hops_loop:
  assumes "length ks = Suc (length ops)"
  shows "mapR (\<lambda>j. bindR (py_nth ks j) (\<lambda>payer. bindR (py_nth ks (j + 1)) (\<lambda>payee.
      bindR (py_nth ops j) (\<lambda>op.
        return \<lparr>payer_priv = payer, payee_priv = payee, hop_value = v,
                image_h160 = x_hash160 x pre, locktime = L0 - j * delta,
                funding_outpoint = op\<rparr>)))) (py_range (int (length ops))) =
    Inr (map (path_hop x ks v L0 delta pre ops) [0..<length ops])"
proof -
  have "mapR (\<lambda>j. bindR (py_nth ks j) (\<lambda>payer. bindR (py_nth ks (j + 1)) (\<lambda>payee.
      bindR (py_nth ops j) (\<lambda>op.
        return \<lparr>payer_priv = payer, payee_priv = payee, hop_value = v,
                image_h160 = x_hash160 x pre, locktime = L0 - j * delta,
                funding_outpoint = op\<rparr>)))) (py_range (int (length ops))) =
    Inr (map (\<lambda>j. path_hop x ks v L0 delta pre ops (nat j)) (py_range (int (length ops))))"
    using assms by (intro mapR_all_return) (auto simp: path_hop_def nat_add_distrib)
  then show ?thesis by (simp add: py_range_int comp_def)
qed

lemma build_path_infeasible:
  "\<not> path_feasible ks L0 delta \<Longrightarrow> build_path x ks v L0 delta pre ops = Inl RoutingError"
  by (auto simp: build_path_def path_feasible_def Let_def not_less not_le)

lemma build_path_given:
  assumes "path_feasible ks L0 delta"
  shows "build_path x ks v L0 delta pre (Some ops) =
    (if length ks = Suc (length ops)
     then Inr \<lparr>hops = map (path_hop x ks v L0 delta pre ops) [0..<length ops], path_L0 = L0,
               path_delta = delta, path_image = x_hash160 x pre, path_preimage = Some pre\<rparr>
     else Inl RoutingError)"
proof (cases "length ks = Suc (length ops)")
  case True
  then show ?thesis
    using assms by (auto simp: build_path_def path_feasible_def Let_def path_hops_loop [OF True] Suc_le_eq)
next
  case False
  then show ?thesis
    using assms by (auto simp: build_path_def path_feasible_def Let_def)
qed

text \<open>The default outpoints repeat one byte, so they exist for at most 255 hops.\<close>

definition synthetic_outpoints :: "nat \<Rightarrow> outpoint list" where
  "synthetic_outpoints l = map (\<lambda>j. (replicate 32 (word_of_nat (Suc j)), 0)) [0..<l]"

lemma synthetic_outpoints_eq:
  assumes "l \<le> 255"
  shows "mapR (\<lambda>j. synthetic_outpoint (j + 1)) (py_range (int l)) = Inr (synthetic_outpoints l)"
proof -
  have "mapR (\<lambda>j. synthetic_outpoint (j + 1)) (py_range (int l)) =
      Inr (map (\<lambda>j. (replicate 32 (word_of_int (j + 1)), 0)) (py_range (int l)))"
    using assms by (intro mapR_all_return) (auto simp: synthetic_outpoint_def)
  then show ?thesis
    by (simp add: synthetic_outpoints_def py_range_int add.commute)
qed

lemma synthetic_outpoints_overflow:
  assumes "255 < l"
  shows "mapR (\<lambda>j. synthetic_outpoint (j + 1)) (py_range (int l)) = Inl PyValueError"
  using assms
  by (intro mapR_Inl_at [where x = 255]) (auto simp: synthetic_outpoint_def split: if_splits)

lemma build_path_default:
  assumes "path_feasible ks L0 delta"
  shows "build_path x ks v L0 delta pre None =
    (if length ks \<le> 256 then build_path x ks v L0 delta pre (Some (synthetic_outpoints (length ks - 1)))
     else Inl PyValueError)"
proof -
  have l: "int (length ks) - 1 = int (length ks - 1)"
    using assms by (simp add: path_feasible_def)
  show ?thesis
  proof (cases "length ks \<le> 256")
    case True
    then have "mapR (\<lambda>j. synthetic_outpoint (j + 1)) (py_range (int (length ks) - 1)) =
        Inr (synthetic_outpoints (length ks - 1))"
      unfolding l by (intro synthetic_outpoints_eq) simp
    with assms True show ?thesis by (simp add: build_path_def path_feasible_def)
  next
    case False
    then have "mapR (\<lambda>j. synthetic_outpoint (j + 1)) (py_range (int (length ks) - 1)) =
        Inl PyValueError"
      unfolding l by (intro synthetic_outpoints_overflow) simp
    with assms False show ?thesis by (simp add: build_path_def path_feasible_def)
  qed
qed

lemma build_path_staggered:
  assumes "build_path x ks v L0 delta pre ops = Inr p"
  shows "staggered p" and "path_feasible ks L0 delta" and "Suc (length (hops p)) = length ks"
    and "path_L0 p = L0" and "path_delta p = delta" and "path_preimage p = Some pre"
    and "\<exists>os. hops p = map (path_hop x ks v L0 delta pre os) [0..<length (hops p)]"
proof -
  show feas: "path_feasible ks L0 delta"
    using assms build_path_infeasible by fastforce
  obtain os where os: "build_path x ks v L0 delta pre (Some os) = Inr p"
    using assms build_path_default [OF feas, of x v pre]
    by (cases ops) (auto split: if_splits)
  then have len: "length ks = Suc (length os)"
    and p: "p = \<lparr>hops = map (path_hop x ks v L0 delta pre os) [0..<length os], path_L0 = L0,
               path_delta = delta, path_image = x_hash160 x pre, path_preimage = Some pre\<rparr>"
    unfolding build_path_given [OF feas] by (auto split: if_splits)
  have pos: "0 < length os" and bound: "int (length os) * delta < L0"
    using feas len by (auto simp: path_feasible_def)
  have "int (length os - 1) * delta + delta = int (length os) * delta"
    using pos by (cases "length os") (simp_all add: algebra_simps)
  with pos bound show "staggered p"
    by (simp add: staggered_def p path_hop_def last_map)
  show "Suc (length (hops p)) = length ks" "path_L0 p = L0" "path_delta p = delta"
    "path_preimage p = Some pre"
    "\<exists>os. hops p = map (path_hop x ks v L0 delta pre os) [0..<length (hops p)]"
    using len p by auto
qed

section \<open>What the spends pay\<close>

text \<open>The claim pays the payee with no time lock, the return pays the payer back and carries
  the horizon of the hop on a transaction that is not final.\<close>

definition claims_hop :: "externals \<Rightarrow> hop \<Rightarrow> bytes \<Rightarrow> tx \<Rightarrow> bool" where
  "claims_hop x h pre t \<longleftrightarrow>
     (\<exists>sig. t = Tx 1 [TxInput (fst (funding_outpoint h)) (snd (funding_outpoint h))
                        [Push sig, Push pre, Op OP_1] FINAL_SEQUENCE]
                    [TxOutput (hop_value h) (p2pkh_script x (x_public_key x (payee_priv h)))] 0)"

definition returns_hop :: "externals \<Rightarrow> hop \<Rightarrow> tx \<Rightarrow> bool" where
  "returns_hop x h t \<longleftrightarrow>
     (\<exists>sig. t = Tx 1 [TxInput (fst (funding_outpoint h)) (snd (funding_outpoint h))
                        [Push sig, Op OP_0] 0]
                    [TxOutput (hop_value h) (p2pkh_script x (x_public_key x (payer_priv h)))]
                    (locktime h))"

lemma Tx_update_inputs: "(Tx v i outs l)\<lparr>tx_inputs := i'\<rparr> = Tx v i' outs l"
  by (simp add: Tx_def)

lemma build_claim_tx_Inr:
  assumes "build_claim_tx x h pre None = Inr (t, u)"
  shows "claims_hop x h pre t" "x_hash160 x pre = image_h160 h" "hop_utxo x h = Inr u"
  using assms
  by (auto simp: build_claim_tx_def claims_hop_def hop_claim_unlock_def result_simps
      Tx_update_inputs Let_def split: if_splits prod.splits)

lemma build_return_tx_Inr:
  assumes "build_return_tx x h = Inr (t, u)"
  shows "returns_hop x h t" "hop_utxo x h = Inr u"
  using assms
  by (auto simp: build_return_tx_def returns_hop_def hop_return_unlock_def result_simps
      Tx_update_inputs Let_def split: prod.splits)

lemma build_claim_tx_wrong_preimage:
  "x_hash160 x pre \<noteq> image_h160 h \<Longrightarrow> build_claim_tx x h pre pk = Inl RoutingError"
  by (simp add: build_claim_tx_def)

lemma hop_locking_script_ok:
  "length (image_h160 h) = 20 \<Longrightarrow> \<exists>s. hop_locking_script x h = Inr s"
  by (simp add: hop_locking_script_def hop_script_def)

lemma build_claim_tx_ok:
  assumes "length (image_h160 h) = 20" and "x_hash160 x pre = image_h160 h"
  shows "\<exists>t u. build_claim_tx x h pre pk = Inr (t, u)"
  using hop_locking_script_ok [OF assms(1), of x] assms(2)
  by (auto simp: build_claim_tx_def hop_utxo_def Let_def split: prod.splits)

lemma build_return_tx_ok:
  assumes "length (image_h160 h) = 20"
  shows "\<exists>t u. build_return_tx x h = Inr (t, u)"
  using hop_locking_script_ok [OF assms(1), of x]
  by (auto simp: build_return_tx_def hop_utxo_def Let_def split: prod.splits)

lemma settle_revealed_Inr:
  assumes "settle_secret_revealed x p = Inr ts" and "path_preimage p = Some pre"
  shows "list_all2 (\<lambda>h t. claims_hop x h pre t \<and>
    (\<exists>u. hop_utxo x h = Inr u \<and> x_verify_input x t 0 u = Inr True)) (hops p) ts"
  using assms
  by (auto simp: settle_secret_revealed_def result_simps elim!: list_all2_mono
      intro: build_claim_tx_Inr(1) dest: build_claim_tx_Inr(3))

lemma settle_not_revealed_Inr:
  assumes "settle_secret_not_revealed x p = Inr ts"
  shows "list_all2 (\<lambda>h t. returns_hop x h t \<and>
    (\<exists>u. hop_utxo x h = Inr u \<and> x_verify_input x t 0 u = Inr True)) (hops p) ts"
  using assms
  by (auto simp: settle_secret_not_revealed_def result_simps elim!: list_all2_mono
      intro: build_return_tx_Inr(1) dest: build_return_tx_Inr(2))

text \<open>An interpreter that accepts the claims (the returns) settles the whole path.\<close>

lemma settle_revealed_ok:
  assumes "path_preimage p = Some pre"
    and "\<And>h. h \<in> set (hops p) \<Longrightarrow> image_h160 h = x_hash160 x pre" and "length (x_hash160 x pre) = 20"
    and "\<And>h t u. h \<in> set (hops p) \<Longrightarrow> build_claim_tx x h pre None = Inr (t, u) \<Longrightarrow>
           x_verify_input x t 0 u = Inr True"
  shows "\<exists>ts. settle_secret_revealed x p = Inr ts"
proof -
  let ?claim = "\<lambda>h. fst (projr (build_claim_tx x h pre None))"
  have "mapR (\<lambda>h. bindR (build_claim_tx x h pre None) (\<lambda>(t, utxo).
      bindR (verify_spend x t 0 utxo) (\<lambda>_. return t))) (hops p) = Inr (map ?claim (hops p))"
  proof (rule mapR_all_return)
    fix h assume h: "h \<in> set (hops p)"
    have img: "image_h160 h = x_hash160 x pre" by (rule assms(2) [OF h])
    then have "length (image_h160 h) = 20" using assms(3) by simp
    then obtain t u where b: "build_claim_tx x h pre None = Inr (t, u)"
      using build_claim_tx_ok [of h x pre None] img by metis
    with assms(4) [OF h b] show "bindR (build_claim_tx x h pre None) (\<lambda>(t, utxo).
      bindR (verify_spend x t 0 utxo) (\<lambda>_. return t)) = Inr (?claim h)"
      by (simp add: verify_spend_def)
  qed
  then show ?thesis by (simp add: settle_secret_revealed_def assms(1))
qed

text \<open>An intermediary's incoming hop stays open for \<open>delta\<close> longer than its outgoing hop.\<close>

lemma staggered_gap:
  assumes "staggered p" and "Suc j < length (hops p)"
  shows "locktime (hops p ! j) = locktime (hops p ! Suc j) + path_delta p"
proof -
  have "locktime (hops p ! j) = path_L0 p - int j * path_delta p"
    and "locktime (hops p ! Suc j) = path_L0 p - int (Suc j) * path_delta p"
    using assms by (simp_all add: staggered_def)
  then show ?thesis by (simp add: algebra_simps)
qed

lemma staggered_margin:
  assumes "staggered p" and "0 \<le> path_delta p" and "j < length (hops p)"
  shows "path_delta p \<le> locktime (hops p ! j)"
proof -
  have "locktime (last (hops p)) = path_L0 p - int (length (hops p) - 1) * path_delta p"
    using assms(1) by (auto simp: staggered_def last_conv_nth)
  moreover have "int j * path_delta p \<le> int (length (hops p) - 1) * path_delta p"
    using assms(2,3) by (intro mult_right_mono) auto
  moreover have "locktime (hops p ! j) = path_L0 p - int j * path_delta p"
    using assms(1,3) by (simp add: staggered_def)
  ultimately show ?thesis using assms(1) by (simp add: staggered_def)
qed

end
