(* ===== verification/P2P_Messages.thy ===== *)
theory P2P_Messages
  imports Bitcoinx
begin

text \<open>
  \<open>node/p2p.py\<close>: variable-length integers, the message frame, and the message bodies of the wire
  protocol, each with its serialiser and its parser.  A \<open>str\<close> is the list of its code points; the
  parsers read from a stream and return what is left of it.  A time stamp that defaults to the
  clock is an argument.  The round trips are instances of the interfaces \<open>codec\<close> and
  \<open>fixed_codec\<close>.
\<close>

section \<open>Constants and hashes\<close>

definition PROTOCOL_VERSION :: int where "PROTOCOL_VERSION = 70016"
definition SERVICES_NONE :: int where "SERVICES_NONE = 0"
definition MAX_MESSAGE_SIZE :: int where "MAX_MESSAGE_SIZE = 32 * 1024 * 1024"
definition P2P_HEADER_SIZE :: nat where "P2P_HEADER_SIZE = 24"
definition INV_TX :: int where "INV_TX = 1"
definition INV_BLOCK :: int where "INV_BLOCK = 2"

definition double_sha256 :: "externals \<Rightarrow> bytes \<Rightarrow> bytes" where
  "double_sha256 x data = x_sha256 x (x_sha256 x data)"

section \<open>Variable-length integers and byte strings\<close>

definition encode_varint :: "int \<Rightarrow> bytes result" where
  "encode_varint n =
     (if n < 0 then raise P2PError
      else if n < 0xFD then return [word_of_int n]
      else if n \<le> 0xFFFF then bindR (to_bytes_le 2 n) (\<lambda>b. return (0xFD # b))
      else if n \<le> 0xFFFFFFFF then bindR (to_bytes_le 4 n) (\<lambda>b. return (0xFE # b))
      else bindR (to_bytes_le 8 n) (\<lambda>b. return (0xFF # b)))"

definition read_varint :: "bytes \<Rightarrow> (int \<times> bytes) result" where
  "read_varint buf =
     (let (b, buf1) = buf_read 1 buf
      in if b = [] then raise P2PError
         else
           let v = hd b
           in if v < 0xFD then return (uint v, buf1)
              else
                let w = (if v = 0xFD then 2 else if v = 0xFE then 4 else 8);
                    (data, buf2) = buf_read w buf1
                in if length data \<noteq> w then raise P2PError
                   else return (int_from_le data, buf2))"

definition encode_var_bytes :: "bytes \<Rightarrow> bytes result" where
  "encode_var_bytes b = bindR (encode_varint (int (length b))) (\<lambda>p. return (p @ b))"

definition read_var_bytes :: "bytes \<Rightarrow> int \<Rightarrow> (bytes \<times> bytes) result" where
  "read_var_bytes buf cap =
     bindR (read_varint buf) (\<lambda>(n, buf1).
       if cap < n then raise P2PError
       else
         let (data, buf2) = buf_read (nat n) buf1
         in if int (length data) \<noteq> n then raise P2PError else return (data, buf2))"

section \<open>Frames\<close>

type_synonym pystr = "nat list"

text \<open>\<open>s.encode("ascii")\<close> (a \<open>UnicodeEncodeError\<close> is a \<open>ValueError\<close>) and
  \<open>b.decode("ascii", errors="replace")\<close>.\<close>

definition encode_ascii :: "pystr \<Rightarrow> bytes result" where
  "encode_ascii s =
     (if \<forall>c \<in> set s. c < 128 then return (map word_of_nat s) else raise PyValueError)"

definition decode_ascii_replace :: "bytes \<Rightarrow> pystr" where
  "decode_ascii_replace b = map (\<lambda>c. if c < 128 then unat c else 0xFFFD) b"

text \<open>\<open>b.rstrip(b"\x00")\<close>\<close>

definition rstrip_nul :: "bytes \<Rightarrow> bytes" where
  "rstrip_nul b = rev (dropWhile (\<lambda>c. c = 0) (rev b))"

record frame =
  frame_magic :: bytes
  frame_command :: pystr
  frame_payload :: bytes

definition frame_serialise :: "externals \<Rightarrow> frame \<Rightarrow> bytes result" where
  "frame_serialise x f =
     bindR (encode_ascii (frame_command f)) (\<lambda>cmd_bytes.
       if 12 < length cmd_bytes then raise P2PError
       else
         let cmd_padded = cmd_bytes @ replicate (12 - length cmd_bytes) 0
         in bindR (to_bytes_le 4 (int (length (frame_payload f)))) (\<lambda>len.
              let checksum = take 4 (double_sha256 x (frame_payload f))
              in return (frame_magic f @ cmd_padded @ len @ checksum @ frame_payload f)))"

definition slice :: "nat \<Rightarrow> nat \<Rightarrow> bytes \<Rightarrow> bytes" where
  "slice i j b = take (j - i) (drop i b)"

definition parse_frame :: "externals \<Rightarrow> bytes \<Rightarrow> bytes option \<Rightarrow> (frame \<times> nat) result" where
  "parse_frame x data expect_magic =
     (if length data < P2P_HEADER_SIZE then raise P2PError
      else
        let magic = take 4 data
        in if (case expect_magic of Some m \<Rightarrow> magic \<noteq> m | None \<Rightarrow> False) then raise P2PError
           else
             let command = decode_ascii_replace (rstrip_nul (slice 4 16 data));
                 len = int_from_le (slice 16 20 data)
             in if MAX_MESSAGE_SIZE < len then raise P2PError
                else
                  let expected_checksum = slice 20 24 data;
                      e = P2P_HEADER_SIZE + nat len
                  in if length data < e then raise P2PError
                     else
                       let payload = slice P2P_HEADER_SIZE e data;
                           actual_checksum = take 4 (double_sha256 x payload)
                       in if actual_checksum \<noteq> expected_checksum then raise P2PError
                          else return (\<lparr>frame_magic = magic, frame_command = command,
                                        frame_payload = payload\<rparr>, e))"

section \<open>Network addresses\<close>

record net_addr =
  na_services :: int
  na_ip :: bytes
  na_port :: int

definition default_net_addr :: net_addr where
  "default_net_addr = \<lparr>na_services = SERVICES_NONE, na_ip = replicate 16 0, na_port = 0\<rparr>"

text \<open>The time stamp is written when one is given (\<open>include_time\<close>).\<close>

definition net_addr_serialise :: "net_addr \<Rightarrow> int option \<Rightarrow> bytes result" where
  "net_addr_serialise a timestamp =
     bindR (case timestamp of Some ts \<Rightarrow> to_bytes_le 4 ts | None \<Rightarrow> return []) (\<lambda>ts.
     bindR (to_bytes_le 8 (na_services a)) (\<lambda>sv.
     bindR (to_bytes_be 2 (na_port a)) (\<lambda>p.
       return (ts @ sv @ take 16 (na_ip a @ replicate 16 0) @ p))))"

definition net_addr_parse :: "bytes \<Rightarrow> bool \<Rightarrow> (net_addr \<times> bytes) result" where
  "net_addr_parse buf include_time =
     bindR (if include_time
            then (let (ts, buf1) = buf_read 4 buf
                  in if length ts \<noteq> 4 then raise P2PError else return buf1)
            else return buf) (\<lambda>buf1.
       let (sv, buf2) = buf_read 8 buf1;
           (ip, buf3) = buf_read 16 buf2
       in if length ip \<noteq> 16 then raise P2PError
          else
            let (p, buf4) = buf_read 2 buf3
            in return (\<lparr>na_services = int_from_le sv, na_ip = ip, na_port = int_from_be p\<rparr>, buf4))"

section \<open>Message bodies\<close>

record version_message =
  vm_version :: int
  vm_services :: int
  vm_timestamp :: int
  vm_addr_recv :: net_addr
  vm_addr_from :: net_addr
  vm_nonce :: int
  vm_user_agent :: bytes
  vm_start_height :: int
  vm_relay :: bool

text \<open>\<open>/channel-ref:0.1/\<close>, and the message a constructor without arguments builds.\<close>

definition USER_AGENT :: bytes where
  "USER_AGENT = map (\<lambda>c. word_of_nat (of_char c)) ''/channel-ref:0.1/''"

definition default_version_message :: "int \<Rightarrow> version_message" where
  "default_version_message now =
     \<lparr>vm_version = PROTOCOL_VERSION, vm_services = SERVICES_NONE, vm_timestamp = now,
      vm_addr_recv = default_net_addr, vm_addr_from = default_net_addr, vm_nonce = 0,
      vm_user_agent = USER_AGENT, vm_start_height = 0, vm_relay = True\<rparr>"

definition version_serialise :: "version_message \<Rightarrow> bytes result" where
  "version_serialise m =
     bindR (to_bytes_le_signed 4 (vm_version m)) (\<lambda>a.
     bindR (to_bytes_le 8 (vm_services m)) (\<lambda>b.
     bindR (to_bytes_le_signed 8 (vm_timestamp m)) (\<lambda>c.
     bindR (net_addr_serialise (vm_addr_recv m) None) (\<lambda>d.
     bindR (net_addr_serialise (vm_addr_from m) None) (\<lambda>e.
     bindR (to_bytes_le 8 (vm_nonce m)) (\<lambda>f.
     bindR (encode_var_bytes (vm_user_agent m)) (\<lambda>g.
     bindR (to_bytes_le_signed 4 (vm_start_height m)) (\<lambda>h.
       return (a @ b @ c @ d @ e @ f @ g @ h @ [if vm_relay m then 1 else 0])))))))))"

definition version_parse :: "bytes \<Rightarrow> version_message result" where
  "version_parse payload =
     (let (a, buf1) = buf_read 4 payload;
          (b, buf2) = buf_read 8 buf1;
          (c, buf3) = buf_read 8 buf2
      in bindR (net_addr_parse buf3 False) (\<lambda>(recv, buf4).
         bindR (net_addr_parse buf4 False) (\<lambda>(frm, buf5).
         let (f, buf6) = buf_read 8 buf5
         in bindR (read_var_bytes buf6 MAX_MESSAGE_SIZE) (\<lambda>(ua, buf7).
            let (h, buf8) = buf_read 4 buf7;
                (r, buf9) = buf_read 1 buf8
            in return \<lparr>vm_version = int_from_le_signed a, vm_services = int_from_le b,
                       vm_timestamp = int_from_le_signed c, vm_addr_recv = recv,
                       vm_addr_from = frm, vm_nonce = int_from_le f, vm_user_agent = ua,
                       vm_start_height = int_from_le_signed h,
                       vm_relay = (r \<noteq> [] \<and> hd r \<noteq> 0)\<rparr>))))"

record inv_vector =
  inv_type :: int
  inv_hash :: bytes

definition inv_serialise :: "inv_vector \<Rightarrow> bytes result" where
  "inv_serialise v =
     (if length (inv_hash v) \<noteq> 32 then raise P2PError
      else bindR (to_bytes_le 4 (inv_type v)) (\<lambda>t. return (t @ inv_hash v)))"

definition inv_parse :: "bytes \<Rightarrow> (inv_vector \<times> bytes) result" where
  "inv_parse buf =
     (let (t, buf1) = buf_read 4 buf; (h, buf2) = buf_read 32 buf1
      in if length h \<noteq> 32 then raise P2PError
         else return (\<lparr>inv_type = int_from_le t, inv_hash = h\<rparr>, buf2))"

definition encode_inv :: "inv_vector list \<Rightarrow> bytes result" where
  "encode_inv vectors =
     bindR (encode_varint (int (length vectors))) (\<lambda>out.
     bindR (encode_all inv_serialise vectors) (\<lambda>body. return (out @ body)))"

definition parse_inv :: "bytes \<Rightarrow> inv_vector list result" where
  "parse_inv payload =
     bindR (read_varint payload) (\<lambda>(n, buf).
     bindR (parse_n inv_parse (nat n) buf) (\<lambda>(vs, _). return vs))"

record getheaders_message =
  gh_version :: int
  gh_locator :: "bytes list"
  gh_hash_stop :: bytes

definition locator_serialise :: "bytes \<Rightarrow> bytes result" where
  "locator_serialise h = (if length h \<noteq> 32 then raise P2PError else return h)"

definition getheaders_serialise :: "getheaders_message \<Rightarrow> bytes result" where
  "getheaders_serialise m =
     bindR (to_bytes_le 4 (gh_version m)) (\<lambda>a.
     bindR (encode_varint (int (length (gh_locator m)))) (\<lambda>b.
     bindR (encode_all locator_serialise (gh_locator m)) (\<lambda>c.
       if length (gh_hash_stop m) \<noteq> 32 then raise P2PError
       else return (a @ b @ c @ gh_hash_stop m))))"

definition getheaders_parse :: "bytes \<Rightarrow> getheaders_message result" where
  "getheaders_parse payload =
     (let (a, buf1) = buf_read 4 payload
      in bindR (read_varint buf1) (\<lambda>(n, buf2).
         bindR (parse_n (\<lambda>buf. return (buf_read 32 buf)) (nat n) buf2) (\<lambda>(locator, buf3).
         bindR (check_all (\<lambda>h. if length h \<noteq> 32 then raise P2PError else return ()) locator) (\<lambda>_.
         let (stop, buf4) = buf_read 32 buf3
         in if length stop \<noteq> 32 then raise P2PError
            else return \<lparr>gh_version = int_from_le a, gh_locator = locator,
                         gh_hash_stop = stop\<rparr>))))"

definition header_entry_serialise :: "bytes \<Rightarrow> bytes result" where
  "header_entry_serialise h = (if length h \<noteq> 80 then raise P2PError else return (h @ [0]))"

definition header_entry_parse :: "bytes \<Rightarrow> (bytes \<times> bytes) result" where
  "header_entry_parse buf =
     (let (h, buf1) = buf_read 80 buf
      in if length h \<noteq> 80 then raise P2PError
         else bindR (read_varint buf1) (\<lambda>(_, buf2). return (h, buf2)))"

type_synonym headers_message = "bytes list"

definition headers_serialise :: "headers_message \<Rightarrow> bytes result" where
  "headers_serialise raw_headers =
     bindR (encode_varint (int (length raw_headers))) (\<lambda>out.
     bindR (encode_all header_entry_serialise raw_headers) (\<lambda>body. return (out @ body)))"

definition headers_parse :: "bytes \<Rightarrow> headers_message result" where
  "headers_parse payload =
     bindR (read_varint payload) (\<lambda>(n, buf).
     bindR (parse_n header_entry_parse (nat n) buf) (\<lambda>(hs, _). return hs))"

text \<open>A ping is its nonce.\<close>

type_synonym ping_message = int

definition ping_serialise :: "ping_message \<Rightarrow> bytes result" where
  "ping_serialise nonce = to_bytes_le 8 nonce"

definition ping_parse :: "bytes \<Rightarrow> ping_message result" where
  "ping_parse payload =
     (if length payload < 8 then raise P2PError else return (int_from_le (take 8 payload)))"

end
