(* ===== verification/Key_Stores.thy ===== *)
theory Key_Stores
  imports Prelude "HOL-Library.AList"
begin

text \<open>
  The two keyed containers the sources use, and the interface the components rely on.

  A Python \<open>dict\<close> is an association list in insertion order: assigning to a key that is present
  keeps its place, deleting removes it.  A SQLite table with a primary key is the list of its rows
  in rowid order: \<open>INSERT OR REPLACE\<close> deletes the old row and appends the new one, \<open>DELETE\<close>
  removes the row.  Both are providers of the locale \<open>kv_store\<close>; the clients (block store, mempool,
  registry, channel manager) use only its laws.
\<close>

section \<open>The interface\<close>

locale kv_store =
  fixes get :: "'s \<Rightarrow> 'k \<Rightarrow> 'v option"
    and put :: "'k \<Rightarrow> 'v \<Rightarrow> 's \<Rightarrow> 's"
    and del :: "'k \<Rightarrow> 's \<Rightarrow> 's"
    and items :: "'s \<Rightarrow> ('k \<times> 'v) list"
    and wf :: "'s \<Rightarrow> bool"
  assumes get_put: "get (put k v s) k' = (if k' = k then Some v else get s k')"
    and get_del: "wf s \<Longrightarrow> get (del k s) k' = (if k' = k then None else get s k')"
    and wf_put: "wf s \<Longrightarrow> wf (put k v s)"
    and wf_del: "wf s \<Longrightarrow> wf (del k s)"
    and items_get: "wf s \<Longrightarrow> (k, v) \<in> set (items s) \<longleftrightarrow> get s k = Some v"
    and items_distinct: "wf s \<Longrightarrow> distinct (items s)"
begin

lemma get_put_same [simp]: "get (put k v s) k = Some v"
  by (simp add: get_put)

lemma get_put_other [simp]: "k' \<noteq> k \<Longrightarrow> get (put k v s) k' = get s k'"
  by (simp add: get_put)

lemma del_absent: "wf s \<Longrightarrow> get s k = None \<Longrightarrow> get (del k s) = get s"
  by (auto simp: get_del)

lemma del_put_fresh:
  assumes "wf s" and "get s k = None"
  shows "get (del k (put k v s)) = get s"
  using assms by (auto simp: get_del get_put wf_put)

lemma put_del_present:
  assumes "wf s" and "get s k = Some v"
  shows "get (put k v (del k s)) = get s"
  using assms by (auto simp: get_del get_put)

lemma wf_fold_del: "wf s \<Longrightarrow> wf (fold del ks s)"
  by (induction ks arbitrary: s) (simp_all add: wf_del)

lemma wf_fold_put: "wf s \<Longrightarrow> wf (fold (\<lambda>(k, v). put k v) kvs s)"
  by (induction kvs arbitrary: s) (auto simp: wf_put)

lemma get_fold_del:
  "wf s \<Longrightarrow> get (fold del ks s) k = (if k \<in> set ks then None else get s k)"
  by (induction ks arbitrary: s) (auto simp: get_del wf_del)

lemma get_fold_put:
  "get (fold (\<lambda>(k, v). put k v) kvs s) k =
     (case map_of (rev kvs) k of None \<Rightarrow> get s k | Some v \<Rightarrow> Some v)"
  by (induction kvs arbitrary: s)
     (auto simp: get_put map_add_def split: option.splits)

text \<open>Sums over all entries: what an update and a deletion do to a total.\<close>

definition total :: "('k \<Rightarrow> 'v \<Rightarrow> int) \<Rightarrow> 's \<Rightarrow> int" where
  "total f s = sum_list (map (\<lambda>(k, v). f k v) (items s))"

lemma total_set: "wf s \<Longrightarrow> total f s = (\<Sum>(k, v) \<in> set (items s). f k v)"
  unfolding total_def by (rule sum_list_distinct_conv_sum_set) (rule items_distinct)

lemma items_del:
  "wf s \<Longrightarrow> set (items (del k s)) = {(k', v). (k', v) \<in> set (items s) \<and> k' \<noteq> k}"
  by (auto simp: items_get wf_del get_del split: if_splits)

lemma items_put:
  "wf s \<Longrightarrow> set (items (put k v s)) =
     insert (k, v) {(k', v'). (k', v') \<in> set (items s) \<and> k' \<noteq> k}"
  by (auto simp: items_get wf_put get_put split: if_splits)

lemma total_del:
  assumes "wf s"
  shows "total f (del k s) = total f s - (case get s k of None \<Rightarrow> 0 | Some v \<Rightarrow> f k v)"
proof (cases "get s k")
  case None
  then have "set (items (del k s)) = set (items s)"
    using assms by (auto simp: items_del items_get)
  with None assms show ?thesis by (simp add: total_set wf_del)
next
  case (Some v)
  then have "set (items s) = insert (k, v) (set (items (del k s)))"
    and "(k, v) \<notin> set (items (del k s))"
    using assms by (auto simp: items_get wf_del get_del split: if_splits)
  with Some assms show ?thesis by (simp add: total_set wf_del)
qed

lemma total_put:
  assumes "wf s"
  shows "total f (put k v s) =
    total f s - (case get s k of None \<Rightarrow> 0 | Some v' \<Rightarrow> f k v') + f k v"
proof -
  have del: "set (items (del k s)) = {(k', v'). (k', v') \<in> set (items s) \<and> k' \<noteq> k}"
    using assms by (rule items_del)
  have "set (items (put k v s)) = insert (k, v) (set (items (del k s)))"
    using assms by (simp add: items_put del)
  moreover have "(k, v) \<notin> set (items (del k s))" by (simp add: del)
  ultimately have "total f (put k v s) = total f (del k s) + f k v"
    using assms by (simp add: total_set wf_put wf_del)
  then show ?thesis using assms by (simp add: total_del)
qed

lemma total_fold_del:
  assumes "wf s" and "distinct ks"
  shows "total f (fold del ks s) =
    total f s - (\<Sum>k \<leftarrow> ks. case get s k of None \<Rightarrow> 0 | Some v \<Rightarrow> f k v)"
  using assms
proof (induction ks arbitrary: s)
  case (Cons k ks)
  have "(case get (del k s) k' of None \<Rightarrow> 0 | Some v \<Rightarrow> f k' v) =
        (case get s k' of None \<Rightarrow> 0 | Some v \<Rightarrow> f k' v)" if "k' \<in> set ks" for k'
    using Cons.prems that by (auto simp: get_del)
  then have eq: "(\<Sum>k' \<leftarrow> ks. case get (del k s) k' of None \<Rightarrow> 0 | Some v \<Rightarrow> f k' v) =
      (\<Sum>k' \<leftarrow> ks. case get s k' of None \<Rightarrow> 0 | Some v \<Rightarrow> f k' v)"
    by (simp cong: map_cong)
  from Cons show ?case by (simp add: wf_del eq total_del)
qed simp

end

section \<open>Python dictionaries\<close>

type_synonym ('k, 'v) pydict = "('k \<times> 'v) list"

definition dict_get :: "('k, 'v) pydict \<Rightarrow> 'k \<Rightarrow> 'v option" where
  "dict_get d k = map_of d k"

definition dict_put :: "'k \<Rightarrow> 'v \<Rightarrow> ('k, 'v) pydict \<Rightarrow> ('k, 'v) pydict" where
  "dict_put k v d = AList.update k v d"

definition dict_del :: "'k \<Rightarrow> ('k, 'v) pydict \<Rightarrow> ('k, 'v) pydict" where
  "dict_del k d = AList.delete k d"

definition dict_wf :: "('k, 'v) pydict \<Rightarrow> bool" where
  "dict_wf d \<longleftrightarrow> distinct (map fst d)"

text \<open>\<open>d[k]\<close> raises \<open>KeyError\<close> on a missing key.\<close>

definition dict_index :: "('k, 'v) pydict \<Rightarrow> 'k \<Rightarrow> 'v result" where
  "dict_index d k = (case dict_get d k of None \<Rightarrow> Inl PyKeyError | Some v \<Rightarrow> Inr v)"

lemma distinct_keys_distinct: "distinct (map fst t) \<Longrightarrow> distinct t"
  by (simp add: distinct_map)

interpretation dict: kv_store dict_get dict_put dict_del "\<lambda>d. d" dict_wf
  by unfold_locales
     (auto simp: dict_get_def dict_put_def dict_del_def dict_wf_def update_conv' delete_conv'
        distinct_update distinct_delete distinct_keys_distinct intro: map_of_is_SomeI
        dest: map_of_SomeD)

lemma dict_wf_Nil [simp]: "dict_wf []"
  by (simp add: dict_wf_def)

lemma dict_get_Nil [simp]: "dict_get [] k = None"
  by (simp add: dict_get_def)

lemma dict_put_fresh: "dict_get d k = None \<Longrightarrow> dict_put k v d = d @ [(k, v)]"
  by (induction d) (auto simp: dict_get_def dict_put_def split: if_splits)

lemma dict_get_mem: "dict_get d k = Some v \<Longrightarrow> (k, v) \<in> set d"
  by (simp add: dict_get_def map_of_SomeD)

lemma length_dict_put:
  "length (dict_put k v d) = (if dict_get d k = None then Suc (length d) else length d)"
  by (induction d) (auto simp: dict_get_def dict_put_def split: if_splits)

section \<open>SQLite tables\<close>

type_synonym ('k, 'v) sqltable = "('k \<times> 'v) list"

definition sql_select :: "('k, 'v) sqltable \<Rightarrow> 'k \<Rightarrow> 'v option" where
  "sql_select t k = map_of t k"

definition sql_delete :: "'k \<Rightarrow> ('k, 'v) sqltable \<Rightarrow> ('k, 'v) sqltable" where
  "sql_delete k t = filter (\<lambda>row. fst row \<noteq> k) t"

definition sql_replace :: "'k \<Rightarrow> 'v \<Rightarrow> ('k, 'v) sqltable \<Rightarrow> ('k, 'v) sqltable" where
  "sql_replace k v t = sql_delete k t @ [(k, v)]"

definition sql_wf :: "('k, 'v) sqltable \<Rightarrow> bool" where
  "sql_wf t \<longleftrightarrow> distinct (map fst t)"

lemma map_of_filter_key: "map_of (filter (\<lambda>row. fst row \<noteq> k) t) = (map_of t)(k := None)"
  by (induction t) auto

lemma distinct_filter_key:
  "distinct (map fst t) \<Longrightarrow> distinct (map fst (filter P t))"
  by (simp add: distinct_map inj_on_def)

interpretation sql: kv_store sql_select sql_replace sql_delete "\<lambda>t. t" sql_wf
  by unfold_locales
     (auto simp: sql_select_def sql_replace_def sql_delete_def sql_wf_def map_of_filter_key
        distinct_filter_key map_add_def distinct_keys_distinct split: option.splits
        intro: map_of_is_SomeI dest: map_of_SomeD)

lemma sql_wf_Nil [simp]: "sql_wf []"
  by (simp add: sql_wf_def)

lemma sql_select_Nil [simp]: "sql_select [] k = None"
  by (simp add: sql_select_def)

end
