(* ===== verification/Node_Headers.thy ===== *)
theory Node_Headers
  imports P2P_Messages Key_Stores
begin

text \<open>
  \<open>node/headers.py\<close>: the compact target, the 80-byte header, and the header store with its
  longest-chain rule by cumulative work.  The store is passed and returned; \<open>connect\<close> raises
  before it changes anything, so an error carries no store.  The two walks back from the tip are
  loops that end only because heights decrease along parents, so they are partial functions here
  (no result where the loop would not end) and their termination is a theorem about well-formed
  stores.
\<close>

unbundle bit_operations_syntax

definition HEADER_SIZE :: nat where "HEADER_SIZE = 80"

definition header_hash :: "externals \<Rightarrow> bytes \<Rightarrow> bytes result" where
  "header_hash x header80 =
     (if length header80 \<noteq> HEADER_SIZE then raise HeaderError
      else return (double_sha256 x header80))"

section \<open>Targets and work\<close>

definition bits_to_target :: "int \<Rightarrow> int" where
  "bits_to_target bits =
     (let exponent = drop_bit 24 bits; mantissa = bits AND 0x007FFFFF
      in if exponent \<le> 3 then drop_bit (8 * nat (3 - exponent)) mantissa
         else push_bit (8 * nat (exponent - 3)) mantissa)"

definition hash_to_int :: "bytes \<Rightarrow> int" where
  "hash_to_int h = int_from_be (rev h)"

definition work_for_bits :: "int \<Rightarrow> int" where
  "work_for_bits bits =
     (let target = bits_to_target bits
      in if target \<le> 0 then 0 else push_bit 256 1 div (target + 1))"

section \<open>Headers\<close>

record header =
  raw :: bytes
  height :: int
  cumulative_work :: int

definition h_version :: "header \<Rightarrow> int" where
  "h_version h = int_from_le_signed (slice 0 4 (raw h))"

definition h_prev_hash :: "header \<Rightarrow> bytes" where
  "h_prev_hash h = slice 4 36 (raw h)"

definition h_merkle_root :: "header \<Rightarrow> bytes" where
  "h_merkle_root h = slice 36 68 (raw h)"

definition h_timestamp :: "header \<Rightarrow> int" where
  "h_timestamp h = int_from_le (slice 68 72 (raw h))"

definition h_bits :: "header \<Rightarrow> int" where
  "h_bits h = int_from_le (slice 72 76 (raw h))"

definition h_hash :: "externals \<Rightarrow> header \<Rightarrow> bytes result" where
  "h_hash x h = header_hash x (raw h)"

definition h_nonce :: "header \<Rightarrow> int" where
  "h_nonce h = int_from_le (slice 76 80 (raw h))"

definition build_raw_header ::
  "int \<Rightarrow> bytes \<Rightarrow> bytes \<Rightarrow> int \<Rightarrow> int \<Rightarrow> int \<Rightarrow> bytes result" where
  "build_raw_header ver prev root timestamp bits nonce =
     (if length prev \<noteq> 32 then raise HeaderError
      else if length root \<noteq> 32 then raise HeaderError
      else bindR (to_bytes_le_signed 4 ver) (\<lambda>v.
        bindR (to_bytes_le 4 (timestamp AND 0xFFFFFFFF)) (\<lambda>t.
        bindR (to_bytes_le 4 (bits AND 0xFFFFFFFF)) (\<lambda>b.
        bindR (to_bytes_le 4 (nonce AND 0xFFFFFFFF)) (\<lambda>n.
          return (v @ prev @ root @ t @ b @ n))))))"

section \<open>The header store\<close>

record header_store =
  by_hash :: "(bytes, header) pydict"
  tip_hash :: bytes

definition with_genesis :: "externals \<Rightarrow> bytes \<Rightarrow> header_store result" where
  "with_genesis x raw_genesis_header =
     bindR (header_hash x raw_genesis_header) (\<lambda>genesis_h.
       let bits = int_from_le (slice 72 76 raw_genesis_header);
           work = work_for_bits bits
       in return \<lparr>by_hash = dict_put genesis_h
                     \<lparr>raw = raw_genesis_header, height = 0, cumulative_work = work\<rparr> [],
                  tip_hash = genesis_h\<rparr>)"

definition store_tip :: "header_store \<Rightarrow> header result" where
  "store_tip s = dict_index (by_hash s) (tip_hash s)"

definition store_height :: "header_store \<Rightarrow> int result" where
  "store_height s = bindR (dict_index (by_hash s) (tip_hash s)) (\<lambda>h. return (height h))"

definition store_lookup :: "header_store \<Rightarrow> bytes \<Rightarrow> header option" where
  "store_lookup s h = dict_get (by_hash s) h"

definition store_connect ::
  "externals \<Rightarrow> header_store \<Rightarrow> bytes \<Rightarrow> (header \<times> header_store) result" where
  "store_connect x s raw_header =
     (if length raw_header \<noteq> HEADER_SIZE then raise HeaderError
      else bindR (header_hash x raw_header) (\<lambda>h.
        case dict_get (by_hash s) h of
          Some known \<Rightarrow> return (known, s)
        | None \<Rightarrow>
            (case dict_get (by_hash s) (slice 4 36 raw_header) of
               None \<Rightarrow> raise HeaderError
             | Some parent \<Rightarrow>
                 let bits = int_from_le (slice 72 76 raw_header);
                     target = bits_to_target bits
                 in if target \<le> 0 then raise HeaderError
                    else if target < hash_to_int h then raise HeaderError
                    else
                      let work = work_for_bits bits;
                          new_header = \<lparr>raw = raw_header, height = height parent + 1,
                                        cumulative_work = cumulative_work parent + work\<rparr>;
                          s' = s\<lparr>by_hash := dict_put h new_header (by_hash s)\<rparr>
                      in bindR (dict_index (by_hash s') (tip_hash s')) (\<lambda>tip.
                           if cumulative_work tip < cumulative_work new_header
                           then return (new_header, s'\<lparr>tip_hash := h\<rparr>)
                           else return (new_header, s')))))"

text \<open>The loop of \<open>chain_from_tip\<close>: \<open>h\<close> is the loop variable, \<open>out\<close> what was collected.\<close>

partial_function (option) chain_walk ::
  "header_store \<Rightarrow> int option \<Rightarrow> header list \<Rightarrow> header option \<Rightarrow> header list option" where
  "chain_walk s n out h =
     (if h = None then Some out
      else if height (the h) = 0 \<or> (n \<noteq> None \<and> the n \<le> int (length (out @ [the h])))
      then Some (out @ [the h])
      else chain_walk s n (out @ [the h]) (dict_get (by_hash s) (h_prev_hash (the h))))"

definition chain_from_tip :: "header_store \<Rightarrow> int option \<Rightarrow> header list option result" where
  "chain_from_tip s n = bindR (store_tip s) (\<lambda>t. return (chain_walk s n [] (Some t)))"

partial_function (option) height_walk ::
  "header_store \<Rightarrow> int \<Rightarrow> header option \<Rightarrow> header option option" where
  "height_walk s target_height h =
     (if h = None then Some None
      else if height (the h) = target_height then Some h
      else height_walk s target_height (dict_get (by_hash s) (h_prev_hash (the h))))"

definition header_at_height :: "header_store \<Rightarrow> int \<Rightarrow> header option option result" where
  "header_at_height s target_height =
     (if target_height < 0 then return (Some None)
      else bindR (store_height s) (\<lambda>top.
        if top < target_height then return (Some None)
        else bindR (store_tip s) (\<lambda>t. return (height_walk s target_height (Some t)))))"

section \<open>Header fields\<close>

lemma mask32: "n AND 0xFFFFFFFF = n mod 2 ^ 32" for n :: int
  using take_bit_eq_mask [of 32 n] by (simp add: mask_eq_exp_minus_1 take_bit_eq_mod)

lemma build_raw_header_fields:
  assumes "build_raw_header ver prev root ts bits nonce = Inr r"
  shows "length r = 80" "slice 4 36 r = prev" "slice 36 68 r = root"
    "int_from_le_signed (slice 0 4 r) = ver" "int_from_le (slice 68 72 r) = ts mod 2 ^ 32"
    "int_from_le (slice 72 76 r) = bits mod 2 ^ 32" "int_from_le (slice 76 80 r) = nonce mod 2 ^ 32"
proof -
  obtain v t b n where v: "to_bytes_le_signed 4 ver = Inr v"
    and t: "to_bytes_le 4 (ts mod 2 ^ 32) = Inr t" and b: "to_bytes_le 4 (bits mod 2 ^ 32) = Inr b"
    and n: "to_bytes_le 4 (nonce mod 2 ^ 32) = Inr n"
    and len: "length prev = 32" "length root = 32" and r: "r = v @ prev @ root @ t @ b @ n"
    using assms by (auto simp: build_raw_header_def mask32 bindR_eq_Inr split: if_splits)
  note l = from_to_bytes_le_signed [OF v] from_to_bytes_le [OF t] from_to_bytes_le [OF b]
    from_to_bytes_le [OF n]
  show "length r = 80" "slice 4 36 r = prev" "slice 36 68 r = root"
    "int_from_le_signed (slice 0 4 r) = ver" "int_from_le (slice 68 72 r) = ts mod 2 ^ 32"
    "int_from_le (slice 72 76 r) = bits mod 2 ^ 32" "int_from_le (slice 76 80 r) = nonce mod 2 ^ 32"
    using l len by (simp_all add: r slice_def)
qed

lemma build_raw_header_ok:
  assumes "length prev = 32" and "length root = 32" and "- (2 ^ 31) \<le> ver" "ver < 2 ^ 31"
  shows "\<exists>r. build_raw_header ver prev root ts bits nonce = Inr r"
proof -
  have m: "0 \<le> n mod 2 ^ 32" "n mod 2 ^ 32 < 2 ^ (8 * 4)" for n :: int by simp_all
  have b: "\<exists>bs. to_bytes_le 4 (n mod 2 ^ 32) = Inr bs" for n
    using to_bytes_le_ok [OF m] by blast
  have "\<exists>v. to_bytes_le_signed 4 ver = Inr v" using assms by (simp add: to_bytes_le_signed_def)
  with assms(1,2) b [of ts] b [of bits] b [of nonce] show ?thesis
    by (auto simp: build_raw_header_def mask32)
qed

lemma hash_to_int_le: "hash_to_int h = int_from_le h"
  by (simp add: hash_to_int_def int_from_be_def)

lemma work_nonneg: "0 \<le> work_for_bits bits"
  by (simp add: work_for_bits_def Let_def push_bit_eq_mult pos_imp_zdiv_nonneg_iff)

text \<open>A target that fits in 256 bits stands for at least one hash of work.\<close>

lemma work_positive:
  assumes "0 < bits_to_target bits" and "bits_to_target bits < 2 ^ 256"
  shows "0 < work_for_bits bits"
  using assms by (simp add: work_for_bits_def Let_def push_bit_eq_mult pos_imp_zdiv_pos_iff)

lemma bits_to_target_nonneg: "0 \<le> bits_to_target bits"
  by (simp add: bits_to_target_def Let_def)

text \<open>The target as arithmetic: mantissa times a power of 256.\<close>

lemma bits_to_target_eq:
  assumes "0 \<le> bits"
  shows "bits_to_target bits =
    (let e = bits div 2 ^ 24; m = bits mod 2 ^ 23
     in if e \<le> 3 then m div 256 ^ nat (3 - e) else m * 256 ^ nat (e - 3))"
proof -
  have "bits AND 0x007FFFFF = bits mod 2 ^ 23"
    using take_bit_eq_mask [of 23 bits] by (simp add: mask_eq_exp_minus_1 take_bit_eq_mod)
  then show ?thesis
    by (simp add: bits_to_target_def Let_def drop_bit_eq_div push_bit_eq_mult power_mult)
qed

section \<open>Well-formed stores\<close>

text \<open>A stored header is under its own hash; it is the genesis or one block above a stored parent,
  with the parent's work plus its own, and its hash meets its target.\<close>

definition header_linked :: "externals \<Rightarrow> bytes \<Rightarrow> (bytes, header) pydict \<Rightarrow> bytes \<Rightarrow> header \<Rightarrow> bool" where
  "header_linked x g d h hdr \<longleftrightarrow>
     header_hash x (raw hdr) = Inr h \<and> 0 \<le> height hdr \<and>
     (if h = g then height hdr = 0
      else case dict_get d (h_prev_hash hdr) of
             None \<Rightarrow> False
           | Some p \<Rightarrow>
               height hdr = height p + 1 \<and>
               cumulative_work hdr = cumulative_work p + work_for_bits (h_bits hdr) \<and>
               0 < bits_to_target (h_bits hdr) \<and> hash_to_int h \<le> bits_to_target (h_bits hdr))"

definition header_store_wf :: "externals \<Rightarrow> bytes \<Rightarrow> header_store \<Rightarrow> bool" where
  "header_store_wf x g s \<longleftrightarrow>
     dict_wf (by_hash s) \<and> dict_get (by_hash s) g \<noteq> None \<and>
     (\<forall>(h, hdr) \<in> set (by_hash s). header_linked x g (by_hash s) h hdr) \<and>
     (case dict_get (by_hash s) (tip_hash s) of
        None \<Rightarrow> False
      | Some t \<Rightarrow> \<forall>(h, hdr) \<in> set (by_hash s). cumulative_work hdr \<le> cumulative_work t)"

lemma header_store_wfD:
  assumes "header_store_wf x g s"
  shows "dict_wf (by_hash s)"
    and "\<And>h hdr. dict_get (by_hash s) h = Some hdr \<Longrightarrow> header_linked x g (by_hash s) h hdr"
    and "\<exists>t. dict_get (by_hash s) (tip_hash s) = Some t \<and>
      (\<forall>h hdr. dict_get (by_hash s) h = Some hdr \<longrightarrow> cumulative_work hdr \<le> cumulative_work t)"
  using assms
  by (auto simp: header_store_wf_def split: option.splits dest!: dict_get_mem)

lemma header_store_wfI:
  assumes "dict_wf (by_hash s)" and "dict_get (by_hash s) g \<noteq> None"
    and "\<And>h hdr. dict_get (by_hash s) h = Some hdr \<Longrightarrow> header_linked x g (by_hash s) h hdr"
    and "dict_get (by_hash s) (tip_hash s) = Some t"
    and "\<And>h hdr. dict_get (by_hash s) h = Some hdr \<Longrightarrow> cumulative_work hdr \<le> cumulative_work t"
  shows "header_store_wf x g s"
  using assms dict.items_get [OF assms(1)]
  by (auto simp: header_store_wf_def)

lemma with_genesis_wf:
  assumes "with_genesis x r = Inr s"
  shows "header_store_wf x (tip_hash s) s" and "store_height s = Inr 0"
proof -
  obtain g where g: "header_hash x r = Inr g" and
    s: "s = \<lparr>by_hash = dict_put g \<lparr>raw = r, height = 0,
          cumulative_work = work_for_bits (int_from_le (slice 72 76 r))\<rparr> [], tip_hash = g\<rparr>"
    using assms by (auto simp: with_genesis_def bindR_eq_Inr Let_def)
  show "header_store_wf x (tip_hash s) s"
    by (rule header_store_wfI)
       (auto simp: s dict.get_put dict.wf_put header_linked_def g split: if_splits)
  show "store_height s = Inr 0"
    by (simp add: s store_height_def dict_index_def)
qed

text \<open>Connecting preserves well-formedness: in particular the tip always has the most work.\<close>

lemma header_linked_put:
  assumes "header_linked x g d h hdr" and "dict_get d k = None"
  shows "header_linked x g (dict_put k v d) h hdr"
  using assms by (auto simp: header_linked_def dict.get_put split: if_splits option.splits)

lemma store_connect_cases:
  assumes "store_connect x s r = Inr (hdr, s')" and "header_store_wf x g s"
  shows "length r = 80 \<and> header_hash x r = Inr (double_sha256 x r) \<and>
    (s' = s \<and> dict_get (by_hash s) (double_sha256 x r) = Some hdr \<or>
     (\<exists>p t. dict_get (by_hash s) (double_sha256 x r) = None \<and>
        dict_get (by_hash s) (slice 4 36 r) = Some p \<and>
        dict_get (by_hash s) (tip_hash s) = Some t \<and>
        0 < bits_to_target (h_bits hdr) \<and>
        hash_to_int (double_sha256 x r) \<le> bits_to_target (h_bits hdr) \<and>
        raw hdr = r \<and> height hdr = height p + 1 \<and>
        cumulative_work hdr = cumulative_work p + work_for_bits (h_bits hdr) \<and>
        s' = \<lparr>by_hash = dict_put (double_sha256 x r) hdr (by_hash s),
              tip_hash = (if cumulative_work t < cumulative_work hdr then double_sha256 x r
                          else tip_hash s)\<rparr>))"
proof -
  obtain t where t: "dict_get (by_hash s) (tip_hash s) = Some t"
    using header_store_wfD(3) [OF assms(2)] by blast
  show ?thesis
  proof (cases "dict_get (by_hash s) (double_sha256 x r)")
    case None
    then have "tip_hash s \<noteq> double_sha256 x r" using t by auto
    with None t assms(1) show ?thesis
      by (auto simp: store_connect_def header_hash_def HEADER_SIZE_def bindR_eq_Inr Let_def
          dict_index_def dict.get_put h_bits_def split: if_splits option.splits)
  next
    case (Some known)
    with assms(1) show ?thesis
      by (auto simp: store_connect_def header_hash_def HEADER_SIZE_def split: if_splits)
  qed
qed

lemma store_connect_wf:
  assumes "store_connect x s r = Inr (hdr, s')" and "header_store_wf x g s"
  shows "header_store_wf x g s'"
proof -
  note wf = header_store_wfD [OF assms(2)]
  let ?h = "double_sha256 x r"
  from store_connect_cases [OF assms] consider (known) "s' = s"
    | (new) p t where "dict_get (by_hash s) ?h = None" "dict_get (by_hash s) (slice 4 36 r) = Some p"
      "dict_get (by_hash s) (tip_hash s) = Some t" "header_hash x r = Inr ?h"
      "0 < bits_to_target (h_bits hdr)" "hash_to_int ?h \<le> bits_to_target (h_bits hdr)"
      "raw hdr = r" "height hdr = height p + 1"
      "cumulative_work hdr = cumulative_work p + work_for_bits (h_bits hdr)"
      "s' = \<lparr>by_hash = dict_put ?h hdr (by_hash s),
             tip_hash = (if cumulative_work t < cumulative_work hdr then ?h else tip_hash s)\<rparr>"
    by auto
  then show ?thesis
  proof cases
    case known
    with assms(2) show ?thesis by simp
  next
    case new
    have g: "dict_get (by_hash s) g \<noteq> None" using assms(2) by (simp add: header_store_wf_def)
    have max: "cumulative_work k \<le> cumulative_work t" if "dict_get (by_hash s) h = Some k" for h k
      using wf(3) new(3) that by auto
    have "?h \<noteq> g" and "slice 4 36 r \<noteq> ?h" using g new(1,2) by auto
    moreover have "0 \<le> height p" using wf(2) [OF new(2)] by (simp add: header_linked_def)
    ultimately have hdr: "header_linked x g (dict_put ?h hdr (by_hash s)) ?h hdr"
      using new(2,4-9) by (simp add: header_linked_def dict.get_put h_prev_hash_def)
    show ?thesis
    proof (rule header_store_wfI [where t = "if cumulative_work t < cumulative_work hdr then hdr else t"])
      fix h k assume k: "dict_get (by_hash s') h = Some k"
      show "header_linked x g (by_hash s') h k"
      proof (cases "h = ?h")
        case True
        with k hdr show ?thesis by (simp add: new(10))
      next
        case False
        with k have "dict_get (by_hash s) h = Some k" by (simp add: new(10))
        from header_linked_put [OF wf(2) [OF this] new(1)] show ?thesis by (simp add: new(10))
      qed
    next
      fix h k assume k: "dict_get (by_hash s') h = Some k"
      show "cumulative_work k \<le> cumulative_work (if cumulative_work t < cumulative_work hdr then hdr else t)"
      proof (cases "h = ?h")
        case True
        with k show ?thesis by (simp add: new(10))
      next
        case False
        with k have "cumulative_work k \<le> cumulative_work t" by (intro max) (simp add: new(10))
        then show ?thesis by simp
      qed
    next
      show "dict_get (by_hash s') (tip_hash s') = Some (if cumulative_work t < cumulative_work hdr then hdr else t)"
        using new(1,3) by (auto simp: new(10) dict.get_put)
    qed (use wf(1) g in \<open>auto simp: new(10) dict.wf_put dict.get_put\<close>)
  qed
qed

text \<open>Connecting only adds: what was stored stays stored, unchanged.\<close>

lemma store_connect_mono:
  assumes "store_connect x s r = Inr (hdr, s')" and "header_store_wf x g s"
    and "dict_get (by_hash s) h = Some k"
  shows "dict_get (by_hash s') h = Some k"
  using store_connect_cases [OF assms(1,2)] assms(3) by (auto simp: dict.get_put)

lemma store_connect_stored:
  assumes "store_connect x s r = Inr (hdr, s')" and "header_store_wf x g s"
  shows "dict_get (by_hash s') (double_sha256 x r) = Some hdr"
  using store_connect_cases [OF assms] by auto

text \<open>A header that is already stored is returned again and nothing changes.\<close>

lemma store_connect_idempotent:
  assumes "store_connect x s r = Inr (hdr, s')" and "header_store_wf x g s"
  shows "store_connect x s' r = Inr (hdr, s')"
  using store_connect_cases [OF assms] store_connect_stored [OF assms]
  by (auto simp: store_connect_def HEADER_SIZE_def)

section \<open>Walking back from the tip\<close>

text \<open>The ancestors of a stored header down to the genesis: \<open>chain_to d h hs\<close> says that \<open>hs\<close> is
  the list of headers from \<open>h\<close> back to height 0, each the parent of the one before.\<close>

inductive chain_to :: "(bytes, header) pydict \<Rightarrow> header \<Rightarrow> header list \<Rightarrow> bool" where
  genesis: "height h = 0 \<Longrightarrow> chain_to d h [h]"
| step: "height h \<noteq> 0 \<Longrightarrow> dict_get d (h_prev_hash h) = Some p \<Longrightarrow> chain_to d p hs \<Longrightarrow>
    chain_to d h (h # hs)"

inductive_cases chain_to_Cons: "chain_to d h (k # ks)"

lemma chain_to_hd: "chain_to d h hs \<Longrightarrow> \<exists>hs'. hs = h # hs'"
  by (cases rule: chain_to.cases) auto

lemma chain_to_fun: "chain_to d h hs \<Longrightarrow> chain_to d h hs' \<Longrightarrow> hs = hs'"
proof (induction arbitrary: hs' rule: chain_to.induct)
  case (genesis h d)
  from genesis(2,1) show ?case by (cases rule: chain_to.cases) auto
next
  case (step h d p hs)
  from step(5,1,2,4) show ?case by (cases rule: chain_to.cases) auto
qed

lemma stored_parent:
  assumes "header_store_wf x g s" and "dict_get (by_hash s) k = Some h" and "height h \<noteq> 0"
  shows "\<exists>p. dict_get (by_hash s) (h_prev_hash h) = Some p \<and> height h = height p + 1"
  using header_store_wfD(2) [OF assms(1,2)] assms(3)
  by (auto simp: header_linked_def split: if_splits option.splits)

lemma stored_chain:
  assumes "header_store_wf x g s" and "dict_get (by_hash s) k = Some h"
  shows "\<exists>hs. chain_to (by_hash s) h hs \<and> int (length hs) = height h + 1 \<and>
    (\<forall>i < length hs. height (hs ! i) = height h - int i)"
  using assms(2)
proof (induction "nat (height h)" arbitrary: h k)
  case 0
  then have "height h = 0"
    using header_store_wfD(2) [OF assms(1) 0(2)] by (simp add: header_linked_def)
  then show ?case by (intro exI [of _ "[h]"]) (simp add: chain_to.genesis)
next
  case (Suc m)
  have nz: "height h \<noteq> 0" using Suc(2) by auto
  then obtain p where p: "dict_get (by_hash s) (h_prev_hash h) = Some p" "height h = height p + 1"
    using stored_parent [OF assms(1) Suc.prems] by auto
  have "m = nat (height p)" using Suc(2) p(2) by simp
  from Suc(1) [OF this p(1)] obtain hs where hs: "chain_to (by_hash s) p hs"
    "int (length hs) = height p + 1" "\<forall>i < length hs. height (hs ! i) = height p - int i"
    by blast
  then show ?case
    using p nz by (intro exI [of _ "h # hs"])
      (auto simp: nth_Cons intro: chain_to.step split: nat.splits)
qed

lemma chain_walk_eq:
  assumes "chain_to (by_hash s) h hs"
  shows "chain_walk s None out (Some h) = Some (out @ hs)"
  using assms
proof (induction "by_hash s" h hs arbitrary: out rule: chain_to.induct)
  case (genesis h)
  then show ?case by (subst chain_walk.simps) simp
next
  case (step h p hs)
  then show ?case by (subst chain_walk.simps) simp
qed

text \<open>With a bound the walk stops after that many headers (at least one).\<close>

lemma chain_walk_bounded:
  assumes "chain_to (by_hash s) h hs"
  shows "chain_walk s (Some m) out (Some h) =
    Some (out @ take (max 1 (nat (m - int (length out)))) hs)"
  using assms
proof (induction "by_hash s" h hs arbitrary: out rule: chain_to.induct)
  case (genesis h)
  then show ?case by (subst chain_walk.simps) (auto simp: take_Cons' max_def)
next
  case (step h p hs)
  show ?case
  proof (cases "m \<le> int (length (out @ [h]))")
    case True
    then have "max 1 (nat (m - int (length out))) = 1" by simp
    with True step(1) show ?thesis by (subst chain_walk.simps) (simp add: take_Cons')
  next
    case False
    then have "max 1 (nat (m - int (length out))) =
        Suc (max 1 (nat (m - int (length (out @ [h])))))" by simp
    with False step show ?thesis by (subst chain_walk.simps) simp
  qed
qed

lemma chain_from_tip_eq:
  assumes "header_store_wf x g s"
  shows "\<exists>t hs. store_tip s = Inr t \<and> chain_from_tip s None = Inr (Some hs) \<and>
    chain_to (by_hash s) t hs \<and> int (length hs) = height t + 1"
proof -
  obtain t where t: "dict_get (by_hash s) (tip_hash s) = Some t"
    using header_store_wfD(3) [OF assms] by blast
  from stored_chain [OF assms t] chain_walk_eq [of s t _ "[]"] t show ?thesis
    by (auto simp: chain_from_tip_def store_tip_def dict_index_def)
qed

lemma height_walk_eq:
  assumes "chain_to (by_hash s) h hs" and "\<forall>i < length hs. height (hs ! i) = height h - int i"
    and "0 \<le> n" and "n \<le> height h"
  shows "height_walk s n (Some h) = Some (Some (hs ! nat (height h - n)))"
  using assms
proof (induction "by_hash s" h hs rule: chain_to.induct)
  case (genesis h)
  then show ?case by (subst height_walk.simps) simp
next
  case (step h p hs)
  obtain hs' where hs': "hs = p # hs'" using chain_to_hd [OF step(3)] by blast
  have p: "height p = height h - 1"
    using step.prems(1)[rule_format, of 1] by (simp add: hs')
  show ?case
  proof (cases "height h = n")
    case True
    then show ?thesis by (subst height_walk.simps) simp
  next
    case False
    have "\<forall>i < length hs. height (hs ! i) = height p - int i"
      using step.prems(1)[rule_format, of "Suc _"] p by auto
    with step(4) step.prems(2,3) False p
    have "height_walk s n (Some p) = Some (Some (hs ! nat (height p - n)))" by simp
    moreover have "nat (height h - n) = Suc (nat (height p - n))"
      using p step.prems(3) False by simp
    ultimately show ?thesis using False step(2) by (subst height_walk.simps) simp
  qed
qed

lemma header_at_height_eq:
  assumes "header_store_wf x g s"
  shows "\<exists>t hs. store_tip s = Inr t \<and> chain_from_tip s None = Inr (Some hs) \<and>
    (\<forall>n. header_at_height s n =
       (if 0 \<le> n \<and> n \<le> height t then Inr (Some (Some (hs ! nat (height t - n))))
        else Inr (Some None))) \<and>
    (\<forall>i < length hs. height (hs ! i) = height t - int i)"
proof -
  obtain t where t: "dict_get (by_hash s) (tip_hash s) = Some t"
    using header_store_wfD(3) [OF assms] by blast
  obtain hs where hs: "chain_to (by_hash s) t hs" "\<forall>i < length hs. height (hs ! i) = height t - int i"
    using stored_chain [OF assms t] by blast
  have "header_at_height s n =
       (if 0 \<le> n \<and> n \<le> height t then Inr (Some (Some (hs ! nat (height t - n))))
        else Inr (Some None))" for n
    using t height_walk_eq [OF hs, of n]
    by (auto simp: header_at_height_def store_height_def store_tip_def dict_index_def)
  with t hs chain_walk_eq [OF hs(1), of "[]"] show ?thesis
    by (auto simp: chain_from_tip_def store_tip_def dict_index_def)
qed

end
