(* ===== verification/P2P_Facts.thy ===== *)
theory P2P_Facts
  imports P2P_Messages
begin

text \<open>
  The round trips of the wire protocol.  Each serialiser and its parser are a provider of the
  interface \<open>codec\<close> (or \<open>fixed_codec\<close>); the sequences of items follow from the interface.
\<close>

lemmas integer_codecs = from_to_bytes_le from_to_bytes_be

lemma buf_read_exact [simp]: "length xs = n \<Longrightarrow> buf_read n (xs @ rest) = (xs, rest)"
  by (rule buf_read_append)

lemma buf_read_Cons [simp]: "buf_read (Suc 0) (b # rest) = ([b], rest)" "buf_read 1 (b # rest) = ([b], rest)"
  by (simp_all add: buf_read_def)

section \<open>Variable-length integers\<close>

definition valid_varint :: "int \<Rightarrow> bool" where
  "valid_varint n \<longleftrightarrow> 0 \<le> n \<and> n < 2 ^ 64"

lemma encode_varint_range: "encode_varint n = Inr bs \<Longrightarrow> valid_varint n"
  by (auto simp: encode_varint_def valid_varint_def result_simps split: if_splits)

lemma encode_varint_negative: "n < 0 \<Longrightarrow> encode_varint n = Inl P2PError"
  by (simp add: encode_varint_def)

lemma encode_varint_too_large: "2 ^ 64 \<le> n \<Longrightarrow> encode_varint n = Inl PyOverflowError"
  by (simp add: encode_varint_def to_bytes_le_def)

lemma encode_varint_ok: "valid_varint n \<Longrightarrow> \<exists>bs. encode_varint n = Inr bs"
  by (auto simp: encode_varint_def valid_varint_def to_bytes_le_def)

lemma uint_byte_of_int: "0 \<le> n \<Longrightarrow> n < 256 \<Longrightarrow> uint (word_of_int n :: byte) = n"
  by (simp add: uint_word_of_int_eq take_bit_int_eq_self)

lemma read_encode_varint:
  assumes "encode_varint n = Inr bs"
  shows "read_varint (bs @ rest) = Inr (n, rest)"
proof (cases "n < 0xFD")
  case True
  then have n: "0 \<le> n" and bs: "bs = [word_of_int n]"
    using assms by (auto simp: encode_varint_def split: if_splits)
  have "(word_of_int n :: byte) < 0xFD"
    using True n by (simp add: word_less_def uint_byte_of_int)
  with True n show ?thesis by (simp add: read_varint_def bs uint_byte_of_int)
next
  case False
  then obtain w p body where body: "to_bytes_le w n = Inr body" and bs: "bs = p # body"
    and w: "w = (if p = 0xFD then 2 else if p = (0xFE :: byte) then 4 else 8)" and p: "\<not> p < 0xFD"
    using assms by (auto simp: encode_varint_def bindR_eq_Inr split: if_splits)
  from from_to_bytes_le [OF body] p show ?thesis
    by (simp add: read_varint_def bs Let_def flip: w)
qed

interpretation varint: codec encode_varint read_varint valid_varint
  by unfold_locales (auto intro: encode_varint_ok read_encode_varint)

text \<open>The shortest of the four forms is the one that is written.\<close>

lemma encode_varint_length:
  assumes "encode_varint n = Inr bs"
  shows "length bs = (if n < 0xFD then 1 else if n \<le> 0xFFFF then 3 else if n \<le> 0xFFFFFFFF then 5 else 9)"
  using assms by (auto simp: encode_varint_def result_simps split: if_splits)

lemma read_var_bytes_encode:
  assumes "encode_var_bytes b = Inr bs" and "int (length b) \<le> cap"
  shows "read_var_bytes (bs @ rest) cap = Inr (b, rest)"
proof -
  obtain p where "encode_varint (int (length b)) = Inr p" and bs: "bs = p @ b"
    using assms(1) by (auto simp: encode_var_bytes_def bindR_eq_Inr)
  from read_encode_varint [OF this(1)] assms(2) show ?thesis
    by (simp add: read_var_bytes_def bs)
qed

interpretation var_bytes: codec encode_var_bytes "\<lambda>buf. read_var_bytes buf MAX_MESSAGE_SIZE"
    "\<lambda>b. int (length b) \<le> MAX_MESSAGE_SIZE"
proof unfold_locales
  fix b :: bytes assume "int (length b) \<le> MAX_MESSAGE_SIZE"
  then have "valid_varint (int (length b))" by (simp add: valid_varint_def MAX_MESSAGE_SIZE_def)
  from encode_varint_ok [OF this] show "\<exists>bs. encode_var_bytes b = Inr bs"
    by (auto simp: encode_var_bytes_def)
qed (rule read_var_bytes_encode)

section \<open>Frames\<close>

definition valid_frame :: "frame \<Rightarrow> bool" where
  "valid_frame f \<longleftrightarrow>
     length (frame_magic f) = 4 \<and> length (frame_command f) \<le> 12 \<and>
     (\<forall>c \<in> set (frame_command f). c < 128) \<and>
     (frame_command f \<noteq> [] \<longrightarrow> last (frame_command f) \<noteq> 0) \<and>
     int (length (frame_payload f)) \<le> MAX_MESSAGE_SIZE"

lemma rstrip_nul_pad:
  assumes "b = [] \<or> last b \<noteq> 0"
  shows "rstrip_nul (b @ replicate n 0) = b"
proof -
  have "dropWhile (\<lambda>c. c = 0) (replicate n 0 @ rev b) = dropWhile (\<lambda>c. c = 0) (rev b)"
    by (induction n) simp_all
  also have "\<dots> = rev b" using assms by (cases b rule: rev_cases) auto
  finally show ?thesis by (simp add: rstrip_nul_def)
qed

lemma decode_encode_ascii:
  assumes "\<forall>c \<in> set s. c < 128"
  shows "decode_ascii_replace (map word_of_nat s) = s"
proof -
  have "(if (word_of_nat c :: byte) < 128 then unat (word_of_nat c :: byte) else 0xFFFD) = c"
    if "c < 128" for c
    using that by (simp add: word_less_nat_alt unat_byte_of_nat)
  with assms show ?thesis
    by (simp add: decode_ascii_replace_def map_idI cong: map_cong)
qed

lemma slice_middle: "length a = i \<Longrightarrow> length b = j - i \<Longrightarrow> slice i j (a @ b @ c) = b"
  by (simp add: slice_def)

lemma frame_bytes:
  assumes "valid_frame f" and "frame_serialise x f = Inr bs"
  obtains len where "to_bytes_le 4 (int (length (frame_payload f))) = Inr len" and
    "bs = frame_magic f @ (map word_of_nat (frame_command f) @
        replicate (12 - length (frame_command f)) 0) @ len @
        take 4 (double_sha256 x (frame_payload f)) @ frame_payload f"
  using assms
  by (auto simp: frame_serialise_def valid_frame_def encode_ascii_def bindR_eq_Inr Let_def)

lemma frame_serialise_ok:
  assumes "valid_frame f"
  shows "\<exists>bs. frame_serialise x f = Inr bs"
  using assms
  by (auto simp: frame_serialise_def valid_frame_def encode_ascii_def to_bytes_le_def
      MAX_MESSAGE_SIZE_def)

lemma parse_frame_serialise:
  assumes "valid_frame f" and "frame_serialise x f = Inr bs"
    and "4 \<le> length (double_sha256 x (frame_payload f))"
    and "magic = None \<or> magic = Some (frame_magic f)"
  shows "parse_frame x (bs @ rest) magic = Inr (f, length bs)"
proof -
  note v = assms(1) [unfolded valid_frame_def]
  let ?P = "frame_payload f"
  let ?cmd = "map word_of_nat (frame_command f) @ replicate (12 - length (frame_command f)) (0 :: byte)"
  let ?ck = "take 4 (double_sha256 x ?P)"
  obtain len where len: "to_bytes_le 4 (int (length ?P)) = Inr len"
    and bs: "bs = frame_magic f @ ?cmd @ len @ ?ck @ ?P"
    using frame_bytes [OF assms(1,2)] .
  have ll: "length len = 4" "int_from_le len = int (length ?P)"
    using from_to_bytes_le [OF len] by auto
  have lc: "length ?cmd = 12" using v by simp
  have lck: "length ?ck = 4" using assms(3) by simp
  let ?d = "bs @ rest"
  have s1: "take 4 ?d = frame_magic f" using v by (simp add: bs)
  have s2: "slice 4 16 ?d = ?cmd"
    unfolding bs using v lc by (simp only: append_assoc slice_middle [of "frame_magic f"]) (simp add: slice_def)
  have s3: "slice 16 20 ?d = len"
    using slice_middle [of "frame_magic f @ ?cmd" 16 len 20] v lc ll by (simp add: bs)
  have s4: "slice 20 24 ?d = ?ck"
    using slice_middle [of "frame_magic f @ ?cmd @ len" 20 ?ck 24] v lc ll lck by (simp add: bs)
  have s5: "slice 24 (24 + length ?P) ?d = ?P"
    using slice_middle [of "frame_magic f @ ?cmd @ len @ ?ck" 24 ?P "24 + length ?P"] v lc ll lck
    by (simp add: bs)
  have lb: "length bs = 24 + length ?P" using v lc ll lck by (simp add: bs)
  have cmd: "decode_ascii_replace (rstrip_nul ?cmd) = frame_command f"
  proof -
    have "last (map word_of_nat (frame_command f)) \<noteq> (0 :: byte)" if ne: "frame_command f \<noteq> []"
    proof -
      have "last (frame_command f) < 128" using v last_in_set [OF ne] by blast
      then have "last (frame_command f) mod 256 = last (frame_command f)" by simp
      with v ne show ?thesis by (simp add: last_map word_unat_eq_iff unat_byte_of_nat)
    qed
    then have "rstrip_nul ?cmd = map word_of_nat (frame_command f)"
      by (intro rstrip_nul_pad) auto
    with v show ?thesis by (simp add: decode_encode_ascii)
  qed
  show ?thesis
    unfolding parse_frame_def P2P_HEADER_SIZE_def Let_def s1 s2 s3 s4 ll cmd nat_int s5
    using assms(4) v lb by auto
qed

section \<open>Fixed-width items\<close>

definition valid_net_addr :: "net_addr \<Rightarrow> bool" where
  "valid_net_addr a \<longleftrightarrow>
     0 \<le> na_services a \<and> na_services a < 2 ^ 64 \<and> length (na_ip a) = 16 \<and>
     0 \<le> na_port a \<and> na_port a < 2 ^ 16"

interpretation net_addr: fixed_codec "\<lambda>a. net_addr_serialise a None" "\<lambda>buf. net_addr_parse buf False"
    valid_net_addr 26
proof unfold_locales
  fix a assume "valid_net_addr a"
  then show "\<exists>bs. net_addr_serialise a None = Inr bs"
    by (simp add: net_addr_serialise_def valid_net_addr_def to_bytes_be_def to_bytes_le_ok)
next
  fix a bs rest assume a: "valid_net_addr a" and s: "net_addr_serialise a None = Inr bs"
  then obtain sv p where sv: "to_bytes_le 8 (na_services a) = Inr sv"
    and p: "to_bytes_be 2 (na_port a) = Inr p" and bs: "bs = sv @ na_ip a @ p"
    by (auto simp: net_addr_serialise_def valid_net_addr_def bindR_eq_Inr)
  note l = from_to_bytes_le [OF sv] from_to_bytes_be [OF p]
  with a show "net_addr_parse (bs @ rest) False = Inr (a, rest)"
    by (simp add: net_addr_parse_def bs valid_net_addr_def)
next
  fix a bs assume "valid_net_addr a" and "net_addr_serialise a None = Inr bs"
  then show "length bs = 26"
    by (auto simp: net_addr_serialise_def valid_net_addr_def bindR_eq_Inr
        dest!: from_to_bytes_le from_to_bytes_be)
qed

definition valid_inv :: "inv_vector \<Rightarrow> bool" where
  "valid_inv v \<longleftrightarrow> length (inv_hash v) = 32 \<and> 0 \<le> inv_type v \<and> inv_type v < 2 ^ 32"

interpretation inv: fixed_codec inv_serialise inv_parse valid_inv 36
proof unfold_locales
  fix v bs rest assume v: "valid_inv v" and s: "inv_serialise v = Inr bs"
  then obtain t where t: "to_bytes_le 4 (inv_type v) = Inr t" and bs: "bs = t @ inv_hash v"
    by (auto simp: inv_serialise_def valid_inv_def bindR_eq_Inr)
  from from_to_bytes_le [OF t] v show "inv_parse (bs @ rest) = Inr (v, rest)" and "length bs = 36"
    by (simp_all add: inv_parse_def bs valid_inv_def)
qed (simp add: inv_serialise_def valid_inv_def to_bytes_le_ok)

interpretation locator: fixed_codec locator_serialise "\<lambda>buf. return (buf_read 32 buf)"
    "\<lambda>h. length h = 32" 32
  by unfold_locales (auto simp: locator_serialise_def split: if_splits)

lemma read_varint_zero: "read_varint (0 # rest) = Inr (0, rest)"
  by (simp add: read_varint_def)

interpretation header_entry: fixed_codec header_entry_serialise header_entry_parse
    "\<lambda>h. length h = 80" 81
  by unfold_locales
     (auto simp: header_entry_serialise_def header_entry_parse_def read_varint_zero split: if_splits)

section \<open>Message bodies\<close>

lemma parse_encode_inv:
  assumes "encode_inv vs = Inr bs" and "\<And>v. v \<in> set vs \<Longrightarrow> valid_inv v"
  shows "parse_inv bs = Inr vs"
proof -
  obtain p body where p: "encode_varint (int (length vs)) = Inr p"
    and body: "encode_all inv_serialise vs = Inr body" and bs: "bs = p @ body"
    using assms(1) by (auto simp: encode_inv_def bindR_eq_Inr)
  from inv.parse_n_encode_all [OF assms(2) body, of "[]"] read_encode_varint [OF p]
  show ?thesis by (simp add: parse_inv_def bs)
qed

lemma headers_roundtrip:
  assumes "headers_serialise hs = Inr bs"
  shows "headers_parse bs = Inr hs"
proof -
  obtain p body where p: "encode_varint (int (length hs)) = Inr p"
    and body: "encode_all header_entry_serialise hs = Inr body" and bs: "bs = p @ body"
    using assms by (auto simp: headers_serialise_def bindR_eq_Inr)
  have "length h = 80" if "h \<in> set hs" for h
    using body that by (auto simp: encode_all_eq bindR_eq_Inr mapR_Inr_all2 header_entry_serialise_def
        list_all2_conv_all_nth in_set_conv_nth split: if_splits)
  from header_entry.parse_n_encode_all [OF this body, of "[]"] read_encode_varint [OF p]
  show ?thesis by (simp add: headers_parse_def bs)
qed

lemma getheaders_roundtrip:
  assumes "getheaders_serialise m = Inr bs"
  shows "getheaders_parse bs = Inr m"
proof -
  obtain a p body where a: "to_bytes_le 4 (gh_version m) = Inr a"
    and p: "encode_varint (int (length (gh_locator m))) = Inr p"
    and body: "encode_all locator_serialise (gh_locator m) = Inr body"
    and stop: "length (gh_hash_stop m) = 32" and bs: "bs = a @ p @ body @ gh_hash_stop m"
    using assms by (auto simp: getheaders_serialise_def bindR_eq_Inr split: if_splits)
  have len: "length h = 32" if "h \<in> set (gh_locator m)" for h
    using body that by (auto simp: encode_all_eq bindR_eq_Inr mapR_Inr_all2 locator_serialise_def
        list_all2_conv_all_nth in_set_conv_nth split: if_splits)
  have chk: "check_all (\<lambda>h. if length h \<noteq> 32 then raise P2PError else return ()) (gh_locator m) = Inr ()"
    by (rule check_all_ok) (simp add: len)
  have "buf_read 32 (gh_hash_stop m) = (gh_hash_stop m, [])"
    using stop by (simp add: buf_read_def)
  with locator.parse_n_encode_all [OF len body, of "gh_hash_stop m"] read_encode_varint [OF p]
    from_to_bytes_le [OF a] stop chk
  show ?thesis by (simp add: getheaders_parse_def bs)
qed

lemma ping_roundtrip: "ping_serialise n = Inr bs \<Longrightarrow> ping_parse (bs @ rest) = Inr n"
  using from_to_bytes_le [of 8 n bs] by (simp add: ping_serialise_def ping_parse_def)

definition valid_version_message :: "version_message \<Rightarrow> bool" where
  "valid_version_message m \<longleftrightarrow>
     length (na_ip (vm_addr_recv m)) = 16 \<and> length (na_ip (vm_addr_from m)) = 16 \<and>
     int (length (vm_user_agent m)) \<le> MAX_MESSAGE_SIZE"

lemma net_addr_serialise_valid:
  "net_addr_serialise a None = Inr bs \<Longrightarrow> length (na_ip a) = 16 \<Longrightarrow> valid_net_addr a"
  by (auto simp: net_addr_serialise_def valid_net_addr_def to_bytes_be_def result_simps)

lemma version_roundtrip:
  assumes "version_serialise m = Inr bs" and "valid_version_message m"
  shows "version_parse bs = Inr m"
proof -
  note v = assms(2) [unfolded valid_version_message_def]
  obtain a b c d e f g h where
    abc: "to_bytes_le_signed 4 (vm_version m) = Inr a" "to_bytes_le 8 (vm_services m) = Inr b"
      "to_bytes_le_signed 8 (vm_timestamp m) = Inr c" and
    d: "net_addr_serialise (vm_addr_recv m) None = Inr d" and
    e: "net_addr_serialise (vm_addr_from m) None = Inr e" and
    f: "to_bytes_le 8 (vm_nonce m) = Inr f" and
    g: "encode_var_bytes (vm_user_agent m) = Inr g" and
    h: "to_bytes_le_signed 4 (vm_start_height m) = Inr h" and
    bs: "bs = a @ b @ c @ d @ e @ f @ g @ h @ [if vm_relay m then 1 else 0]"
    using assms(1) by (auto simp: version_serialise_def bindR_eq_Inr)
  note l = from_to_bytes_le_signed [OF abc(1)] from_to_bytes_le [OF abc(2)]
    from_to_bytes_le_signed [OF abc(3)] from_to_bytes_le [OF f] from_to_bytes_le_signed [OF h]
  have na: "valid_net_addr (vm_addr_recv m)" "valid_net_addr (vm_addr_from m)"
    using v d e by (auto intro: net_addr_serialise_valid)
  show ?thesis
    using l v
    by (simp add: version_parse_def bs net_addr.dec_enc [OF na(1) d] net_addr.dec_enc [OF na(2) e]
        read_var_bytes_encode [OF g])
qed

end
