(* ===== verification/Node_Block.thy ===== *)
theory Node_Block
  imports Node_Headers P2P_Facts
begin

text \<open>
  \<open>node/block.py\<close>: the merkle root and the block on the wire.  The inner loop pairs the entries of
  a level; the outer loop ends because a level of more than one entry shrinks.
\<close>

section \<open>The merkle root\<close>

fun hash_pairs :: "externals \<Rightarrow> bytes list \<Rightarrow> bytes list" where
  "hash_pairs x (a # b # rest) = double_sha256 x (a @ b) # hash_pairs x rest"
| "hash_pairs x _ = []"

definition pad_level :: "bytes list \<Rightarrow> bytes list" where
  "pad_level level = (if odd (length level) then level @ [last level] else level)"

lemma length_hash_pairs: "length (hash_pairs x l) = length l div 2"
  by (induction x l rule: hash_pairs.induct) simp_all

function merkle_levels :: "externals \<Rightarrow> bytes list \<Rightarrow> bytes list" where
  "merkle_levels x level =
     (if 1 < length level then merkle_levels x (hash_pairs x (pad_level level)) else level)"
  by pat_completeness auto
termination
  by (relation "measure (\<lambda>(_, l). length l)") (auto simp: length_hash_pairs pad_level_def elim!: oddE)

declare merkle_levels.simps [simp del]

definition merkle_root :: "externals \<Rightarrow> bytes list \<Rightarrow> bytes" where
  "merkle_root x txids =
     (if txids = [] then replicate 32 0 else hd (merkle_levels x txids))"

section \<open>Blocks\<close>

definition serialise_block :: "externals \<Rightarrow> bytes \<Rightarrow> tx list \<Rightarrow> bytes result" where
  "serialise_block x hdr txs =
     (if length hdr \<noteq> HEADER_SIZE then raise PyValueError
      else bindR (encode_varint (int (length txs))) (\<lambda>n.
           bindR (encode_all (\<lambda>t. return (x_tx_bytes x t)) txs) (\<lambda>body.
             return (hdr @ n @ body))))"

definition parse_block :: "externals \<Rightarrow> bytes \<Rightarrow> (bytes \<times> tx list) result" where
  "parse_block x block =
     (if length block < HEADER_SIZE then raise PyValueError
      else
        let hdr = take HEADER_SIZE block
        in bindR (read_varint (drop HEADER_SIZE block)) (\<lambda>(n, buf).
           bindR (parse_n (x_tx_read x) (nat n) buf) (\<lambda>(txs, _). return (hdr, txs))))"

text \<open>What \<open>bitcoinx\<close> documents of \<open>Tx.read\<close> and \<open>Tx.to_bytes\<close>, for one transaction.\<close>

definition reads_back :: "externals \<Rightarrow> tx \<Rightarrow> bool" where
  "reads_back x t \<longleftrightarrow> (\<forall>rest. x_tx_read x (x_tx_bytes x t @ rest) = Inr (t, rest))"

interpretation tx_codec: codec "\<lambda>t. Inr (x_tx_bytes x t)" "x_tx_read x" "reads_back x" for x
  by unfold_locales (auto simp: reads_back_def)

lemma parse_serialise_block:
  assumes "serialise_block x hdr txs = Inr bs" and "\<And>t. t \<in> set txs \<Longrightarrow> reads_back x t"
  shows "parse_block x (bs @ rest) = Inr (hdr, txs)"
proof -
  obtain n body where n: "encode_varint (int (length txs)) = Inr n"
    and body: "encode_all (\<lambda>t. return (x_tx_bytes x t)) txs = Inr body"
    and len: "length hdr = 80" and bs: "bs = hdr @ n @ body"
    using assms(1) by (auto simp: serialise_block_def HEADER_SIZE_def bindR_eq_Inr split: if_splits)
  have "read_varint (n @ body @ rest) = Inr (int (length txs), body @ rest)"
    by (rule read_encode_varint [OF n])
  with tx_codec.parse_n_encode_all [OF assms(2) body, of rest] len show ?thesis
    by (simp add: parse_block_def HEADER_SIZE_def bs)
qed

section \<open>The merkle root commits to the list\<close>

lemma merkle_levels_short [simp]:
  "merkle_levels x [] = []" "merkle_levels x [a] = [a]"
  by (subst merkle_levels.simps, simp)+

lemma merkle_levels_step:
  "1 < length l \<Longrightarrow> merkle_levels x l = merkle_levels x (hash_pairs x (pad_level l))"
  by (subst merkle_levels.simps) simp

lemma length_pad_level: "length (pad_level l) = 2 * ((length l + 1) div 2)"
  by (auto simp: pad_level_def elim!: oddE evenE)

lemma length_level: "length (hash_pairs x (pad_level l)) = (length l + 1) div 2"
  by (simp add: length_hash_pairs length_pad_level)

lemma merkle_levels_singleton:
  "l \<noteq> [] \<Longrightarrow> \<exists>r. merkle_levels x l = [r]"
proof (induction "length l" arbitrary: l rule: less_induct)
  case less
  show ?case
  proof (cases "1 < length l")
    case True
    then have "length (hash_pairs x (pad_level l)) < length l" and "hash_pairs x (pad_level l) \<noteq> []"
      using length_level [of x l] by (auto simp flip: length_greater_0_conv)
    from less(1) [OF this] merkle_levels_step [OF True] show ?thesis by simp
  next
    case False
    with less(2) obtain a where "l = [a]" by (cases l) auto
    then show ?thesis by simp
  qed
qed

lemma merkle_root_singleton [simp]: "merkle_root x [a] = a"
  by (simp add: merkle_root_def)

text \<open>The byte strings the computation hashes, level by level.\<close>

fun pair_preimages :: "bytes list \<Rightarrow> bytes list" where
  "pair_preimages (a # b # rest) = (a @ b) # pair_preimages rest"
| "pair_preimages _ = []"

lemma hash_pairs_eq: "hash_pairs x l = map (double_sha256 x) (pair_preimages l)"
  by (induction x l rule: hash_pairs.induct) simp_all

function merkle_preimages :: "externals \<Rightarrow> bytes list \<Rightarrow> bytes list" where
  "merkle_preimages x level =
     (if 1 < length level
      then pair_preimages (pad_level level) @ merkle_preimages x (hash_pairs x (pad_level level))
      else [])"
  by pat_completeness auto
termination
  by (relation "measure (\<lambda>(_, l). length l)") (auto simp: length_hash_pairs pad_level_def elim!: oddE)

declare merkle_preimages.simps [simp del]

lemma pair_preimages_inj:
  assumes "pair_preimages as = pair_preimages bs" and "length as = length bs" and "even (length as)"
    and "\<forall>a \<in> set as. length a = w" and "\<forall>b \<in> set bs. length b = w"
  shows "as = bs"
  using assms
proof (induction as arbitrary: bs rule: pair_preimages.induct)
  case (1 a1 a2 as)
  then obtain b1 b2 bs' where bs: "bs = b1 # b2 # bs'"
    by (metis length_Suc_conv length_Cons)
  have "as = bs'" using 1 bs by auto
  with 1 bs show ?case by simp
qed auto

lemma pad_level_inj:
  assumes "pad_level as = pad_level bs" and "length as = length bs"
  shows "as = bs"
  using assms by (auto simp: pad_level_def split: if_splits)

lemma pad_level_set: "l \<noteq> [] \<Longrightarrow> set (pad_level l) = set l"
  by (auto simp: pad_level_def)

lemma hash_pairs_width:
  assumes "\<And>d. length (double_sha256 x d) = w" and "h \<in> set (hash_pairs x l)"
  shows "length h = w"
  using assms by (induction x l rule: hash_pairs.induct) auto

lemma hash_pairs_inj:
  assumes "hash_pairs x as = hash_pairs x bs"
    and "inj_on (double_sha256 x) (set (pair_preimages as) \<union> set (pair_preimages bs))"
    and "length as = length bs" and "even (length as)"
    and "\<forall>a \<in> set as. length a = w" and "\<forall>b \<in> set bs. length b = w"
  shows "as = bs"
proof -
  have "pair_preimages as = pair_preimages bs"
    using assms(1,2) unfolding hash_pairs_eq by (rule map_inj_on)
  from this assms(3-6) show ?thesis by (rule pair_preimages_inj)
qed

lemma merkle_levels_inj:
  assumes "merkle_levels x as = merkle_levels x bs" and "length as = length bs"
    and "\<And>d. length (double_sha256 x d) = w"
    and "\<forall>a \<in> set as. length a = w" and "\<forall>b \<in> set bs. length b = w"
    and "inj_on (double_sha256 x) (set (merkle_preimages x as) \<union> set (merkle_preimages x bs))"
  shows "as = bs"
  using assms(1,2,4,5,6)
proof (induction "length as" arbitrary: as bs rule: less_induct)
  case less
  show ?case
  proof (cases "1 < length as")
    case False
    then consider "as = []" "bs = []" | a b where "as = [a]" "bs = [b]"
      using less(3) by (cases as; cases bs) auto
    then show ?thesis using less(2) by cases auto
  next
    case True
    let ?A = "hash_pairs x (pad_level as)" and ?B = "hash_pairs x (pad_level bs)"
    have ne: "as \<noteq> []" "bs \<noteq> []" and True': "1 < length bs" using True less(3) by auto
    have shorter: "length ?A < length as" using True by (simp add: length_level)
    have levels: "merkle_levels x ?A = merkle_levels x ?B"
      using less(2) merkle_levels_step [OF True, of x] merkle_levels_step [OF True', of x] by simp
    have len: "length ?A = length ?B" using less(3) by (simp add: length_level)
    have w: "\<forall>a \<in> set (hash_pairs x l). length a = w" for l
      using hash_pairs_width [OF assms(3)] by blast
    have pre: "set (merkle_preimages x l) =
        set (pair_preimages (pad_level l)) \<union> set (merkle_preimages x (hash_pairs x (pad_level l)))"
      if "1 < length l" for l
      using that by (subst merkle_preimages.simps) simp
    note inj = less(6) [unfolded pre [OF True] pre [OF True']]
    have "?A = ?B"
      by (rule less(1) [OF shorter levels len w w]) (rule inj_on_subset [OF inj], blast)
    moreover have "inj_on (double_sha256 x)
        (set (pair_preimages (pad_level as)) \<union> set (pair_preimages (pad_level bs)))"
      by (rule inj_on_subset [OF inj]) blast
    moreover have "length (pad_level as) = length (pad_level bs)" "even (length (pad_level as))"
      using less(3) by (simp_all add: length_pad_level)
    moreover have "\<forall>a \<in> set (pad_level as). length a = w" "\<forall>b \<in> set (pad_level bs). length b = w"
      using less(4,5) ne by (simp_all add: pad_level_set)
    ultimately have "pad_level as = pad_level bs" by (rule hash_pairs_inj)
    then show ?thesis using less(3) by (rule pad_level_inj)
  qed
qed

lemma merkle_root_injective:
  assumes "merkle_root x as = merkle_root x bs" and "length as = length bs"
    and "\<And>d. length (double_sha256 x d) = 32"
    and "\<forall>a \<in> set as. length a = 32" and "\<forall>b \<in> set bs. length b = 32"
    and "inj_on (double_sha256 x) (set (merkle_preimages x as) \<union> set (merkle_preimages x bs))"
  shows "as = bs"
proof (cases "as = []")
  case False
  then have ne: "bs \<noteq> []" using assms(2) by auto
  have "merkle_levels x as = merkle_levels x bs"
    using assms(1) False ne merkle_levels_singleton [OF False, of x] merkle_levels_singleton [OF ne, of x]
    by (auto simp: merkle_root_def)
  from merkle_levels_inj [OF this assms(2-6)] show ?thesis .
qed (use assms(2) in simp)

text \<open>What the root does not tell apart: a list of odd length and the same list with its last
  entry repeated.\<close>

lemma merkle_root_duplicate_last:
  assumes "odd (length l)" and "1 < length l"
  shows "merkle_root x (l @ [last l]) = merkle_root x l"
proof -
  have "pad_level (l @ [last l]) = pad_level l" using assms(1) by (simp add: pad_level_def)
  then have "merkle_levels x (l @ [last l]) = merkle_levels x l"
    using assms(2) merkle_levels_step [of "l @ [last l]" x] merkle_levels_step [OF assms(2), of x]
    by fastforce
  then show ?thesis using assms(2) by (auto simp: merkle_root_def)
qed

end
