(* ===== verification/Node_Blockstore.thy ===== *)
theory Node_Blockstore
  imports Bitcoinx Key_Stores
begin

text \<open>
  \<open>node/blockstore.py\<close>: the tables of blocks and of unspent outputs.  A row of the UTXO table is
  kept under its primary key; the statements of one SQLite transaction are composed into one
  function.  SQLite's 64-bit range is not modelled: values, indexes and heights are integers.
\<close>

section \<open>Entries and tables\<close>

type_synonym utxo_row = "int \<times> bytes \<times> int"

record utxo_entry =
  ue_txid :: bytes
  ue_vout :: int
  ue_value :: int
  ue_script :: bytes
  ue_height :: int

definition as_txoutput :: "externals \<Rightarrow> utxo_entry \<Rightarrow> txoutput" where
  "as_txoutput x e = TxOutput (ue_value e) (x_script_of_bytes x (ue_script e))"

record blockstore =
  bs_blocks :: "(bytes, int \<times> bytes) sqltable"
  bs_utxos :: "(outpoint, utxo_row) sqltable"

definition empty_blockstore :: blockstore where
  "empty_blockstore = \<lparr>bs_blocks = [], bs_utxos = []\<rparr>"

definition entry_of_row :: "outpoint \<Rightarrow> utxo_row \<Rightarrow> utxo_entry" where
  "entry_of_row op row =
     \<lparr>ue_txid = fst op, ue_vout = snd op, ue_value = fst row, ue_script = fst (snd row),
      ue_height = snd (snd row)\<rparr>"

definition row_of_entry :: "utxo_entry \<Rightarrow> utxo_row" where
  "row_of_entry e = (ue_value e, ue_script e, ue_height e)"

section \<open>Operations\<close>

definition store_block :: "bytes \<Rightarrow> int \<Rightarrow> bytes \<Rightarrow> blockstore \<Rightarrow> blockstore" where
  "store_block block_hash h raw_block s =
     s\<lparr>bs_blocks := sql_replace block_hash (h, raw_block) (bs_blocks s)\<rparr>"

definition get_block :: "blockstore \<Rightarrow> bytes \<Rightarrow> bytes option" where
  "get_block s block_hash = map_option snd (sql_select (bs_blocks s) block_hash)"

definition block_height :: "blockstore \<Rightarrow> bytes \<Rightarrow> int option" where
  "block_height s block_hash = map_option fst (sql_select (bs_blocks s) block_hash)"

definition add_utxo :: "utxo_entry \<Rightarrow> blockstore \<Rightarrow> blockstore" where
  "add_utxo e s =
     s\<lparr>bs_utxos := sql_replace (ue_txid e, ue_vout e) (row_of_entry e) (bs_utxos s)\<rparr>"

definition get_utxo :: "blockstore \<Rightarrow> outpoint \<Rightarrow> utxo_entry option" where
  "get_utxo s op = map_option (entry_of_row op) (sql_select (bs_utxos s) op)"

definition spend_utxo :: "outpoint \<Rightarrow> blockstore \<Rightarrow> utxo_entry option \<times> blockstore" where
  "spend_utxo op s =
     (case sql_select (bs_utxos s) op of
        None \<Rightarrow> (None, s)
      | Some row \<Rightarrow> (Some (entry_of_row op row), s\<lparr>bs_utxos := sql_delete op (bs_utxos s)\<rparr>))"

definition utxos_for_script :: "blockstore \<Rightarrow> bytes \<Rightarrow> utxo_entry list" where
  "utxos_for_script s script =
     map (\<lambda>(op, row). entry_of_row op row)
       (filter (\<lambda>(op, row). fst (snd row) = script) (bs_utxos s))"

definition utxo_count :: "blockstore \<Rightarrow> int" where
  "utxo_count s = int (length (bs_utxos s))"

text \<open>\<open>enumerate(tx.outputs)\<close> as the rows a transaction creates.\<close>

definition created_rows :: "externals \<Rightarrow> int \<Rightarrow> tx \<Rightarrow> (outpoint \<times> utxo_row) list" where
  "created_rows x h t =
     map (\<lambda>(i, out). ((x_txid x t, int i), (out_value out, x_script_bytes x (script_pubkey out), h)))
       (List.enumerate 0 (tx_outputs t))"

definition spent_outpoints :: "externals \<Rightarrow> tx \<Rightarrow> outpoint list" where
  "spent_outpoints x t = (if x_is_coinbase x t then [] else map outpoint_of (tx_inputs t))"

definition connect_tx_rows ::
  "externals \<Rightarrow> int \<Rightarrow> tx \<Rightarrow> (outpoint, utxo_row) sqltable \<Rightarrow> (outpoint, utxo_row) sqltable" where
  "connect_tx_rows x h t tbl =
     fold (\<lambda>(k, v). sql_replace k v) (created_rows x h t)
       (fold sql_delete (spent_outpoints x t) tbl)"

definition connect_block_utxos :: "externals \<Rightarrow> int \<Rightarrow> tx list \<Rightarrow> blockstore \<Rightarrow> blockstore" where
  "connect_block_utxos x h txs s =
     s\<lparr>bs_utxos := fold (connect_tx_rows x h) txs (bs_utxos s)\<rparr>"

definition created_outpoints :: "externals \<Rightarrow> tx \<Rightarrow> outpoint list" where
  "created_outpoints x t = map (\<lambda>i. (x_txid x t, int i)) [0..<length (tx_outputs t)]"

definition disconnect_block_utxos ::
  "externals \<Rightarrow> int \<Rightarrow> tx list \<Rightarrow> (outpoint, utxo_entry) pydict \<Rightarrow> blockstore \<Rightarrow> blockstore" where
  "disconnect_block_utxos x h txs spent_inputs s =
     s\<lparr>bs_utxos := fold (\<lambda>(op, e). sql_replace op (row_of_entry e)) spent_inputs
        (fold (\<lambda>t. fold sql_delete (created_outpoints x t)) txs (bs_utxos s))\<rparr>"

section \<open>Entries\<close>

lemma row_entry_inverse [simp]: "row_of_entry (entry_of_row op row) = row"
  by (cases row) (simp add: row_of_entry_def entry_of_row_def)

lemma entry_of_row_key [simp]: "(ue_txid (entry_of_row op row), ue_vout (entry_of_row op row)) = op"
  by (cases op) (simp add: entry_of_row_def)

lemma map_fst_created_rows: "map fst (created_rows x h t) = created_outpoints x t"
  by (simp add: created_rows_def created_outpoints_def comp_def case_prod_unfold
      map_enumerate(1) [where f = "\<lambda>i. (x_txid x t, int i)"])

lemma distinct_created: "distinct (created_outpoints x t)"
  by (simp add: created_outpoints_def distinct_map inj_on_def)

lemma created_rows_rev: "map_of (rev (created_rows x h t)) = map_of (created_rows x h t)"
  by (rule map_of_rev_distinct) (simp add: map_fst_created_rows distinct_created)

lemma map_of_created_None:
  "map_of (created_rows x h t) k = None \<longleftrightarrow> k \<notin> set (created_outpoints x t)"
  using map_fst_created_rows [of x h t] by (metis list.set_map map_of_eq_None_iff)

section \<open>Connecting a block\<close>

definition utxos_wf :: "blockstore \<Rightarrow> bool" where
  "utxos_wf s \<longleftrightarrow> sql_wf (bs_utxos s)"

lemma connect_tx_wf: "sql_wf tbl \<Longrightarrow> sql_wf (connect_tx_rows x h t tbl)"
  by (simp add: connect_tx_rows_def sql.wf_fold_put sql.wf_fold_del)

lemma connect_tx_select:
  assumes "sql_wf tbl"
  shows "sql_select (connect_tx_rows x h t tbl) k =
    (case map_of (created_rows x h t) k of
       Some row \<Rightarrow> Some row
     | None \<Rightarrow> if k \<in> set (spent_outpoints x t) then None else sql_select tbl k)"
  unfolding connect_tx_rows_def sql.get_fold_put created_rows_rev
  by (simp add: sql.get_fold_del [OF assms] split: option.splits)

definition block_created :: "externals \<Rightarrow> tx list \<Rightarrow> outpoint set" where
  "block_created x txs = (\<Union>t \<in> set txs. set (created_outpoints x t))"

definition block_spent :: "externals \<Rightarrow> tx list \<Rightarrow> outpoint set" where
  "block_spent x txs = (\<Union>t \<in> set txs. set (spent_outpoints x t))"

lemma block_sets_Cons:
  "block_created x (t # txs) = set (created_outpoints x t) \<union> block_created x txs"
  "block_spent x (t # txs) = set (spent_outpoints x t) \<union> block_spent x txs"
  by (simp_all add: block_created_def block_spent_def)

lemma connect_fold_wf: "sql_wf tbl \<Longrightarrow> sql_wf (fold (connect_tx_rows x h) txs tbl)"
  by (induction txs arbitrary: tbl) (simp_all add: connect_tx_wf)

lemma connect_block_wf: "utxos_wf s \<Longrightarrow> utxos_wf (connect_block_utxos x h txs s)"
  by (simp add: utxos_wf_def connect_block_utxos_def connect_fold_wf)

text \<open>An outpoint the block does not create: gone if the block spends it, else as before.\<close>

lemma connect_fold_outside:
  assumes "sql_wf tbl" and "k \<notin> block_created x txs"
  shows "sql_select (fold (connect_tx_rows x h) txs tbl) k =
    (if k \<in> block_spent x txs then None else sql_select tbl k)"
  using assms
proof (induction txs arbitrary: tbl)
  case (Cons t txs)
  then have "map_of (created_rows x h t) k = None"
    by (simp add: map_of_created_None block_sets_Cons)
  with Cons show ?case
    by (simp add: connect_tx_wf connect_tx_select block_sets_Cons)
qed (simp add: block_spent_def)

text \<open>Connecting depends on the table only through its lookups.\<close>

lemma connect_fold_cong:
  assumes "sql_wf a" and "sql_wf b" and "sql_select a = sql_select b"
  shows "sql_select (fold (connect_tx_rows x h) txs a) = sql_select (fold (connect_tx_rows x h) txs b)"
  using assms
proof (induction txs arbitrary: a b)
  case (Cons t txs)
  have "sql_select (connect_tx_rows x h t a) = sql_select (connect_tx_rows x h t b)"
    by (rule ext) (simp add: Cons.prems connect_tx_select split: option.split)
  with Cons show ?case by (simp add: connect_tx_wf)
qed simp

section \<open>The money in the table\<close>

definition utxo_total :: "(outpoint, utxo_row) sqltable \<Rightarrow> int" where
  "utxo_total tbl = sum_list (map (\<lambda>(_, row). fst row) tbl)"

definition row_value :: "outpoint \<Rightarrow> utxo_row \<Rightarrow> int" where
  "row_value op row = fst row"

lemma utxo_total_eq: "utxo_total = sql.total row_value"
  by (simp add: fun_eq_iff utxo_total_def sql.total_def row_value_def)

lemma total_fold_put:
  assumes "sql_wf tbl" and "\<And>k v. (k, v) \<in> set kvs \<Longrightarrow> sql_select tbl k = None"
    and "distinct (map fst kvs)"
  shows "sql.total f (fold (\<lambda>(k, v). sql_replace k v) kvs tbl) =
    sql.total f tbl + (\<Sum>(k, v) \<leftarrow> kvs. f k v)"
  using assms
proof (induction kvs arbitrary: tbl)
  case (Cons kv kvs)
  obtain k v where kv: "kv = (k, v)" by (cases kv)
  have "sql.total f (fold (\<lambda>(k, v). sql_replace k v) kvs (sql_replace k v tbl)) =
      sql.total f (sql_replace k v tbl) + (\<Sum>(k, v) \<leftarrow> kvs. f k v)"
  proof (rule Cons.IH)
    fix k' v' assume in_kvs: "(k', v') \<in> set kvs"
    then have "k' \<noteq> k" using Cons.prems(3) kv by force
    then show "sql_select (sql_replace k v tbl) k' = None"
      using Cons.prems(2) [of k' v'] in_kvs by simp
  qed (use Cons.prems kv in \<open>auto simp: sql.wf_put\<close>)
  moreover have "sql_select tbl k = None" using Cons.prems(2) [of k v] kv by simp
  ultimately show ?case using Cons.prems(1) kv by (simp add: sql.total_put)
qed simp

lemma created_rows_value: "(\<Sum>(k, v) \<leftarrow> created_rows x h t. row_value k v) = outputs_total (tx_outputs t)"
proof -
  have "(\<Sum>(k, v) \<leftarrow> created_rows x h t. row_value k v) =
      sum_list (map out_value (map snd (List.enumerate 0 (tx_outputs t))))"
    by (simp add: created_rows_def row_value_def case_prod_unfold comp_def map_enumerate(2))
  then show ?thesis by (simp add: outputs_total_def)
qed

definition spent_value :: "(outpoint, utxo_row) sqltable \<Rightarrow> outpoint list \<Rightarrow> int" where
  "spent_value tbl ops = (\<Sum>op \<leftarrow> ops. case sql_select tbl op of None \<Rightarrow> 0 | Some row \<Rightarrow> fst row)"

lemma connect_tx_total [conservation]:
  assumes "sql_wf tbl" and "distinct (spent_outpoints x t)"
    and "\<And>k. k \<in> set (created_outpoints x t) \<Longrightarrow> sql_select tbl k = None"
  shows "utxo_total (connect_tx_rows x h t tbl) =
    utxo_total tbl - spent_value tbl (spent_outpoints x t) + outputs_total (tx_outputs t)"
proof -
  let ?tbl = "fold sql_delete (spent_outpoints x t) tbl"
  have fresh: "sql_select ?tbl k = None" if "(k, v) \<in> set (created_rows x h t)" for k v
  proof -
    have "k \<in> set (map fst (created_rows x h t))" using that by force
    then show ?thesis using assms(1,3) by (simp add: map_fst_created_rows sql.get_fold_del)
  qed
  have "utxo_total (connect_tx_rows x h t tbl) =
      sql.total row_value ?tbl + outputs_total (tx_outputs t)"
    unfolding utxo_total_eq connect_tx_rows_def
    using total_fold_put [of ?tbl "created_rows x h t" row_value] assms(1) fresh
    by (simp add: sql.wf_fold_del map_fst_created_rows distinct_created created_rows_value)
  also have "sql.total row_value ?tbl = utxo_total tbl - spent_value tbl (spent_outpoints x t)"
    using sql.total_fold_del [OF assms(1,2), of row_value]
    by (simp add: utxo_total_eq spent_value_def row_value_def cong: option.case_cong)
  finally show ?thesis by simp
qed

end
