(* ===== verification/Node_Validation.thy ===== *)
theory Node_Validation
  imports Node_Blockstore
begin

text \<open>
  \<open>node/validation.py\<close>: a transaction against the UTXO table.  A refusal is a value, not an
  exception; the message of a result is a constructor of \<open>verdict\<close>.
\<close>

section \<open>Results\<close>

datatype verdict =
    Valid
  | ValidCoinbase
  | CoinbaseRefused
  | BadOutputValue
  | UtxoNotFound nat
  | ScriptRejected nat
  | InterpreterError nat exn
  | InputsBelowOutputs int int
  \<comment> \<open>given by the mempool\<close>
  | AlreadyInMempool
  | MultiConflict
  | SequenceTooLow outpoint int int

record validation_result =
  vr_ok :: bool
  vr_reason :: verdict
  inputs_value :: int
  outputs_value :: int
  spent_inputs :: "(bytes \<times> int \<times> int \<times> bytes) list"

definition ValidationResult :: "bool \<Rightarrow> verdict \<Rightarrow> validation_result" where
  "ValidationResult ok reason =
     \<lparr>vr_ok = ok, vr_reason = reason, inputs_value = 0, outputs_value = 0, spent_inputs = []\<rparr>"

definition vr_fee :: "validation_result \<Rightarrow> int" where
  "vr_fee r = inputs_value r - outputs_value r"

section \<open>The validation\<close>

text \<open>The loop over the outputs: the total, or nothing when a value is negative.\<close>

fun sum_output_values :: "txoutput list \<Rightarrow> int \<Rightarrow> int option" where
  "sum_output_values [] acc = Some acc"
| "sum_output_values (out # outs) acc =
     (if out_value out < 0 then None else sum_output_values outs (acc + out_value out))"

text \<open>The loop over the inputs from index \<open>idx\<close> on.\<close>

fun check_inputs ::
  "externals \<Rightarrow> blockstore \<Rightarrow> tx \<Rightarrow> nat \<Rightarrow> txinput list \<Rightarrow> int \<Rightarrow> (bytes \<times> int \<times> int \<times> bytes) list \<Rightarrow>
   verdict + (int \<times> (bytes \<times> int \<times> int \<times> bytes) list)" where
  "check_inputs x s t idx [] total_in spent = Inr (total_in, spent)"
| "check_inputs x s t idx (tin # ins) total_in spent =
     (case get_utxo s (outpoint_of tin) of
        None \<Rightarrow> Inl (UtxoNotFound idx)
      | Some entry \<Rightarrow>
          (case verify_spend x t idx (as_txoutput x entry) of
             Inl e \<Rightarrow> Inl (if catches VerificationError e then ScriptRejected idx
                          else InterpreterError idx e)
           | Inr _ \<Rightarrow> check_inputs x s t (Suc idx) ins (total_in + ue_value entry)
               (spent @ [(ue_txid entry, ue_vout entry, ue_value entry, ue_script entry)])))"

definition validate_tx :: "externals \<Rightarrow> tx \<Rightarrow> blockstore \<Rightarrow> bool \<Rightarrow> validation_result" where
  "validate_tx x t s allow_coinbase =
     (if x_is_coinbase x t
      then if allow_coinbase
           then (case sum_output_values (tx_outputs t) 0 of
                   None \<Rightarrow> ValidationResult False BadOutputValue
                 | Some total_out \<Rightarrow>
                     (ValidationResult True ValidCoinbase)
                       \<lparr>inputs_value := total_out, outputs_value := total_out\<rparr>)
           else ValidationResult False CoinbaseRefused
      else
        case sum_output_values (tx_outputs t) 0 of
          None \<Rightarrow> ValidationResult False BadOutputValue
        | Some total_out \<Rightarrow>
            (case check_inputs x s t 0 (tx_inputs t) 0 [] of
               Inl reason \<Rightarrow> ValidationResult False reason
             | Inr (total_in, spent) \<Rightarrow>
                 if total_in < total_out
                 then ValidationResult False (InputsBelowOutputs total_in total_out)
                 else \<lparr>vr_ok = True, vr_reason = Valid, inputs_value = total_in,
                       outputs_value = total_out, spent_inputs = spent\<rparr>))"

lemma ValidationResult_sel [simp]:
  "vr_ok (ValidationResult b r) = b" "vr_reason (ValidationResult b r) = r"
  "inputs_value (ValidationResult b r) = 0" "outputs_value (ValidationResult b r) = 0"
  "spent_inputs (ValidationResult b r) = []"
  by (simp_all add: ValidationResult_def)

section \<open>What a valid transaction is\<close>

lemma sum_output_values_eq:
  "sum_output_values outs acc =
     (if \<forall>out \<in> set outs. 0 \<le> out_value out then Some (acc + outputs_total outs) else None)"
  by (induction outs arbitrary: acc) auto

text \<open>The input at an index resolves to an unspent output whose script accepts the spend.\<close>

definition input_ok :: "externals \<Rightarrow> blockstore \<Rightarrow> tx \<Rightarrow> nat \<Rightarrow> txinput \<Rightarrow> bool" where
  "input_ok x s t i tin \<longleftrightarrow>
     (case get_utxo s (outpoint_of tin) of
        None \<Rightarrow> False
      | Some e \<Rightarrow> spend_verifies x t i (as_txoutput x e))"

definition input_value :: "blockstore \<Rightarrow> txinput \<Rightarrow> int" where
  "input_value s tin = (case get_utxo s (outpoint_of tin) of None \<Rightarrow> 0 | Some e \<Rightarrow> ue_value e)"

definition input_spent :: "blockstore \<Rightarrow> txinput \<Rightarrow> bytes \<times> int \<times> int \<times> bytes" where
  "input_spent s tin =
     (case get_utxo s (outpoint_of tin) of
        None \<Rightarrow> ([], 0, 0, [])
      | Some e \<Rightarrow> (ue_txid e, ue_vout e, ue_value e, ue_script e))"

lemma check_inputs_ok:
  assumes "\<forall>i < length ins. input_ok x s t (idx + i) (ins ! i)"
  shows "check_inputs x s t idx ins acc spent =
    Inr (acc + sum_list (map (input_value s) ins), spent @ map (input_spent s) ins)"
  using assms
proof (induction ins arbitrary: idx acc spent)
  case (Cons tin ins)
  have "input_ok x s t idx tin" using Cons.prems by force
  then obtain e where e: "get_utxo s (outpoint_of tin) = Some e"
    and v: "verify_spend x t idx (as_txoutput x e) = Inr True"
    by (auto simp: input_ok_def spend_verifies_iff verify_spend_def split: option.splits)
  have "\<forall>i < length ins. input_ok x s t (Suc idx + i) (ins ! i)"
    using Cons.prems by force
  from Cons.IH [OF this] e v show ?case
    by (simp add: input_value_def input_spent_def add.assoc)
qed simp

lemma check_inputs_bad:
  assumes "\<not> (\<forall>i < length ins. input_ok x s t (idx + i) (ins ! i))"
  shows "\<exists>r. check_inputs x s t idx ins acc spent = Inl r"
  using assms
proof (induction ins arbitrary: idx acc spent)
  case (Cons tin ins)
  show ?case
  proof (cases "input_ok x s t idx tin")
    case False
    then show ?thesis
      by (auto simp: input_ok_def spend_verifies_def split: option.splits sum.splits)
         (auto simp: verify_spend_Inr)
  next
    case True
    then have "\<not> (\<forall>i < length ins. input_ok x s t (Suc idx + i) (ins ! i))"
      using Cons.prems by (auto simp: less_Suc_eq_0_disj)
    from Cons.IH [OF this] show ?thesis by (auto split: option.splits sum.splits)
  qed
qed simp

definition tx_valid :: "externals \<Rightarrow> blockstore \<Rightarrow> tx \<Rightarrow> bool" where
  "tx_valid x s t \<longleftrightarrow>
     \<not> x_is_coinbase x t \<and> (\<forall>out \<in> set (tx_outputs t). 0 \<le> out_value out) \<and>
     (\<forall>i < length (tx_inputs t). input_ok x s t i (tx_inputs t ! i)) \<and>
     outputs_total (tx_outputs t) \<le> sum_list (map (input_value s) (tx_inputs t))"

lemma validate_tx_valid:
  assumes "tx_valid x s t"
  shows "validate_tx x t s False =
    \<lparr>vr_ok = True, vr_reason = Valid, inputs_value = sum_list (map (input_value s) (tx_inputs t)),
     outputs_value = outputs_total (tx_outputs t), spent_inputs = map (input_spent s) (tx_inputs t)\<rparr>"
  using assms check_inputs_ok [of "tx_inputs t" x s t 0]
  by (simp add: tx_valid_def validate_tx_def sum_output_values_eq)

lemma validate_tx_ok_iff: "vr_ok (validate_tx x t s False) \<longleftrightarrow> tx_valid x s t"
proof (cases "tx_valid x s t")
  case True
  then show ?thesis by (simp add: validate_tx_valid)
next
  case False
  show ?thesis
  proof (cases "\<forall>i < length (tx_inputs t). input_ok x s t i (tx_inputs t ! i)")
    case True
    with False check_inputs_ok [of "tx_inputs t" x s t 0] show ?thesis
      by (auto simp: tx_valid_def validate_tx_def sum_output_values_eq)
  next
    case bad: False
    with False check_inputs_bad [of "tx_inputs t" x s t 0 0 "[]"] show ?thesis
      by (auto simp: validate_tx_def sum_output_values_eq)
  qed
qed

lemma validate_tx_fee:
  assumes "vr_ok (validate_tx x t s False)"
  shows "vr_fee (validate_tx x t s False) =
      sum_list (map (input_value s) (tx_inputs t)) - outputs_total (tx_outputs t)"
    and "0 \<le> vr_fee (validate_tx x t s False)"
  using assms unfolding validate_tx_ok_iff
  by (simp_all add: validate_tx_valid vr_fee_def) (simp add: tx_valid_def)

text \<open>Validity depends on the table only through its lookups.\<close>

lemma tx_valid_cong:
  assumes "\<And>i. i \<in> set (tx_inputs t) \<Longrightarrow> get_utxo s (outpoint_of i) = get_utxo s' (outpoint_of i)"
  shows "tx_valid x s t = tx_valid x s' t"
proof -
  have ok: "(\<forall>i < length (tx_inputs t). input_ok x s t i (tx_inputs t ! i)) =
      (\<forall>i < length (tx_inputs t). input_ok x s' t i (tx_inputs t ! i))"
    using assms by (simp add: input_ok_def)
  have "map (input_value s) (tx_inputs t) = map (input_value s') (tx_inputs t)"
    using assms by (simp add: input_value_def)
  then show ?thesis unfolding tx_valid_def ok by metis
qed

end
