(* ===== verification/Node_Mempool.thy ===== *)
theory Node_Mempool
  imports Node_Validation
begin

text \<open>
  \<open>node/mempool.py\<close>: admission with conflict detection, and replacement by sequence number.  The
  observers are the log \<open>mp_events\<close> of what they were told, in order (an observer that fails is
  caught by the code and cannot change the outcome).  The invariant \<open>mempool_wf\<close> ties the two
  dictionaries together: an outpoint is owned by the one entry that spends it.
\<close>

section \<open>State and operations\<close>

datatype mp_event = MpAdmit tx | MpEvict tx | MpReplace tx

record mempool_entry =
  me_tx :: tx
  me_fee :: int
  sequence_by_input :: "int list"

record mempool =
  entries :: "(bytes, mempool_entry) pydict"
  spent_by :: "(outpoint, bytes) pydict"
  mp_events :: "mp_event list"

definition empty_mempool :: mempool where
  "empty_mempool = \<lparr>entries = [], spent_by = [], mp_events = []\<rparr>"

definition notify :: "mp_event \<Rightarrow> mempool \<Rightarrow> mempool" where
  "notify e mp = mp\<lparr>mp_events := mp_events mp @ [e]\<rparr>"

definition mp_size :: "mempool \<Rightarrow> int" where
  "mp_size mp = int (length (entries mp))"

definition mp_contains :: "mempool \<Rightarrow> bytes \<Rightarrow> bool" where
  "mp_contains mp txid \<longleftrightarrow> dict_get (entries mp) txid \<noteq> None"

definition mp_get :: "mempool \<Rightarrow> bytes \<Rightarrow> tx option" where
  "mp_get mp txid = map_option me_tx (dict_get (entries mp) txid)"

definition all_txs :: "mempool \<Rightarrow> tx list" where
  "all_txs mp = map (\<lambda>(_, e). me_tx e) (entries mp)"

definition tx_outpoints :: "tx \<Rightarrow> outpoint list" where
  "tx_outpoints t = map outpoint_of (tx_inputs t)"

definition mp_insert :: "externals \<Rightarrow> tx \<Rightarrow> validation_result \<Rightarrow> mempool \<Rightarrow> mempool" where
  "mp_insert x t r mp =
     (let txid = x_txid x t
      in mp\<lparr>entries := dict_put txid \<lparr>me_tx = t, me_fee = vr_fee r,
                          sequence_by_input = map sequence (tx_inputs t)\<rparr> (entries mp),
            spent_by := fold (\<lambda>op. dict_put op txid) (tx_outpoints t) (spent_by mp)\<rparr>)"

text \<open>\<open>if self.spent_by.get(key) == txid: del self.spent_by[key]\<close>, for every input.\<close>

definition release_outpoints ::
  "bytes \<Rightarrow> outpoint list \<Rightarrow> (outpoint, bytes) pydict \<Rightarrow> (outpoint, bytes) pydict" where
  "release_outpoints txid ops d =
     fold (\<lambda>op d. if dict_get d op = Some txid then dict_del op d else d) ops d"

definition evict_internal :: "bytes \<Rightarrow> mempool \<Rightarrow> tx option \<times> mempool" where
  "evict_internal txid mp =
     (case dict_get (entries mp) txid of
        None \<Rightarrow> (None, mp)
      | Some e \<Rightarrow>
          (Some (me_tx e),
           notify (MpEvict (me_tx e))
             (mp\<lparr>entries := dict_del txid (entries mp),
                 spent_by := release_outpoints txid (tx_outpoints (me_tx e)) (spent_by mp)\<rparr>)))"

definition evict :: "bytes \<Rightarrow> mempool \<Rightarrow> tx option \<times> mempool" where
  "evict txid mp = evict_internal txid mp"

text \<open>The set of the owners an admission conflicts with.\<close>

definition conflicting_txids :: "externals \<Rightarrow> mempool \<Rightarrow> tx \<Rightarrow> bytes set" where
  "conflicting_txids x mp t =
     (\<Union>op \<in> set (tx_outpoints t).
        case dict_get (spent_by mp) op of
          None \<Rightarrow> {}
        | Some owner \<Rightarrow> if owner \<noteq> x_txid x t then {owner} else {})"

text \<open>The sequence numbers of a transaction by outpoint (a later input overwrites an earlier one).\<close>

definition sequences_by_outpoint :: "tx \<Rightarrow> (outpoint, int) pydict" where
  "sequences_by_outpoint t = fold (\<lambda>i. dict_put (outpoint_of i) (sequence i)) (tx_inputs t) []"

fun sequence_violation :: "(outpoint, int) pydict \<Rightarrow> txinput list \<Rightarrow> verdict option" where
  "sequence_violation old_seqs [] = None"
| "sequence_violation old_seqs (tin # ins) =
     (case dict_get old_seqs (outpoint_of tin) of
        Some old \<Rightarrow> if sequence tin \<le> old then Some (SequenceTooLow (outpoint_of tin) (sequence tin) old)
                   else sequence_violation old_seqs ins
      | None \<Rightarrow> sequence_violation old_seqs ins)"

definition admit ::
  "externals \<Rightarrow> blockstore \<Rightarrow> mempool \<Rightarrow> tx \<Rightarrow> (validation_result \<times> mempool) result" where
  "admit x s mp t =
     (let txid = x_txid x t
      in if mp_contains mp txid then return (ValidationResult True AlreadyInMempool, mp)
         else
           let conflicts = conflicting_txids x mp t
           in if conflicts \<noteq> {}
              then if card conflicts \<noteq> 1 then return (ValidationResult False MultiConflict, mp)
                   else
                     let old_txid = the_elem conflicts
                     in bindR (dict_index (entries mp) old_txid) (\<lambda>old.
                          case sequence_violation (sequences_by_outpoint (me_tx old)) (tx_inputs t) of
                            Some reason \<Rightarrow> return (ValidationResult False reason, mp)
                          | None \<Rightarrow>
                              let r = validate_tx x t s False
                              in if \<not> vr_ok r then return (r, mp)
                                 else
                                   let mp1 = snd (evict_internal old_txid mp);
                                       mp2 = mp_insert x t r mp1
                                   in return (r, notify (MpReplace t) mp2))
              else
                let r = validate_tx x t s False
                in if \<not> vr_ok r then return (r, mp)
                   else return (r, notify (MpAdmit t) (mp_insert x t r mp)))"

section \<open>The invariant\<close>

text \<open>Entries are under their own id, and the index \<open>spent_by\<close> is exact: an outpoint is mapped to
  an id just when the entry of that id spends it.\<close>

definition mempool_wf :: "externals \<Rightarrow> mempool \<Rightarrow> bool" where
  "mempool_wf x mp \<longleftrightarrow>
     dict_wf (entries mp) \<and> dict_wf (spent_by mp) \<and>
     (\<forall>(txid, e) \<in> set (entries mp).
        x_txid x (me_tx e) = txid \<and>
        (\<forall>op \<in> set (tx_outpoints (me_tx e)). dict_get (spent_by mp) op = Some txid)) \<and>
     (\<forall>(op, txid) \<in> set (spent_by mp).
        case dict_get (entries mp) txid of
          None \<Rightarrow> False | Some e \<Rightarrow> op \<in> set (tx_outpoints (me_tx e)))"

lemma mempool_wfD:
  assumes "mempool_wf x mp"
  shows "dict_wf (entries mp)" "dict_wf (spent_by mp)"
    "\<And>txid e. dict_get (entries mp) txid = Some e \<Longrightarrow> x_txid x (me_tx e) = txid"
    "\<And>txid e op. dict_get (entries mp) txid = Some e \<Longrightarrow> op \<in> set (tx_outpoints (me_tx e)) \<Longrightarrow>
       dict_get (spent_by mp) op = Some txid"
    "\<And>op txid. dict_get (spent_by mp) op = Some txid \<Longrightarrow>
       \<exists>e. dict_get (entries mp) txid = Some e \<and> op \<in> set (tx_outpoints (me_tx e))"
  using assms
proof -
  note wf = assms [unfolded mempool_wf_def]
  show "dict_wf (entries mp)" "dict_wf (spent_by mp)" using wf by blast+
  show "x_txid x (me_tx e) = txid" if "dict_get (entries mp) txid = Some e" for txid e
    using wf dict_get_mem [OF that] by blast
  show "dict_get (spent_by mp) op = Some txid"
    if "dict_get (entries mp) txid = Some e" "op \<in> set (tx_outpoints (me_tx e))" for txid e op
    using wf dict_get_mem [OF that(1)] that(2) by blast
  show "\<exists>e. dict_get (entries mp) txid = Some e \<and> op \<in> set (tx_outpoints (me_tx e))"
    if "dict_get (spent_by mp) op = Some txid" for op txid
  proof -
    have "case dict_get (entries mp) txid of
        None \<Rightarrow> False | Some e \<Rightarrow> op \<in> set (tx_outpoints (me_tx e))"
      using wf dict_get_mem [OF that] by blast
    then show ?thesis by (simp split: option.splits)
  qed
qed

lemma mempool_wfI:
  assumes "dict_wf (entries mp)" "dict_wf (spent_by mp)"
    and "\<And>txid e. dict_get (entries mp) txid = Some e \<Longrightarrow> x_txid x (me_tx e) = txid"
    and "\<And>txid e op. dict_get (entries mp) txid = Some e \<Longrightarrow> op \<in> set (tx_outpoints (me_tx e)) \<Longrightarrow>
       dict_get (spent_by mp) op = Some txid"
    and "\<And>op txid. dict_get (spent_by mp) op = Some txid \<Longrightarrow>
       \<exists>e. dict_get (entries mp) txid = Some e \<and> op \<in> set (tx_outpoints (me_tx e))"
  shows "mempool_wf x mp"
proof -
  have "case dict_get (entries mp) txid of
      None \<Rightarrow> False | Some e \<Rightarrow> op \<in> set (tx_outpoints (me_tx e))"
    if "(op, txid) \<in> set (spent_by mp)" for op txid
    using assms(5) [of op txid] that dict.items_get [OF assms(2), of op txid] by auto
  moreover have "x_txid x (me_tx e) = txid \<and>
      (\<forall>op \<in> set (tx_outpoints (me_tx e)). dict_get (spent_by mp) op = Some txid)"
    if "(txid, e) \<in> set (entries mp)" for txid e
    using assms(3,4) [of txid e] that dict.items_get [OF assms(1), of txid e] by auto
  ultimately show ?thesis using assms(1,2) unfolding mempool_wf_def by blast
qed

lemma empty_mempool_wf: "mempool_wf x empty_mempool"
  by (simp add: mempool_wf_def empty_mempool_def)

text \<open>No two entries spend the same outpoint.\<close>

lemma mempool_no_double_spend:
  assumes "mempool_wf x mp" and "dict_get (entries mp) a = Some e" "dict_get (entries mp) b = Some f"
    and "op \<in> set (tx_outpoints (me_tx e))" "op \<in> set (tx_outpoints (me_tx f))"
  shows "a = b"
  using mempool_wfD(4) [OF assms(1,2,4)] mempool_wfD(4) [OF assms(1,3,5)] by simp

lemma notify_sel [simp]:
  "entries (notify e mp) = entries mp" "spent_by (notify e mp) = spent_by mp"
  by (simp_all add: notify_def)

lemma notify_wf [simp]: "mempool_wf x (notify e mp) = mempool_wf x mp"
  by (simp add: mempool_wf_def)

section \<open>Eviction\<close>

lemma release_wf: "dict_wf d \<Longrightarrow> dict_wf (release_outpoints txid ops d)"
  by (induction ops arbitrary: d) (simp_all add: release_outpoints_def dict.wf_del)

lemma release_get:
  assumes "dict_wf d"
  shows "dict_get (release_outpoints txid ops d) op =
    (if op \<in> set ops \<and> dict_get d op = Some txid then None else dict_get d op)"
  using assms
proof (induction ops arbitrary: d)
  case (Cons o1 ops)
  have step: "release_outpoints txid (o1 # ops) d = release_outpoints txid ops
      (if dict_get d o1 = Some txid then dict_del o1 d else d)"
    by (simp add: release_outpoints_def)
  show ?case
    unfolding step using Cons.prems Cons.IH [of d] Cons.IH [of "dict_del o1 d"]
    by (auto simp: dict.get_del dict.wf_del)
qed (simp add: release_outpoints_def)

lemma evict_absent: "dict_get (entries mp) txid = None \<Longrightarrow> evict_internal txid mp = (None, mp)"
  by (simp add: evict_internal_def)

lemma evict_entries:
  assumes "dict_wf (entries mp)"
  shows "dict_get (entries (snd (evict_internal txid mp))) k =
    (if k = txid then None else dict_get (entries mp) k)"
  using assms by (auto simp: evict_internal_def dict.get_del split: option.splits)

lemma evict_spent:
  assumes "mempool_wf x mp"
  shows "dict_get (spent_by (snd (evict_internal txid mp))) op =
    (if dict_get (spent_by mp) op = Some txid then None else dict_get (spent_by mp) op)"
proof (cases "dict_get (entries mp) txid")
  case None
  then have "dict_get (spent_by mp) op \<noteq> Some txid"
    using mempool_wfD(5) [OF assms, of op txid] by auto
  with None show ?thesis by (simp add: evict_absent)
next
  case (Some e)
  have "dict_get (spent_by mp) op = Some txid \<Longrightarrow> op \<in> set (tx_outpoints (me_tx e))"
    using mempool_wfD(5) [OF assms, of op txid] Some by auto
  with Some show ?thesis
    by (auto simp: evict_internal_def release_get [OF mempool_wfD(2) [OF assms]])
qed

lemma evict_wf:
  assumes "mempool_wf x mp"
  shows "mempool_wf x (snd (evict_internal txid mp))"
proof (rule mempool_wfI)
  note wf = mempool_wfD [OF assms]
  let ?mp = "snd (evict_internal txid mp)"
  show "dict_wf (entries ?mp)" "dict_wf (spent_by ?mp)"
    using wf(1,2) by (auto simp: evict_internal_def dict.wf_del release_wf split: option.splits)
  show "x_txid x (me_tx e) = k" if "dict_get (entries ?mp) k = Some e" for k e
    using that wf(3) by (simp add: evict_entries [OF wf(1)] split: if_splits)
  show "dict_get (spent_by ?mp) op = Some k"
    if "dict_get (entries ?mp) k = Some e" "op \<in> set (tx_outpoints (me_tx e))" for k e op
    using that wf(4) by (auto simp: evict_entries [OF wf(1)] evict_spent [OF assms] split: if_splits)
  show "\<exists>e. dict_get (entries ?mp) k = Some e \<and> op \<in> set (tx_outpoints (me_tx e))"
    if "dict_get (spent_by ?mp) op = Some k" for op k
    using that wf(5) by (auto simp: evict_entries [OF wf(1)] evict_spent [OF assms] split: if_splits)
qed

section \<open>Insertion\<close>

lemma fold_put_const:
  "dict_get (fold (\<lambda>op. dict_put op v) ops d) k = (if k \<in> set ops then Some v else dict_get d k)"
  by (induction ops arbitrary: d) (auto simp: dict.get_put)

lemma fold_put_const_wf: "dict_wf d \<Longrightarrow> dict_wf (fold (\<lambda>op. dict_put op v) ops d)"
  by (induction ops arbitrary: d) (simp_all add: dict.wf_put)

lemma insert_entries:
  "dict_get (entries (mp_insert x t r mp)) k =
     (if k = x_txid x t then Some \<lparr>me_tx = t, me_fee = vr_fee r, sequence_by_input = map sequence (tx_inputs t)\<rparr>
      else dict_get (entries mp) k)"
  by (simp add: mp_insert_def Let_def dict.get_put)

lemma insert_spent:
  "dict_get (spent_by (mp_insert x t r mp)) op =
     (if op \<in> set (tx_outpoints t) then Some (x_txid x t) else dict_get (spent_by mp) op)"
  by (simp add: mp_insert_def Let_def fold_put_const)

text \<open>Inserting a new transaction none of whose outpoints is owned keeps the invariant.\<close>

lemma insert_wf:
  assumes "mempool_wf x mp" and "dict_get (entries mp) (x_txid x t) = None"
    and "\<And>op. op \<in> set (tx_outpoints t) \<Longrightarrow> dict_get (spent_by mp) op = None"
  shows "mempool_wf x (mp_insert x t r mp)"
proof (rule mempool_wfI)
  note wf = mempool_wfD [OF assms(1)]
  let ?mp = "mp_insert x t r mp"
  show "dict_wf (entries ?mp)" "dict_wf (spent_by ?mp)"
    using wf(1,2) by (simp_all add: mp_insert_def Let_def dict.wf_put fold_put_const_wf)
  show "x_txid x (me_tx e) = k" if "dict_get (entries ?mp) k = Some e" for k e
    using that wf(3) by (auto simp: insert_entries split: if_splits)
  show "dict_get (spent_by ?mp) op = Some k"
    if "dict_get (entries ?mp) k = Some e" "op \<in> set (tx_outpoints (me_tx e))" for k e op
    using that wf(4) [of k e op] assms(3) [of op] by (auto simp: insert_entries insert_spent split: if_splits)
  show "\<exists>e. dict_get (entries ?mp) k = Some e \<and> op \<in> set (tx_outpoints (me_tx e))"
    if "dict_get (spent_by ?mp) op = Some k" for op k
    using that wf(5) [of op k] assms(2) by (auto simp: insert_entries insert_spent split: if_splits)
qed

section \<open>Admission\<close>

lemma conflicting_txids_iff:
  "owner \<in> conflicting_txids x mp t \<longleftrightarrow>
     owner \<noteq> x_txid x t \<and> (\<exists>op \<in> set (tx_outpoints t). dict_get (spent_by mp) op = Some owner)"
  by (auto simp: conflicting_txids_def split: option.splits if_splits)

lemma sequence_violation_None:
  "sequence_violation d ins = None \<longleftrightarrow>
     (\<forall>i \<in> set ins. \<forall>old. dict_get d (outpoint_of i) = Some old \<longrightarrow> old < sequence i)"
  by (induction ins) (auto split: option.splits)

text \<open>The three ways an admission ends, in a well-formed mempool.\<close>

lemma admit_cases:
  assumes "admit x s mp t = Inr (r, mp')"
  obtains (same) "mp' = mp"
  | (plain) "mp' = notify (MpAdmit t) (mp_insert x t r mp)" "vr_ok r" "r = validate_tx x t s False"
      "dict_get (entries mp) (x_txid x t) = None" "conflicting_txids x mp t = {}"
  | (replace) old_txid old where
      "mp' = notify (MpReplace t) (mp_insert x t r (snd (evict_internal old_txid mp)))" "vr_ok r"
      "r = validate_tx x t s False" "dict_get (entries mp) (x_txid x t) = None"
      "conflicting_txids x mp t = {old_txid}" "dict_get (entries mp) old_txid = Some old"
      "sequence_violation (sequences_by_outpoint (me_tx old)) (tx_inputs t) = None"
proof (cases "mp' = mp")
  case False
  have new: "dict_get (entries mp) (x_txid x t) = None"
    using assms(1) False by (auto simp: admit_def mp_contains_def Let_def split: if_splits)
  show ?thesis
  proof (cases "conflicting_txids x mp t = {}")
    case True
    with assms(1) False new show ?thesis
      by (intro plain) (auto simp: admit_def mp_contains_def Let_def split: if_splits)
  next
    case conflict: False
    then have one: "card (conflicting_txids x mp t) = 1"
      using assms(1) False new by (auto simp: admit_def mp_contains_def Let_def split: if_splits)
    then obtain old_txid where c: "conflicting_txids x mp t = {old_txid}"
      by (rule card_1_singletonE)
    have "admit x s mp t = bindR (dict_index (entries mp) old_txid) (\<lambda>old.
        case sequence_violation (sequences_by_outpoint (me_tx old)) (tx_inputs t) of
          Some reason \<Rightarrow> return (ValidationResult False reason, mp)
        | None \<Rightarrow>
            if \<not> vr_ok (validate_tx x t s False) then return (validate_tx x t s False, mp)
            else return (validate_tx x t s False, notify (MpReplace t)
              (mp_insert x t (validate_tx x t s False) (snd (evict_internal old_txid mp)))))"
      unfolding admit_def mp_contains_def Let_def new c the_elem_eq by simp
    with assms(1) False obtain old where "dict_get (entries mp) old_txid = Some old"
      "sequence_violation (sequences_by_outpoint (me_tx old)) (tx_inputs t) = None"
      "r = validate_tx x t s False" "vr_ok r"
      "mp' = notify (MpReplace t) (mp_insert x t r (snd (evict_internal old_txid mp)))"
      by (auto simp: bindR_eq_Inr dict_index_def split: if_splits option.splits)
    with c new show ?thesis by (intro replace)
  qed
qed (rule same)

lemma admit_wf:
  assumes "admit x s mp t = Inr (r, mp')" and "mempool_wf x mp"
  shows "mempool_wf x mp'"
proof -
  note wf = mempool_wfD [OF assms(2)]
  have own: "dict_get (spent_by mp) op \<noteq> Some (x_txid x t)"
    if "dict_get (entries mp) (x_txid x t) = None" for op
    using wf(5) [of op "x_txid x t"] that by auto
  from assms(1) show ?thesis
  proof (cases rule: admit_cases)
    case same
    with assms(2) show ?thesis by simp
  next
    case plain
    have "dict_get (spent_by mp) op = None" if "op \<in> set (tx_outpoints t)" for op
    proof (cases "dict_get (spent_by mp) op")
      case (Some owner)
      then have "owner \<in> conflicting_txids x mp t"
        using own [OF plain(4)] that unfolding conflicting_txids_iff by metis
      with plain(5) show ?thesis by simp
    qed simp
    with plain(1) insert_wf [OF assms(2) plain(4)] show ?thesis by simp
  next
    case (replace old e)
    let ?mp1 = "snd (evict_internal old mp)"
    have free: "dict_get (spent_by ?mp1) op = None" if "op \<in> set (tx_outpoints t)" for op
    proof (cases "dict_get (spent_by mp) op")
      case (Some owner)
      then have "owner \<in> conflicting_txids x mp t"
        using own [OF replace(4)] that unfolding conflicting_txids_iff by metis
      then have "owner = old" using replace(5) by simp
      with Some show ?thesis by (simp add: evict_spent [OF assms(2)])
    qed (simp add: evict_spent [OF assms(2)])
    have "dict_get (entries ?mp1) (x_txid x t) = None"
      using replace(4) by (simp add: evict_entries [OF wf(1)])
    with insert_wf [OF evict_wf [OF assms(2)] _ free] replace(1) show ?thesis by simp
  qed
qed

text \<open>In a well-formed mempool admission never raises.\<close>

lemma admit_total:
  assumes "mempool_wf x mp"
  shows "\<exists>r mp'. admit x s mp t = Inr (r, mp')"
proof -
  have ex: "\<exists>e. dict_get (entries mp) (the_elem (conflicting_txids x mp t)) = Some e"
    if one: "card (conflicting_txids x mp t) = 1"
  proof -
    obtain old where old: "conflicting_txids x mp t = {old}"
      by (rule card_1_singletonE [OF one])
    then have "old \<in> conflicting_txids x mp t" by simp
    then obtain op where "dict_get (spent_by mp) op = Some old"
      unfolding conflicting_txids_iff by blast
    then obtain e where "dict_get (entries mp) old = Some e"
      using mempool_wfD(5) [OF assms] by blast
    then show ?thesis by (simp add: old)
  qed
  show ?thesis
  proof (cases "conflicting_txids x mp t = {} \<or> card (conflicting_txids x mp t) \<noteq> 1")
    case False
    then obtain e where e: "dict_get (entries mp) (the_elem (conflicting_txids x mp t)) = Some e"
      using ex by blast
    from False show ?thesis
      by (cases "sequence_violation (sequences_by_outpoint (me_tx e)) (tx_inputs t)")
         (simp_all add: admit_def Let_def dict_index_def e)
  qed (auto simp: admit_def Let_def)
qed

text \<open>An entry leaves the mempool through an admission only when it is replaced, and then every
  outpoint the two share carries a strictly higher sequence number.\<close>

lemma sequences_by_outpoint_get:
  assumes "distinct (tx_outpoints t)" and "i \<in> set (tx_inputs t)"
  shows "dict_get (sequences_by_outpoint t) (outpoint_of i) = Some (sequence i)"
proof -
  have "dict_get (fold (\<lambda>i. dict_put (outpoint_of i) (sequence i)) ins d) (outpoint_of i) = Some (sequence i)"
    if "distinct (map outpoint_of ins)" "i \<in> set ins" for ins d
    using that
  proof (induction ins arbitrary: d)
    case (Cons j ins)
    have keep: "dict_get (fold (\<lambda>i. dict_put (outpoint_of i) (sequence i)) js d) k = dict_get d k"
      if "k \<notin> outpoint_of ` set js" for js d k
      using that by (induction js arbitrary: d) (auto simp: dict.get_put)
    from Cons show ?case by (auto simp: keep)
  qed simp
  with assms show ?thesis by (simp add: sequences_by_outpoint_def tx_outpoints_def)
qed

lemma admit_replaced:
  assumes "admit x s mp t = Inr (r, mp')" and "mempool_wf x mp"
    and "dict_get (entries mp) k = Some old" and "dict_get (entries mp') k = None"
    and "distinct (tx_outpoints (me_tx old))"
  shows "\<exists>op. op \<in> set (tx_outpoints t) \<inter> set (tx_outpoints (me_tx old))"
    and "\<forall>i \<in> set (tx_inputs (me_tx old)). \<forall>j \<in> set (tx_inputs t).
      outpoint_of i = outpoint_of j \<longrightarrow> sequence i < sequence j"
    and "vr_ok r" and "conflicting_txids x mp t = {k}"
proof -
  note wf = mempool_wfD [OF assms(2)]
  have gone: "mp' \<noteq> mp" "mp' \<noteq> notify (MpAdmit t) (mp_insert x t r mp)"
    using assms(3,4) by (auto simp: insert_entries split: if_splits)
  obtain old_txid e where
    c: "conflicting_txids x mp t = {old_txid}" and e: "dict_get (entries mp) old_txid = Some e"
    and seq: "sequence_violation (sequences_by_outpoint (me_tx e)) (tx_inputs t) = None"
    and mp': "mp' = notify (MpReplace t) (mp_insert x t r (snd (evict_internal old_txid mp)))"
    and ok: "vr_ok r"
    by (rule admit_cases [OF assms(1)]) (use gone in blast)+
  have k: "k = old_txid"
    using assms(3,4) by (auto simp: mp' insert_entries evict_entries [OF wf(1)] split: if_splits)
  with e assms(3) have eo: "e = old" by simp
  show "vr_ok r" by (rule ok)
  show "conflicting_txids x mp t = {k}" by (simp add: c k)
  obtain op where op: "op \<in> set (tx_outpoints t)" "dict_get (spent_by mp) op = Some k"
    using c k conflicting_txids_iff [of k x mp t] by auto
  with wf(5) [OF op(2)] assms(3) have "op \<in> set (tx_outpoints t) \<inter> set (tx_outpoints (me_tx old))"
    by auto
  then show "\<exists>op. op \<in> set (tx_outpoints t) \<inter> set (tx_outpoints (me_tx old))" ..
  show "\<forall>i \<in> set (tx_inputs (me_tx old)). \<forall>j \<in> set (tx_inputs t).
      outpoint_of i = outpoint_of j \<longrightarrow> sequence i < sequence j"
    using seq sequences_by_outpoint_get [OF assms(5)] unfolding sequence_violation_None eo by metis
qed

text \<open>The verdict says whether the transaction is in the pool afterwards; a refusal changes nothing.\<close>

lemma admit_verdict:
  assumes "admit x s mp t = Inr (r, mp')"
  shows "vr_ok r \<longleftrightarrow> mp_contains mp' (x_txid x t)" and "\<not> vr_ok r \<Longrightarrow> mp' = mp"
proof -
  have ne: "notify ev (mp_insert x t r' m) \<noteq> mp" if "dict_get (entries mp) (x_txid x t) = None" for ev r' m
    using that insert_entries [of x t r' m "x_txid x t"] by (metis notify_sel(1) option.distinct(1))
  have known: "vr_ok r \<longleftrightarrow> mp_contains mp (x_txid x t)" if "mp' = mp"
    using assms that ne
    by (auto simp: admit_def Let_def mp_contains_def bindR_eq_Inr split: if_splits option.splits)
  show "vr_ok r \<longleftrightarrow> mp_contains mp' (x_txid x t)"
    by (cases rule: admit_cases [OF assms]) (use known in \<open>auto simp: mp_contains_def insert_entries\<close>)
  show "mp' = mp" if "\<not> vr_ok r"
    by (cases rule: admit_cases [OF assms]) (use that in auto)
qed

end
