(* ===== verification/Node_Network.thy ===== *)
theory Node_Network
  imports Node_Block Node_Mempool Channel_Scripts
begin

text \<open>
  \<open>node/network.py\<close>: the embedded regtest node.  A method is a function from the node to the node;
  a method that raises half way leaves no node here (the callers of the source drop it as well).
  \<open>accept_block\<close> and the reorganisation walk header chains with a loop that need not end on an
  arbitrary store, so their result is an option, \<open>None\<close> where the loop would not end.
\<close>

section \<open>Regtest parameters\<close>

definition REGTEST_BITS :: int where "REGTEST_BITS = 0x207FFFFF"
definition REGTEST_VERSION :: int where "REGTEST_VERSION = 1"
definition REGTEST_GENESIS_PREV :: bytes where "REGTEST_GENESIS_PREV = replicate 32 0"

definition make_regtest_genesis :: "int option \<Rightarrow> bytes result" where
  "make_regtest_genesis timestamp =
     (let ts = (case timestamp of Some t \<Rightarrow> t | None \<Rightarrow> 1700000000)
      in build_raw_header REGTEST_VERSION REGTEST_GENESIS_PREV (replicate 32 0) ts REGTEST_BITS 0)"

text \<open>The height is the one of a new block, so it is not negative.\<close>

definition make_coinbase :: "int \<Rightarrow> script \<Rightarrow> int \<Rightarrow> bytes \<Rightarrow> tx" where
  "make_coinbase payout_value payout_script h extra =
     (let h_bytes = (if h = 0 then []
            else let h_buf = magnitude_bytes (nat h)
                 in if last h_buf AND 0x80 \<noteq> 0 then h_buf @ [0] else h_buf);
          script_sig = Push h_bytes # (if extra \<noteq> [] then [Push extra] else [])
      in Tx 1 [TxInput (replicate 32 0) 0xFFFFFFFF script_sig 0xFFFFFFFF]
           [TxOutput payout_value payout_script] 0)"

section \<open>The node\<close>

record node =
  nd_blockstore :: blockstore
  nd_headers :: header_store
  nd_mempool :: mempool
  nd_genesis :: bytes
  coinbase_reward :: int
  undo_log :: "(bytes, (outpoint \<times> utxo_row) list) pydict"
  created_log :: "(bytes, outpoint list) pydict"

definition new_node :: "externals \<Rightarrow> node result" where
  "new_node x =
     bindR (make_regtest_genesis None) (\<lambda>genesis.
     bindR (with_genesis x genesis) (\<lambda>hs.
     bindR (header_hash x genesis) (\<lambda>g.
       return \<lparr>nd_blockstore = store_block g 0 genesis empty_blockstore, nd_headers = hs,
               nd_mempool = empty_mempool, nd_genesis = genesis, coinbase_reward = 5000000000,
               undo_log = [], created_log = []\<rparr>)))"

definition node_tip_hash :: "node \<Rightarrow> bytes" where
  "node_tip_hash nd = tip_hash (nd_headers nd)"

definition node_genesis_hash :: "externals \<Rightarrow> node \<Rightarrow> bytes result" where
  "node_genesis_hash x nd = header_hash x (nd_genesis nd)"

definition node_height :: "node \<Rightarrow> int result" where
  "node_height nd = store_height (nd_headers nd)"

definition submit_tx :: "externals \<Rightarrow> node \<Rightarrow> tx \<Rightarrow> (validation_result \<times> node) result" where
  "submit_tx x nd t =
     bindR (admit x (nd_blockstore nd) (nd_mempool nd) t) (\<lambda>(r, mp).
       return (r, nd\<lparr>nd_mempool := mp\<rparr>))"

section \<open>Connecting and disconnecting blocks\<close>

definition block_undo ::
  "externals \<Rightarrow> (outpoint, utxo_row) sqltable \<Rightarrow> tx list \<Rightarrow> (outpoint \<times> utxo_row) list" where
  "block_undo x tbl txs =
     concat (map (\<lambda>t. List.map_filter (\<lambda>op. map_option (\<lambda>row. (op, row)) (sql_select tbl op))
       (spent_outpoints x t)) txs)"

definition connect_block_with_undo ::
  "externals \<Rightarrow> bytes \<Rightarrow> int \<Rightarrow> tx list \<Rightarrow> node \<Rightarrow> node" where
  "connect_block_with_undo x block_hash h txs nd =
     (let undo = block_undo x (bs_utxos (nd_blockstore nd)) txs;
          created = concat (map (created_outpoints x) txs)
      in nd\<lparr>nd_blockstore := connect_block_utxos x h txs (nd_blockstore nd),
            undo_log := dict_put block_hash undo (undo_log nd),
            created_log := dict_put block_hash created (created_log nd)\<rparr>)"

definition log_get :: "(bytes, 'a list) pydict \<Rightarrow> bytes \<Rightarrow> 'a list" where
  "log_get d k = (case dict_get d k of None \<Rightarrow> [] | Some l \<Rightarrow> l)"

definition remove_created :: "outpoint list \<Rightarrow> blockstore \<Rightarrow> blockstore" where
  "remove_created ops s =
     fold (\<lambda>op s. if get_utxo s op \<noteq> None then snd (spend_utxo op s) else s) ops s"

definition restore_spent :: "(outpoint \<times> utxo_row) list \<Rightarrow> blockstore \<Rightarrow> blockstore" where
  "restore_spent undo s = fold (\<lambda>(op, row). add_utxo (entry_of_row op row)) undo s"

definition disconnect_block :: "bytes \<Rightarrow> node \<Rightarrow> node" where
  "disconnect_block block_hash nd =
     nd\<lparr>nd_blockstore := restore_spent (log_get (undo_log nd) block_hash)
          (remove_created (log_get (created_log nd) block_hash) (nd_blockstore nd)),
        undo_log := dict_del block_hash (undo_log nd),
        created_log := dict_del block_hash (created_log nd)\<rparr>"

definition evict_all :: "externals \<Rightarrow> tx list \<Rightarrow> node \<Rightarrow> node" where
  "evict_all x txs nd =
     nd\<lparr>nd_mempool := fold (\<lambda>t mp. snd (evict (x_txid x t) mp)) txs (nd_mempool nd)\<rparr>"

section \<open>Generating a block\<close>

text \<open>The nonce loop: it gives up after a million nonces.\<close>

function mine ::
  "externals \<Rightarrow> bytes \<Rightarrow> bytes \<Rightarrow> int \<Rightarrow> int \<Rightarrow> int \<Rightarrow> (bytes \<times> bytes) result" where
  "mine x prev root timestamp target nonce =
     bindR (build_raw_header REGTEST_VERSION prev root timestamp REGTEST_BITS nonce) (\<lambda>r.
     bindR (header_hash x r) (\<lambda>h.
       if hash_to_int h \<le> target then return (r, h)
       else if 1000000 < nonce + 1 then raise PyRuntimeError
       else mine x prev root timestamp target (nonce + 1)))"
  by pat_completeness auto
termination
  by (relation "measure (\<lambda>(_, _, _, _, _, nonce). nat (1000001 - nonce))") auto

declare mine.simps [simp del]

definition valid_fee :: "externals \<Rightarrow> blockstore \<Rightarrow> tx \<Rightarrow> int" where
  "valid_fee x s t = (let r = validate_tx x t s False in if vr_ok r then vr_fee r else 0)"

definition generate_block ::
  "externals \<Rightarrow> script \<Rightarrow> bool \<Rightarrow> bytes \<Rightarrow> int \<Rightarrow> node \<Rightarrow> ((bytes \<times> tx list) \<times> node) result" where
  "generate_block x payout_script include_mempool extra timestamp nd =
     bindR (store_tip (nd_headers nd)) (\<lambda>tip.
       let new_height = height tip + 1;
           included = (if include_mempool then all_txs (nd_mempool nd) else []);
           fee_total = sum_list (map (valid_fee x (nd_blockstore nd)) included);
           coinbase = make_coinbase (coinbase_reward nd + fee_total) payout_script new_height extra;
           txs = coinbase # included;
           m_root = merkle_root x (map (x_txid x) txs);
           target = bits_to_target REGTEST_BITS
       in bindR (header_hash x (raw tip)) (\<lambda>tip_hash_bytes.
          bindR (mine x tip_hash_bytes m_root timestamp target 0) (\<lambda>(raw_header, h).
          bindR (store_connect x (nd_headers nd) raw_header) (\<lambda>(_, hs).
          bindR (serialise_block x raw_header txs) (\<lambda>blk.
            let nd1 = nd\<lparr>nd_headers := hs,
                         nd_blockstore := store_block h new_height blk (nd_blockstore nd)\<rparr>;
                nd2 = connect_block_with_undo x h new_height txs nd1
            in return ((h, txs), evict_all x included nd2))))))"

section \<open>Accepting a block and reorganising\<close>

partial_function (option) path_walk ::
  "header_store \<Rightarrow> header list \<Rightarrow> header option \<Rightarrow> header list option" where
  "path_walk s out cur =
     (if cur \<noteq> None \<and> 0 < height (the cur)
      then path_walk s (out @ [the cur]) (dict_get (by_hash s) (h_prev_hash (the cur)))
      else Some out)"

definition path_to :: "externals \<Rightarrow> node \<Rightarrow> bytes \<Rightarrow> bytes list result option" where
  "path_to x nd h =
     (case path_walk (nd_headers nd) [] (store_lookup (nd_headers nd) h) of
        None \<Rightarrow> None
      | Some walked \<Rightarrow> Some (
          bindR (mapR (\<lambda>c. header_hash x (raw c)) walked) (\<lambda>out.
          bindR (header_hash x (nd_genesis nd)) (\<lambda>g.
            case store_lookup (nd_headers nd) g of
              None \<Rightarrow> raise PyAttributeError
            | Some gh \<Rightarrow> bindR (header_hash x (raw gh)) (\<lambda>gg. return (out @ [gg]))))))"

text \<open>One block of the new chain: read back from the store, connected, its transactions evicted.\<close>

definition reconnect :: "externals \<Rightarrow> node \<Rightarrow> bytes \<Rightarrow> node result" where
  "reconnect x nd h =
     (case get_block (nd_blockstore nd) h of
        None \<Rightarrow> raise PyRuntimeError
      | Some raw_block \<Rightarrow>
          bindR (parse_block x raw_block) (\<lambda>(_, txs).
            case store_lookup (nd_headers nd) h of
              None \<Rightarrow> raise PyAttributeError
            | Some hdr \<Rightarrow> return (evict_all x txs (connect_block_with_undo x h (height hdr) txs nd))))"

definition reorg_utxos :: "externals \<Rightarrow> bytes \<Rightarrow> bytes \<Rightarrow> node \<Rightarrow> node result option" where
  "reorg_utxos x from_tip to_tip nd =
     (case path_to x nd from_tip of
        None \<Rightarrow> None
      | Some old_r \<Rightarrow>
          (case path_to x nd to_tip of
             None \<Rightarrow> None
           | Some new_r \<Rightarrow> Some (
               bindR old_r (\<lambda>old_path.
               bindR new_r (\<lambda>new_path.
                 case find (\<lambda>h. h \<in> set old_path) new_path of
                   None \<Rightarrow> raise PyRuntimeError
                 | Some ancestor \<Rightarrow>
                     let nd1 = fold disconnect_block (takeWhile (\<lambda>h. h \<noteq> ancestor) old_path) nd
                     in foldR (reconnect x) nd1 (rev (takeWhile (\<lambda>h. h \<noteq> ancestor) new_path)))))))"

definition accept_block :: "externals \<Rightarrow> bytes \<Rightarrow> tx list \<Rightarrow> node \<Rightarrow> node result option" where
  "accept_block x raw_header txs nd =
     (let prev_tip = tip_hash (nd_headers nd)
      in case bindR (store_connect x (nd_headers nd) raw_header) (\<lambda>(_, hs).
              bindR (header_hash x raw_header) (\<lambda>h.
                case store_lookup hs h of
                  None \<Rightarrow> raise PyAttributeError
                | Some hdr \<Rightarrow> bindR (serialise_block x raw_header txs) (\<lambda>blk.
                    return (h, hdr, nd\<lparr>nd_headers := hs,
                      nd_blockstore := store_block h (height hdr) blk (nd_blockstore nd)\<rparr>)))) of
           Inl e \<Rightarrow> Some (Inl e)
         | Inr (h, hdr, nd1) \<Rightarrow>
             if tip_hash (nd_headers nd1) = h \<and> prev_tip \<noteq> h_prev_hash hdr
             then reorg_utxos x prev_tip (tip_hash (nd_headers nd1)) nd1
             else if tip_hash (nd_headers nd1) = h
             then Some (Inr (evict_all x txs (connect_block_with_undo x h (height hdr) txs nd1)))
             else Some (Inr nd1))"

section \<open>The coinbase\<close>

text \<open>The height is pushed in the minimal script-number form.\<close>

lemma make_coinbase_height:
  assumes "0 \<le> h"
  shows "script_sig (tx_inputs (make_coinbase v s h extra) ! 0) =
    Push (encode_script_num h) # (if extra \<noteq> [] then [Push extra] else [])"
  using assms by (simp add: make_coinbase_def encode_script_num_def Let_def)

lemma make_coinbase_total: "outputs_total (tx_outputs (make_coinbase v s h extra)) = v"
  by (simp add: make_coinbase_def Let_def)

text \<open>Coinbases of different heights are different transactions.\<close>

lemma make_coinbase_inj:
  assumes "make_coinbase v s h e = make_coinbase v' s' h' e'" and "0 \<le> h" "0 \<le> h'"
  shows "h = h'"
proof -
  have "script_sig (tx_inputs (make_coinbase v s h e) ! 0) = script_sig (tx_inputs (make_coinbase v' s' h' e') ! 0)"
    using assms(1) by simp
  then have "encode_script_num h = encode_script_num h'"
    by (simp add: make_coinbase_height [OF assms(2)] make_coinbase_height [OF assms(3)])
  then show ?thesis by (rule encode_script_num_inj)
qed

lemma regtest_target: "bits_to_target REGTEST_BITS = 0x7FFFFF * 2 ^ 232"
  by (simp add: bits_to_target_eq REGTEST_BITS_def)

lemma regtest_work: "work_for_bits REGTEST_BITS = 2"
  unfolding work_for_bits_def regtest_target by (simp add: Let_def push_bit_eq_mult)

section \<open>Mining\<close>

lemma mine_Inr:
  assumes "mine x prev root ts target nonce = Inr (r, h)"
  shows "header_hash x r = Inr h \<and> hash_to_int h \<le> target \<and>
    (\<exists>n. build_raw_header REGTEST_VERSION prev root ts REGTEST_BITS n = Inr r)"
  using assms
proof (induction x prev root ts target nonce rule: mine.induct)
  case (1 x prev root ts target nonce)
  from 1(2) obtain r1 h1 where r1: "build_raw_header REGTEST_VERSION prev root ts REGTEST_BITS nonce = Inr r1"
    "header_hash x r1 = Inr h1" and
    rest: "(if hash_to_int h1 \<le> target then return (r1, h1)
       else if 1000000 < nonce + 1 then raise PyRuntimeError
       else mine x prev root ts target (nonce + 1)) = Inr (r, h)"
    by (subst (asm) mine.simps) (auto simp: bindR_eq_Inr)
  show ?case
  proof (cases "hash_to_int h1 \<le> target")
    case True
    with rest r1 show ?thesis by auto
  next
    case False
    with rest have "mine x prev root ts target (nonce + 1) = Inr (r, h)" "\<not> 1000000 < nonce + 1"
      by (auto split: if_splits)
    with 1(1) [OF r1 False] show ?thesis by blast
  qed
qed

end
