(* ===== verification/Network_Facts.thy ===== *)
theory Network_Facts
  imports Node_Network
begin

text \<open>
  The lemmas about the node.  The specification of the UTXO table is \<open>replay\<close>: the fold of the
  blocks of the active chain, oldest first, from the empty table.  \<open>tracks\<close> says that the node's
  table has the lookups of the replay of a list of blocks and that its two logs hold what a
  disconnect needs; connecting and disconnecting move it by one block, a reorganisation along the
  two branches, and \<open>node_ok\<close> ties it to the chain of the header store.
\<close>

section \<open>Undoing one block\<close>

lemma get_utxo_None_iff: "get_utxo s op = None \<longleftrightarrow> sql_select (bs_utxos s) op = None"
  by (simp add: get_utxo_def)

lemma remove_created_blocks: "bs_blocks (remove_created ops s) = bs_blocks s"
  by (induction ops arbitrary: s) (auto simp: remove_created_def spend_utxo_def split: option.splits)

lemma remove_created_step:
  "remove_created (op # ops) s = remove_created ops (if get_utxo s op \<noteq> None then snd (spend_utxo op s) else s)"
  by (simp add: remove_created_def)

lemma spend_present:
  "sql_wf (bs_utxos s) \<Longrightarrow> sql_wf (bs_utxos (if get_utxo s op \<noteq> None then snd (spend_utxo op s) else s)) \<and>
     sql_select (bs_utxos (if get_utxo s op \<noteq> None then snd (spend_utxo op s) else s)) k =
       (if k = op then None else sql_select (bs_utxos s) k)"
  by (auto simp: get_utxo_None_iff spend_utxo_def sql.wf_del sql.get_del split: option.splits)

lemma remove_created_get:
  assumes "sql_wf (bs_utxos s)"
  shows "sql_wf (bs_utxos (remove_created ops s)) \<and>
    sql_select (bs_utxos (remove_created ops s)) k =
      (if k \<in> set ops then None else sql_select (bs_utxos s) k)"
  using assms
proof (induction ops arbitrary: s)
  case (Cons op ops)
  from Cons.IH [OF conjunct1 [OF spend_present [OF Cons.prems, of op]]]
    spend_present [OF Cons.prems, of op k]
  show ?case unfolding remove_created_step by auto
qed (simp add: remove_created_def)

lemma restore_spent_utxos:
  "bs_utxos (restore_spent undo s) = fold (\<lambda>(op, row). sql_replace op row) undo (bs_utxos s)"
  by (induction undo arbitrary: s) (auto simp: restore_spent_def add_utxo_def)

lemma restore_spent_blocks: "bs_blocks (restore_spent undo s) = bs_blocks s"
  by (induction undo arbitrary: s) (auto simp: restore_spent_def add_utxo_def)

text \<open>The undo data: the rows the block spends of the table it is connected to.\<close>

lemma block_undo_set:
  "(op, row) \<in> set (block_undo x tbl txs) \<longleftrightarrow> op \<in> block_spent x txs \<and> sql_select tbl op = Some row"
  by (cases row) (force simp: block_undo_def block_spent_def set_map_filter)

lemma block_undo_lookup:
  "map_of (rev (block_undo x tbl txs)) op = (if op \<in> block_spent x txs then sql_select tbl op else None)"
proof (cases "map_of (rev (block_undo x tbl txs)) op")
  case None
  then have "op \<notin> fst ` set (block_undo x tbl txs)" by (simp add: map_of_eq_None_iff)
  then have "(op, row) \<notin> set (block_undo x tbl txs)" for row by force
  then show ?thesis unfolding None block_undo_set by (cases "sql_select tbl op") auto
next
  case (Some row)
  then have "(op, row) \<in> set (block_undo x tbl txs)" using map_of_SomeD by fastforce
  then show ?thesis by (simp add: block_undo_set Some)
qed

lemma block_undo_cong: "sql_select a = sql_select b \<Longrightarrow> block_undo x a txs = block_undo x b txs"
  by (simp add: block_undo_def)

definition block_fresh :: "externals \<Rightarrow> tx list \<Rightarrow> (outpoint, utxo_row) sqltable \<Rightarrow> bool" where
  "block_fresh x txs tbl \<longleftrightarrow> (\<forall>t \<in> set txs. \<forall>k \<in> set (created_outpoints x t). sql_select tbl k = None)"

lemma block_freshD: "block_fresh x txs tbl \<Longrightarrow> k \<in> block_created x txs \<Longrightarrow> sql_select tbl k = None"
  by (auto simp: block_fresh_def block_created_def)

lemma created_concat: "set (concat (map (created_outpoints x) txs)) = block_created x txs"
  by (simp add: block_created_def)

text \<open>The table after connecting a block, removing what it created and restoring what it spent.\<close>

lemma undo_block_table:
  assumes "sql_wf tbl" and "block_fresh x txs tbl" and "sql_wf (bs_utxos s)"
    and "sql_select (bs_utxos s) = sql_select (fold (connect_tx_rows x h) txs tbl)"
  shows "sql_select (bs_utxos (restore_spent (block_undo x tbl txs)
      (remove_created (concat (map (created_outpoints x) txs)) s))) = sql_select tbl"
proof
  fix k
  let ?s = "remove_created (concat (map (created_outpoints x) txs)) s"
  have "sql_select (bs_utxos ?s) k = (if k \<in> block_created x txs then None else
      if k \<in> block_spent x txs then None else sql_select tbl k)"
    using remove_created_get [OF assms(3)] connect_fold_outside [OF assms(1), of k x txs h]
    by (simp add: assms(4) created_concat del: set_concat)
  then show "sql_select (bs_utxos (restore_spent (block_undo x tbl txs) ?s)) k = sql_select tbl k"
    using block_freshD [OF assms(2), of k]
    by (auto simp: restore_spent_utxos sql.get_fold_put block_undo_lookup split: option.splits)
qed

section \<open>The replay of a chain\<close>

type_synonym chain_block = "bytes \<times> int \<times> tx list"

definition replay :: "externals \<Rightarrow> chain_block list \<Rightarrow> (outpoint, utxo_row) sqltable" where
  "replay x blocks = fold (\<lambda>(_, h, txs). fold (connect_tx_rows x h) txs) blocks []"

lemma replay_snoc:
  "replay x (blocks @ [(bh, h, txs)]) = fold (connect_tx_rows x h) txs (replay x blocks)"
  by (simp add: replay_def)

lemma replay_wf: "sql_wf (replay x blocks)"
proof (induction blocks rule: rev_induct)
  case (snoc b blocks)
  then show ?case by (cases b) (simp add: replay_snoc connect_fold_wf)
qed (simp add: replay_def)

text \<open>No block of the chain creates an outpoint that is unspent when it is connected.\<close>

fun fresh_from :: "externals \<Rightarrow> (outpoint, utxo_row) sqltable \<Rightarrow> chain_block list \<Rightarrow> bool" where
  "fresh_from x tbl [] = True"
| "fresh_from x tbl ((bh, h, txs) # blocks) \<longleftrightarrow>
     block_fresh x txs tbl \<and> fresh_from x (fold (connect_tx_rows x h) txs tbl) blocks"

definition fresh_chain :: "externals \<Rightarrow> chain_block list \<Rightarrow> bool" where
  "fresh_chain x blocks = fresh_from x [] blocks"

lemma fresh_from_append:
  "fresh_from x tbl (as @ bs) \<longleftrightarrow>
     fresh_from x tbl as \<and> fresh_from x (fold (\<lambda>(_, h, txs). fold (connect_tx_rows x h) txs) as tbl) bs"
  by (induction x tbl as rule: fresh_from.induct) auto

lemma fresh_chain_snoc:
  "fresh_chain x (blocks @ [(bh, h, txs)]) \<longleftrightarrow> fresh_chain x blocks \<and> block_fresh x txs (replay x blocks)"
  by (simp add: fresh_chain_def fresh_from_append replay_def)

lemma fresh_chain_prefix: "fresh_chain x (as @ bs) \<Longrightarrow> fresh_chain x as"
  by (simp add: fresh_chain_def fresh_from_append)

section \<open>A node that tracks a chain\<close>

fun logged :: "externals \<Rightarrow> node \<Rightarrow> chain_block list \<Rightarrow> chain_block list \<Rightarrow> bool" where
  "logged x nd before [] = True"
| "logged x nd before ((bh, h, txs) # blocks) \<longleftrightarrow>
     dict_get (undo_log nd) bh = Some (block_undo x (replay x before) txs) \<and>
     dict_get (created_log nd) bh = Some (concat (map (created_outpoints x) txs)) \<and>
     logged x nd (before @ [(bh, h, txs)]) blocks"

lemma logged_append:
  "logged x nd before (as @ bs) \<longleftrightarrow> logged x nd before as \<and> logged x nd (before @ as) bs"
  by (induction x nd before as rule: logged.induct) auto

lemma logged_cong:
  assumes "\<And>bh. bh \<in> fst ` set blocks \<Longrightarrow> dict_get (undo_log nd') bh = dict_get (undo_log nd) bh"
    and "\<And>bh. bh \<in> fst ` set blocks \<Longrightarrow> dict_get (created_log nd') bh = dict_get (created_log nd) bh"
    and "logged x nd before blocks"
  shows "logged x nd' before blocks"
  using assms by (induction x nd before blocks rule: logged.induct) auto

definition tracks :: "externals \<Rightarrow> node \<Rightarrow> chain_block list \<Rightarrow> bool" where
  "tracks x nd blocks \<longleftrightarrow>
     sql_wf (bs_utxos (nd_blockstore nd)) \<and>
     sql_select (bs_utxos (nd_blockstore nd)) = sql_select (replay x blocks) \<and>
     dict_wf (undo_log nd) \<and> dict_wf (created_log nd) \<and> distinct (map fst blocks) \<and>
     fresh_chain x blocks \<and> logged x nd [] blocks"

lemma tracksD:
  assumes "tracks x nd blocks"
  shows "sql_wf (bs_utxos (nd_blockstore nd))"
    "sql_select (bs_utxos (nd_blockstore nd)) = sql_select (replay x blocks)"
    "dict_wf (undo_log nd)" "dict_wf (created_log nd)" "distinct (map fst blocks)"
    "fresh_chain x blocks" "logged x nd [] blocks"
  using assms by (simp_all add: tracks_def)

lemma tracks_cong:
  assumes "tracks x nd blocks" and "bs_utxos (nd_blockstore nd') = bs_utxos (nd_blockstore nd)"
    and "undo_log nd' = undo_log nd" and "created_log nd' = created_log nd"
  shows "tracks x nd' blocks"
  using assms logged_cong [of blocks nd' nd x "[]"] by (simp add: tracks_def)

lemma tracks_connect:
  assumes "tracks x nd blocks" and "bh \<notin> fst ` set blocks"
    and "fresh_chain x (blocks @ [(bh, h, txs)])"
  shows "tracks x (connect_block_with_undo x bh h txs nd) (blocks @ [(bh, h, txs)])"
proof -
  note t = tracksD [OF assms(1)]
  let ?nd = "connect_block_with_undo x bh h txs nd"
  have "logged x ?nd [] blocks"
    using assms(2) t(7)
    by (intro logged_cong [of blocks ?nd nd]) (auto simp: connect_block_with_undo_def Let_def dict.get_put)
  moreover have "block_undo x (bs_utxos (nd_blockstore nd)) txs = block_undo x (replay x blocks) txs"
    by (rule block_undo_cong) (rule t(2))
  ultimately have "logged x ?nd [] (blocks @ [(bh, h, txs)])"
    by (simp add: logged_append connect_block_with_undo_def Let_def dict.get_put)
  moreover have "sql_select (bs_utxos (nd_blockstore ?nd)) = sql_select (replay x (blocks @ [(bh, h, txs)]))"
    unfolding replay_snoc
    using connect_fold_cong [OF t(1) replay_wf t(2)]
    by (simp add: connect_block_with_undo_def connect_block_utxos_def Let_def)
  moreover have "sql_wf (bs_utxos (nd_blockstore ?nd))" "dict_wf (undo_log ?nd)" "dict_wf (created_log ?nd)"
    using t(1,3,4)
    by (simp_all add: connect_block_with_undo_def connect_block_utxos_def Let_def connect_fold_wf dict.wf_put)
  ultimately show ?thesis using assms(2,3) t(5) by (simp add: tracks_def)
qed

lemma tracks_disconnect:
  assumes "tracks x nd (blocks @ [(bh, h, txs)])"
  shows "tracks x (disconnect_block bh nd) blocks"
proof -
  note t = tracksD [OF assms]
  let ?nd = "disconnect_block bh nd"
  have new: "bh \<notin> fst ` set blocks" using t(5) by simp
  have logs: "log_get (undo_log nd) bh = block_undo x (replay x blocks) txs"
    "log_get (created_log nd) bh = concat (map (created_outpoints x) txs)"
    using t(7) by (simp_all add: logged_append log_get_def)
  have fresh: "fresh_chain x blocks" "block_fresh x txs (replay x blocks)"
    using t(6) by (simp_all add: fresh_chain_snoc)
  have table: "sql_select (bs_utxos (nd_blockstore ?nd)) = sql_select (replay x blocks)"
    using undo_block_table [OF replay_wf fresh(2) t(1), of h] t(2)
    by (simp add: disconnect_block_def logs replay_snoc)
  have "logged x ?nd [] blocks"
    using t(7) new
    by (intro logged_cong [of blocks ?nd nd])
       (auto simp: logged_append disconnect_block_def dict.get_del t(3,4))
  moreover have "sql_wf (bs_utxos (nd_blockstore ?nd))"
    using remove_created_get [OF t(1)]
    by (simp add: disconnect_block_def restore_spent_utxos sql.wf_fold_put)
  ultimately show ?thesis
    using table fresh(1) t(3-5) by (simp add: tracks_def disconnect_block_def dict.wf_del)
qed

lemma tracks_disconnect_many:
  assumes "tracks x nd (as @ bs)"
  shows "tracks x (fold disconnect_block (rev (map fst bs)) nd) as"
  using assms
proof (induction bs arbitrary: nd rule: rev_induct)
  case (snoc b bs)
  obtain bh h txs where b: "b = (bh, h, txs)" by (cases b)
  from snoc(2) have "tracks x nd ((as @ bs) @ [(bh, h, txs)])" by (simp add: b)
  from snoc(1) [OF tracks_disconnect [OF this]] show ?case by (simp add: b)
qed simp

section \<open>Blocks of the store\<close>

definition stored_txs :: "externals \<Rightarrow> node \<Rightarrow> bytes \<Rightarrow> tx list option" where
  "stored_txs x nd h =
     (case get_block (nd_blockstore nd) h of
        None \<Rightarrow> None
      | Some b \<Rightarrow> (case parse_block x b of Inl _ \<Rightarrow> None | Inr (_, txs) \<Rightarrow> Some txs))"

definition block_at :: "externals \<Rightarrow> node \<Rightarrow> bytes \<Rightarrow> chain_block" where
  "block_at x nd h =
     (h, (case store_lookup (nd_headers nd) h of None \<Rightarrow> 0 | Some hdr \<Rightarrow> height hdr),
      (case stored_txs x nd h of None \<Rightarrow> [] | Some txs \<Rightarrow> txs))"

lemma fst_block_at [simp]: "fst (block_at x nd h) = h"
  by (simp add: block_at_def)

text \<open>What connecting, disconnecting and evicting leave alone.\<close>

definition same_chain_data :: "node \<Rightarrow> node \<Rightarrow> bool" where
  "same_chain_data nd nd' \<longleftrightarrow>
     nd_headers nd' = nd_headers nd \<and> nd_genesis nd' = nd_genesis nd \<and>
     bs_blocks (nd_blockstore nd') = bs_blocks (nd_blockstore nd)"

lemma same_chain_data_refl [simp]: "same_chain_data nd nd"
  by (simp add: same_chain_data_def)

lemma same_chain_data_trans: "same_chain_data a b \<Longrightarrow> same_chain_data b c \<Longrightarrow> same_chain_data a c"
  by (simp add: same_chain_data_def)

lemma same_chain_data_steps [simp]:
  "same_chain_data nd (connect_block_with_undo x bh h txs nd)"
  "same_chain_data nd (disconnect_block bh nd)"
  "same_chain_data nd (evict_all x txs nd)"
  by (simp_all add: same_chain_data_def connect_block_with_undo_def connect_block_utxos_def
      disconnect_block_def remove_created_blocks restore_spent_blocks evict_all_def Let_def)

lemma same_chain_data_fold: "same_chain_data nd (fold disconnect_block hs nd)"
proof (induction hs arbitrary: nd)
  case (Cons h hs)
  have "same_chain_data nd (disconnect_block h nd)" by simp
  from same_chain_data_trans [OF this Cons] show ?case by simp
qed simp

lemma block_at_same: "same_chain_data nd nd' \<Longrightarrow> block_at x nd' = block_at x nd"
  by (simp add: fun_eq_iff block_at_def stored_txs_def get_block_def same_chain_data_def)

lemma path_to_same: "same_chain_data nd nd' \<Longrightarrow> path_to x nd' = path_to x nd"
  by (simp add: fun_eq_iff path_to_def same_chain_data_def cong: option.case_cong)

lemma reconnect_Inr:
  assumes "reconnect x nd h = Inr nd'"
  obtains ht txs where "block_at x nd h = (h, ht, txs)"
    and "nd' = evict_all x txs (connect_block_with_undo x h ht txs nd)"
  using assms
  by (auto simp: reconnect_def bindR_eq_Inr block_at_def stored_txs_def split: option.splits)

lemma tracks_evict_all: "tracks x nd blocks \<Longrightarrow> tracks x (evict_all x txs nd) blocks"
  by (erule tracks_cong) (simp_all add: evict_all_def)

lemma tracks_reconnect:
  assumes "foldR (reconnect x) nd hs = Inr nd'" and "tracks x nd blocks"
    and "fresh_chain x (blocks @ map (block_at x nd) hs)"
    and "distinct (map fst blocks @ hs)"
  shows "tracks x nd' (blocks @ map (block_at x nd) hs) \<and> same_chain_data nd nd'"
  using assms
proof (induction hs arbitrary: nd blocks)
  case (Cons h hs)
  obtain nd1 where nd1: "reconnect x nd h = Inr nd1" and rest: "foldR (reconnect x) nd1 hs = Inr nd'"
    using Cons.prems(1) by (auto simp: bindR_eq_Inr)
  obtain ht txs where b: "block_at x nd h = (h, ht, txs)"
    and n: "nd1 = evict_all x txs (connect_block_with_undo x h (ht) txs nd)"
    by (rule reconnect_Inr [OF nd1])
  have same: "same_chain_data nd nd1"
    unfolding n by (rule same_chain_data_trans) (rule same_chain_data_steps)+
  note bl = block_at_same [OF same, of x]
  have fresh: "fresh_chain x (blocks @ [(h, ht, txs)])"
    using Cons.prems(3) b fresh_chain_prefix [of x "blocks @ [(h, ht, txs)]"] by simp
  have tr: "tracks x nd1 (blocks @ [(h, ht, txs)])"
    unfolding n using Cons.prems(2,4) fresh by (intro tracks_evict_all tracks_connect) auto
  have "tracks x nd' ((blocks @ [(h, ht, txs)]) @ map (block_at x nd1) hs) \<and> same_chain_data nd1 nd'"
    using Cons.prems(3,4) b by (intro Cons.IH rest tr) (auto simp: bl)
  with same show ?case by (auto simp: bl b intro: same_chain_data_trans)
qed simp

section \<open>Paths of the header store\<close>

abbreviation hash_of :: "externals \<Rightarrow> header \<Rightarrow> bytes" where
  "hash_of x c \<equiv> double_sha256 x (raw c)"

lemma stored_hash:
  assumes "header_store_wf x g s" and "dict_get (by_hash s) k = Some c"
  shows "header_hash x (raw c) = Inr k" "hash_of x c = k" "0 \<le> height c" "height c = 0 \<longleftrightarrow> k = g"
proof -
  have l: "header_linked x g (by_hash s) k c" by (rule header_store_wfD(2) [OF assms])
  then show h: "header_hash x (raw c) = Inr k" and "0 \<le> height c" by (simp_all add: header_linked_def)
  from h show "hash_of x c = k" by (auto simp: header_hash_def split: if_splits)
  show "height c = 0 \<longleftrightarrow> k = g"
  proof (cases "k = g")
    case False
    with l obtain p where p: "dict_get (by_hash s) (h_prev_hash c) = Some p" "height c = height p + 1"
      by (auto simp: header_linked_def split: option.splits)
    have "0 \<le> height p" using header_store_wfD(2) [OF assms(1) p(1)] by (simp add: header_linked_def)
    with p False show ?thesis by simp
  qed (use l in \<open>simp add: header_linked_def\<close>)
qed

lemma chain_to_mono:
  assumes "chain_to d h hs" and "\<And>k v. dict_get d k = Some v \<Longrightarrow> dict_get d' k = Some v"
  shows "chain_to d' h hs"
  using assms by (induction d h hs rule: chain_to.induct) (auto intro: chain_to.intros)

lemma chain_to_stored:
  assumes "chain_to (by_hash s) h hs" and "dict_get (by_hash s) k = Some h" and "c \<in> set hs"
  shows "\<exists>k. dict_get (by_hash s) k = Some c"
  using assms by (induction "by_hash s" h hs arbitrary: k rule: chain_to.induct) auto

lemma chain_to_suffix: "chain_to d h (as @ c # bs) \<Longrightarrow> chain_to d c (c # bs)"
proof (induction as arbitrary: h)
  case Nil
  then show ?case using chain_to_hd [OF Nil] by auto
next
  case (Cons a as)
  from Cons.prems obtain p where "chain_to d p (as @ c # bs)"
    by (auto elim!: chain_to_Cons)
  then show ?case by (rule Cons.IH)
qed

lemma chain_to_last: "chain_to d h hs \<Longrightarrow> hs \<noteq> [] \<and> height (last hs) = 0"
  by (induction d h hs rule: chain_to.induct) auto

lemma path_walk_eq:
  assumes "chain_to (by_hash s) h hs" and "header_store_wf x g s" and "dict_get (by_hash s) k = Some h"
  shows "path_walk s out (Some h) = Some (out @ butlast hs)"
  using assms
proof (induction "by_hash s" h hs arbitrary: out k rule: chain_to.induct)
  case (genesis h)
  then show ?case by (subst path_walk.simps) simp
next
  case (step h p hs)
  have "0 < height h" using stored_hash(3) [OF step.prems] step(1) by simp
  moreover have "hs \<noteq> []" using chain_to_last [OF step(3)] by simp
  ultimately show ?case
    using step(2) step(4) [OF step.prems(1) step(2)] by (subst path_walk.simps) simp
qed

lemma path_to_eq:
  assumes "header_store_wf x g (nd_headers nd)" and "header_hash x (nd_genesis nd) = Inr g"
    and "dict_get (by_hash (nd_headers nd)) k = Some h" and "chain_to (by_hash (nd_headers nd)) h hs"
  shows "path_to x nd k = Some (Inr (map (hash_of x) hs))"
proof -
  note wf = assms(1)
  have ne: "hs \<noteq> []" and h0: "height (last hs) = 0" using chain_to_last [OF assms(4)] by auto
  have hash: "header_hash x (raw c) = Inr (hash_of x c)" if c: "c \<in> set hs" for c
  proof -
    obtain kc where "dict_get (by_hash (nd_headers nd)) kc = Some c"
      using chain_to_stored [OF assms(4,3) c] by blast
    from stored_hash(1,2) [OF wf this] show ?thesis by simp
  qed
  obtain kl where kl: "dict_get (by_hash (nd_headers nd)) kl = Some (last hs)"
    using chain_to_stored [OF assms(4,3), of "last hs"] ne by auto
  with stored_hash [OF wf kl] h0 have last: "dict_get (by_hash (nd_headers nd)) g = Some (last hs)"
    "header_hash x (raw (last hs)) = Inr g" "hash_of x (last hs) = g" by auto
  have out: "mapR (\<lambda>c. header_hash x (raw c)) (butlast hs) = Inr (map (hash_of x) (butlast hs))"
    by (intro mapR_all_return hash) (rule in_set_butlastD)
  have all: "map (hash_of x) (butlast hs) @ [g] = map (hash_of x) hs"
  proof -
    have "map (hash_of x) hs = map (hash_of x) (butlast hs @ [last hs])" using ne by simp
    also have "\<dots> = map (hash_of x) (butlast hs) @ [g]" unfolding map_append by (simp add: last(3))
    finally show ?thesis by (rule sym)
  qed
  have walk: "path_walk (nd_headers nd) [] (Some h) = Some (butlast hs)"
    using path_walk_eq [OF assms(4) wf assms(3), of "[]"] by simp
  show ?thesis
    unfolding path_to_def store_lookup_def assms(3) walk option.case out assms(2) bindR_simps last(1,2) all ..
qed

lemma chain_hashes_distinct:
  assumes "header_store_wf x g s" and "dict_get (by_hash s) k = Some h" and "chain_to (by_hash s) h hs"
  shows "distinct (map (hash_of x) hs)"
proof -
  obtain hs' where "chain_to (by_hash s) h hs'" "\<forall>i < length hs'. height (hs' ! i) = height h - int i"
    using stored_chain [OF assms(1,2)] by blast
  then have heights: "\<forall>i < length hs. height (hs ! i) = height h - int i"
    using chain_to_fun [OF assms(3)] by blast
  have "hash_of x (hs ! i) \<noteq> hash_of x (hs ! j)" if ij: "i < length hs" "j < length hs" "i \<noteq> j" for i j
  proof
    assume eq: "hash_of x (hs ! i) = hash_of x (hs ! j)"
    obtain ki kj where ki: "dict_get (by_hash s) ki = Some (hs ! i)"
      and kj: "dict_get (by_hash s) kj = Some (hs ! j)"
      using chain_to_stored [OF assms(3,2) nth_mem [OF ij(1)]]
        chain_to_stored [OF assms(3,2) nth_mem [OF ij(2)]] by blast
    from stored_hash(2) [OF assms(1) ki] stored_hash(2) [OF assms(1) kj] eq ki kj
    have same: "hs ! i = hs ! j" by simp
    have "height (hs ! i) = height h - int i" "height (hs ! j) = height h - int j"
      using heights ij(1,2) by blast+
    then have "height h - int i = height h - int j" by (simp only: same)
    with ij(3) show False by simp
  qed
  then show ?thesis by (auto simp: distinct_conv_nth)
qed

section \<open>The node invariant\<close>

definition active_path :: "externals \<Rightarrow> node \<Rightarrow> bytes list" where
  "active_path x nd =
     (case path_to x nd (tip_hash (nd_headers nd)) of
        Some (Inr p) \<Rightarrow> rev (butlast p)
      | _ \<Rightarrow> [])"

definition active_blocks :: "externals \<Rightarrow> node \<Rightarrow> chain_block list" where
  "active_blocks x nd = map (block_at x nd) (active_path x nd)"

definition node_ok :: "externals \<Rightarrow> bytes \<Rightarrow> node \<Rightarrow> bool" where
  "node_ok x g nd \<longleftrightarrow>
     header_hash x (nd_genesis nd) = Inr g \<and> header_store_wf x g (nd_headers nd) \<and>
     tracks x nd (active_blocks x nd)"

lemma active_blocks_same:
  assumes "same_chain_data nd nd'"
  shows "active_blocks x nd' = active_blocks x nd"
  using block_at_same [OF assms] path_to_same [OF assms] assms
  by (simp add: active_blocks_def active_path_def same_chain_data_def)

lemma takeWhile_split: "a \<in> set xs \<Longrightarrow> \<exists>ys. xs = takeWhile (\<lambda>y. y \<noteq> a) xs @ a # ys"
proof (induction xs)
  case (Cons z zs)
  show ?case
  proof (cases "z = a")
    case False
    then obtain ys where "zs = takeWhile (\<lambda>y. y \<noteq> a) zs @ a # ys" using Cons by auto
    with False show ?thesis by (intro exI [of _ ys]) simp
  qed simp
qed simp

text \<open>Two chains that meet in a block continue in the same way.\<close>

lemma common_suffix:
  assumes "header_store_wf x g s"
    and "dict_get (by_hash s) k = Some h" "chain_to (by_hash s) h hs"
    and "dict_get (by_hash s) k' = Some h'" "chain_to (by_hash s) h' hs'"
    and "map (hash_of x) hs = as @ a # bs" and "map (hash_of x) hs' = as' @ a # bs'"
  shows "bs = bs'"
proof -
  obtain ps c qs where hs: "hs = ps @ c # qs" "hash_of x c = a" "map (hash_of x) qs = bs"
    using assms(6) by (auto simp: map_eq_append_conv)
  obtain ps' c' qs' where hs': "hs' = ps' @ c' # qs'" "hash_of x c' = a" "map (hash_of x) qs' = bs'"
    using assms(7) by (auto simp: map_eq_append_conv)
  obtain l where l: "dict_get (by_hash s) l = Some c" using chain_to_stored [OF assms(3,2), of c] hs by auto
  obtain l' where l': "dict_get (by_hash s) l' = Some c'" using chain_to_stored [OF assms(5,4), of c'] hs' by auto
  have "c = c'"
    using stored_hash(2) [OF assms(1) l] stored_hash(2) [OF assms(1) l'] l l' hs(2) hs'(2) by simp
  then have "c # qs = c # qs'"
    using chain_to_suffix [of "by_hash s" h ps c qs] chain_to_suffix [of "by_hash s" h' ps' c' qs']
      assms(3,5) hs(1) hs'(1) chain_to_fun by blast
  then show ?thesis using hs(3) hs'(3) by simp
qed

section \<open>Reorganisation\<close>

lemma reconnect_same: "reconnect x nd h = Inr nd' \<Longrightarrow> same_chain_data nd nd'"
  by (erule reconnect_Inr) (metis same_chain_data_steps(1,3) same_chain_data_trans)

lemma reorg_same:
  assumes "reorg_utxos x a b nd = Some (Inr nd')"
  shows "same_chain_data nd nd'"
proof -
  obtain hs hs' where "foldR (reconnect x) (fold disconnect_block hs nd) hs' = Inr nd'"
    using assms by (auto simp: reorg_utxos_def Let_def bindR_eq_Inr split: option.splits)
  then show ?thesis
    by (rule foldR_invariant [where P = "same_chain_data nd"])
       (auto intro: same_chain_data_fold same_chain_data_trans reconnect_same)
qed

lemma reorg_tracks:
  assumes wf: "header_store_wf x g (nd_headers nd)" "header_hash x (nd_genesis nd) = Inr g"
    and old: "path_to x nd from_tip = Some (Inr old)" "dict_get (by_hash (nd_headers nd)) from_tip = Some h"
    and new: "path_to x nd to_tip = Some (Inr new)" "dict_get (by_hash (nd_headers nd)) to_tip = Some h'"
    and tr: "tracks x nd (map (block_at x nd) (rev (butlast old)))"
    and fresh: "fresh_chain x (map (block_at x nd) (rev (butlast new)))"
    and r: "reorg_utxos x from_tip to_tip nd = Some (Inr nd')"
  shows "tracks x nd' (map (block_at x nd) (rev (butlast new))) \<and> same_chain_data nd nd'"
proof -
  obtain hs where hs: "chain_to (by_hash (nd_headers nd)) h hs" using stored_chain [OF wf(1) old(2)] by blast
  obtain hs' where hs': "chain_to (by_hash (nd_headers nd)) h' hs'" using stored_chain [OF wf(1) new(2)] by blast
  have old_eq: "old = map (hash_of x) hs" using path_to_eq [OF wf old(2) hs] old(1) by simp
  have new_eq: "new = map (hash_of x) hs'" using path_to_eq [OF wf new(2) hs'] new(1) by simp
  obtain a where a: "find (\<lambda>h. h \<in> set old) new = Some a"
    and rest: "foldR (reconnect x) (fold disconnect_block (takeWhile (\<lambda>h. h \<noteq> a) old) nd)
        (rev (takeWhile (\<lambda>h. h \<noteq> a) new)) = Inr nd'"
    using r old(1) new(1) by (auto simp: reorg_utxos_def Let_def split: option.splits)
  have "a \<in> set old" "a \<in> set new" using a by (auto simp: find_Some_iff)
  then obtain bs bs' where o1: "old = takeWhile (\<lambda>h. h \<noteq> a) old @ a # bs"
    and n1: "new = takeWhile (\<lambda>h. h \<noteq> a) new @ a # bs'"
    using takeWhile_split by metis
  define po where "po = takeWhile (\<lambda>h. h \<noteq> a) old"
  define pn where "pn = takeWhile (\<lambda>h. h \<noteq> a) new"
  have "bs = bs'"
    using common_suffix [OF wf(1) old(2) hs new(2) hs'] o1 n1 old_eq new_eq by metis
  then have o2: "old = po @ a # bs" and n2: "new = pn @ a # bs"
    using o1 n1 unfolding po_def pn_def by simp_all
  define common where "common = rev (butlast (a # bs))"
  have o3: "rev (butlast old) = common @ rev po" and n3: "rev (butlast new) = common @ rev pn"
    unfolding o2 n2 common_def by (simp_all add: butlast_append)
  have "tracks x nd (map (block_at x nd) common @ map (block_at x nd) (rev po))"
    using tr by (simp add: o3)
  from tracks_disconnect_many [OF this]
  have t1: "tracks x (fold disconnect_block po nd) (map (block_at x nd) common)"
    by (simp add: rev_map comp_def)
  have same: "same_chain_data nd (fold disconnect_block po nd)" by (rule same_chain_data_fold)
  note bl = block_at_same [OF same, of x]
  have "distinct new" unfolding new_eq by (rule chain_hashes_distinct [OF wf(1) new(2) hs'])
  then have "distinct (rev (butlast new))" by (simp add: distinct_butlast)
  then have d: "distinct (common @ rev pn)" by (simp only: n3)
  have "tracks x nd' (map (block_at x nd) common @ map (block_at x (fold disconnect_block po nd)) (rev pn)) \<and>
      same_chain_data (fold disconnect_block po nd) nd'"
  proof (rule tracks_reconnect [OF _ t1])
    show "foldR (reconnect x) (fold disconnect_block po nd) (rev pn) = Inr nd'"
      using rest by (simp add: po_def pn_def)
    show "fresh_chain x (map (block_at x nd) common @ map (block_at x (fold disconnect_block po nd)) (rev pn))"
      using fresh by (simp only: bl n3 map_append)
    show "distinct (map fst (map (block_at x nd) common) @ rev pn)"
      using d by (simp add: comp_def)
  qed
  then show ?thesis
    using same by (auto simp: bl n3 intro: same_chain_data_trans)
qed

text \<open>Accepting a new block keeps the invariant: the UTXO table is the replay of the active chain,
  also after a reorganisation.\<close>

lemma accept_block_ok:
  assumes acc: "accept_block x r txs nd = Some (Inr nd')" and ok: "node_ok x g nd"
    and unknown: "dict_get (by_hash (nd_headers nd)) (double_sha256 x r) = None"
    and rb: "\<And>t. t \<in> set txs \<Longrightarrow> reads_back x t"
    and fresh: "fresh_chain x (active_blocks x nd')"
  shows "node_ok x g nd'"
proof -
  let ?h = "double_sha256 x r" and ?s = "nd_headers nd"
  have gen: "header_hash x (nd_genesis nd) = Inr g" and wf: "header_store_wf x g ?s"
    and tr: "tracks x nd (active_blocks x nd)" using ok by (simp_all add: node_ok_def)
  obtain t where t: "dict_get (by_hash ?s) (tip_hash ?s) = Some t"
    using header_store_wfD(3) [OF wf] by blast
  obtain ts where ts: "chain_to (by_hash ?s) t ts" using stored_chain [OF wf t] by blast
  obtain c hs where con: "store_connect x ?s r = Inr (c, hs)"
    using acc by (cases "store_connect x ?s r") (auto simp: accept_block_def)
  note wf' = store_connect_wf [OF con wf]
  from store_connect_cases [OF con wf] unknown obtain p where
    len: "length r = 80" and p: "dict_get (by_hash ?s) (slice 4 36 r) = Some p" and rawc: "raw c = r"
    and hs: "hs = \<lparr>by_hash = dict_put ?h c (by_hash ?s),
        tip_hash = (if cumulative_work t < cumulative_work c then ?h else tip_hash ?s)\<rparr>"
    and hh: "header_hash x r = Inr ?h" and hc: "height c = height p + 1"
    using t by auto
  obtain blk where blk: "serialise_block x r txs = Inr blk"
    using acc hh con hs by (cases "serialise_block x r txs") (auto simp: accept_block_def store_lookup_def)
  define nd1 where "nd1 = nd\<lparr>nd_headers := hs,
      nd_blockstore := store_block ?h (height c) blk (nd_blockstore nd)\<rparr>"
  have acc': "accept_block x r txs nd =
      (if tip_hash hs = ?h \<and> tip_hash ?s \<noteq> h_prev_hash c then reorg_utxos x (tip_hash ?s) (tip_hash hs) nd1
       else if tip_hash hs = ?h then Some (Inr (evict_all x txs (connect_block_with_undo x ?h (height c) txs nd1)))
       else Some (Inr nd1))"
    using con hh blk by (simp add: accept_block_def store_lookup_def hs nd1_def Let_def)
  have h1: "nd_headers nd1 = hs" and g1: "header_hash x (nd_genesis nd1) = Inr g"
    using gen by (simp_all add: nd1_def)
  have keep: "dict_get (by_hash hs) k = Some v" if "dict_get (by_hash ?s) k = Some v" for k v
    using that unknown by (auto simp: hs dict.get_put)
  have ts': "chain_to (by_hash hs) t ts" by (rule chain_to_mono [OF ts keep])
  have path: "path_to x nd (tip_hash ?s) = Some (Inr (map (hash_of x) ts))"
    by (rule path_to_eq [OF wf gen t ts])
  have path1: "path_to x nd1 (tip_hash ?s) = Some (Inr (map (hash_of x) ts))"
    using path_to_eq [of x g nd1 "tip_hash ?s" t ts] wf' g1 keep [OF t] ts' by (simp add: h1)
  have nonew: "?h \<notin> set (map (hash_of x) ts)"
  proof
    assume "?h \<in> set (map (hash_of x) ts)"
    then obtain d where "d \<in> set ts" "hash_of x d = ?h" by auto
    moreover from this(1) obtain k where "dict_get (by_hash ?s) k = Some d"
      using chain_to_stored [OF ts t] by blast
    ultimately show False using stored_hash(2) [OF wf, of k d] unknown by auto
  qed
  have at1: "block_at x nd1 k = block_at x nd k" if "k \<noteq> ?h" for k
    using that by (simp add: block_at_def stored_txs_def get_block_def store_lookup_def nd1_def hs
        store_block_def)
  have ab: "active_blocks x nd = map (block_at x nd1) (rev (butlast (map (hash_of x) ts)))"
  proof -
    have "block_at x nd k = block_at x nd1 k" if "k \<in> set (map (hash_of x) ts)" for k
    proof -
      have "k \<noteq> ?h" using nonew that by blast
      from at1 [OF this] show ?thesis by simp
    qed
    note eq = this
    have "map (block_at x nd) (rev (butlast (map (hash_of x) ts))) =
        map (block_at x nd1) (rev (butlast (map (hash_of x) ts)))"
    proof (rule map_cong [OF refl])
      fix k assume "k \<in> set (rev (butlast (map (hash_of x) ts)))"
      then have "k \<in> set (map (hash_of x) ts)" unfolding set_rev by (rule in_set_butlastD)
      then show "block_at x nd k = block_at x nd1 k" by (rule eq)
    qed
    then show ?thesis by (simp add: active_blocks_def active_path_def path)
  qed
  have tr1: "tracks x nd1 (map (block_at x nd1) (rev (butlast (map (hash_of x) ts))))"
    unfolding ab [symmetric] by (rule tracks_cong [OF tr]) (simp_all add: nd1_def store_block_def)
  have ath: "block_at x nd1 ?h = (?h, height c, txs)"
    using parse_serialise_block [OF blk rb, of "[]"]
    by (simp add: block_at_def stored_txs_def get_block_def store_lookup_def nd1_def hs store_block_def)
  have result: "node_ok x g nd'"
    if "same_chain_data nd1 nd'" "tracks x nd' (active_blocks x nd1)"
    using that wf' g1 active_blocks_same [OF that(1), of x]
    by (simp add: node_ok_def h1 same_chain_data_def)
  consider (side) "tip_hash hs \<noteq> ?h" "nd' = nd1"
    | (direct) "tip_hash hs = ?h" "tip_hash ?s = h_prev_hash c"
        "nd' = evict_all x txs (connect_block_with_undo x ?h (height c) txs nd1)"
    | (reorg) "tip_hash hs = ?h" "reorg_utxos x (tip_hash ?s) (tip_hash hs) nd1 = Some (Inr nd')"
  proof -
    have "(if a \<and> b then u else if a then d else e) = v \<Longrightarrow> \<not> a \<and> v = e \<or> a \<and> \<not> b \<and> v = d \<or> a \<and> v = u"
      for a b and u d e v :: "node result option"
      by (auto split: if_splits)
    from this [OF acc' [symmetric, THEN trans, OF acc]] that show ?thesis
      unfolding option.inject sum.inject not_not by metis
  qed
  then show ?thesis
  proof cases
    case side
    have "tip_hash hs = tip_hash ?s" using side(1) by (auto simp: hs split: if_splits)
    then have "active_blocks x nd1 = map (block_at x nd1) (rev (butlast (map (hash_of x) ts)))"
      by (simp add: active_blocks_def active_path_def h1 path1)
    with tr1 side(2) result show ?thesis by simp
  next
    case direct
    have same: "same_chain_data nd1 nd'"
      unfolding direct(3) by (rule same_chain_data_trans) (rule same_chain_data_steps)+
    have c: "dict_get (by_hash hs) ?h = Some c" by (simp add: hs)
    have pt: "p = t" using p t direct(2) by (simp add: h_prev_hash_def rawc)
    have "0 \<le> height p" using stored_hash(3) [OF wf p] .
    then have "chain_to (by_hash hs) c (c # ts)"
      using hc pt ts' keep [OF t] direct(2) by (intro chain_to.step) auto
    then have "path_to x nd1 ?h = Some (Inr (?h # map (hash_of x) ts))"
      using path_to_eq [of x g nd1 ?h c "c # ts"] wf' g1 c by (simp add: h1 rawc)
    moreover have "ts \<noteq> []" using chain_to_last [OF ts] by simp
    ultimately have ab1: "active_blocks x nd1 =
        map (block_at x nd1) (rev (butlast (map (hash_of x) ts))) @ [(?h, height c, txs)]"
      by (simp add: active_blocks_def active_path_def h1 direct(1) ath)
    have "tracks x nd' (active_blocks x nd1)"
      unfolding direct(3) ab1
    proof (intro tracks_evict_all tracks_connect tr1)
      show "?h \<notin> fst ` set (map (block_at x nd1) (rev (butlast (map (hash_of x) ts))))"
        using nonew by (auto simp: image_image dest!: in_set_butlastD)
      show "fresh_chain x (map (block_at x nd1) (rev (butlast (map (hash_of x) ts))) @ [(?h, height c, txs)])"
        using fresh by (simp add: active_blocks_same [OF same] ab1)
    qed
    with same show ?thesis by (rule result)
  next
    case reorg
    have c: "dict_get (by_hash (nd_headers nd1)) ?h = Some c" by (simp add: hs h1)
    obtain cs where cs: "chain_to (by_hash hs) c cs" using stored_chain [OF wf', of ?h c] c h1 by auto
    have pathn: "path_to x nd1 ?h = Some (Inr (map (hash_of x) cs))"
      using path_to_eq [of x g nd1 ?h c cs] wf' g1 c cs by (simp add: h1)
    have ab1: "active_blocks x nd1 = map (block_at x nd1) (rev (butlast (map (hash_of x) cs)))"
      by (simp add: active_blocks_def active_path_def h1 reorg(1) pathn)
    have t1: "dict_get (by_hash (nd_headers nd1)) (tip_hash ?s) = Some t" using keep [OF t] by (simp add: h1)
    have wf1: "header_store_wf x g (nd_headers nd1)" using wf' by (simp add: h1)
    have r: "reorg_utxos x (tip_hash ?s) ?h nd1 = Some (Inr nd')" using reorg by simp
    let ?old = "map (hash_of x) ts" and ?new = "map (hash_of x) cs"
    have ends: "tracks x nd' (map (block_at x nd1) (rev (butlast ?new))) \<and> same_chain_data nd1 nd'"
      if "fresh_chain x (map (block_at x nd1) (rev (butlast ?new)))"
      using that reorg_tracks [OF wf1 g1 path1 t1 pathn c tr1 _ r] by blast
    have "same_chain_data nd1 nd'" by (rule reorg_same [OF r])
    with ends result fresh show ?thesis by (simp add: active_blocks_same ab1)
  qed
qed

text \<open>The walks of a reorganisation end: both tips are stored, and so are their ancestors.\<close>

lemma path_to_returns:
  assumes "header_store_wf x g (nd_headers nd)" and "header_hash x (nd_genesis nd) = Inr g"
    and "dict_get (by_hash (nd_headers nd)) k = Some h"
  shows "\<exists>p. path_to x nd k = Some (Inr p)"
  using path_to_eq [OF assms] stored_chain [OF assms(1,3)] by blast

lemma accept_block_returns:
  assumes "header_store_wf x g (nd_headers nd)" and "header_hash x (nd_genesis nd) = Inr g"
  shows "accept_block x r txs nd \<noteq> None"
proof (cases "store_connect x (nd_headers nd) r")
  case (Inr res)
  then obtain hdr hs where c: "store_connect x (nd_headers nd) r = Inr (hdr, hs)"
    by (cases res) auto
  note wf = store_connect_wf [OF c assms(1)]
  obtain t where t: "dict_get (by_hash (nd_headers nd)) (tip_hash (nd_headers nd)) = Some t"
    using header_store_wfD(3) [OF assms(1)] by blast
  obtain t' where t': "dict_get (by_hash hs) (tip_hash hs) = Some t'"
    using header_store_wfD(3) [OF wf] by blast
  have "reorg_utxos x (tip_hash (nd_headers nd)) (tip_hash hs) nd1 \<noteq> None"
    if "nd_headers nd1 = hs" "nd_genesis nd1 = nd_genesis nd" for nd1
    using path_to_returns [of x g nd1 "tip_hash (nd_headers nd)" t]
      path_to_returns [of x g nd1 "tip_hash hs" t'] that wf assms(2) t t' store_connect_mono [OF c assms(1) t]
    by (auto simp: reorg_utxos_def)
  with c show ?thesis
    by (auto simp: accept_block_def bindR_def Let_def split: sum.splits option.splits)
qed (simp add: accept_block_def)

end
