(* ===== verification/Node_Supply.thy ===== *)
theory Node_Supply
  imports Network_Facts
begin

text \<open>
  What generating a block does to the money in the UTXO table and to the chain: the coinbase pays
  the reward and the fees, so a block of valid, non-conflicting transactions adds exactly the
  reward; the mined header extends the tip and becomes the new one.
\<close>

section \<open>The total over a block\<close>

lemma connect_fold_total [conservation]:
  assumes "sql_wf tbl" and "distinct (concat (map (spent_outpoints x) txs))"
    and "\<And>op. op \<in> block_spent x txs \<Longrightarrow> sql_select tbl op \<noteq> None"
    and "block_fresh x txs tbl" and "distinct (map (x_txid x) txs)"
  shows "utxo_total (fold (connect_tx_rows x h) txs tbl) =
    utxo_total tbl + (\<Sum>t \<leftarrow> txs. outputs_total (tx_outputs t) - spent_value tbl (spent_outpoints x t))"
  using assms
proof (induction txs arbitrary: tbl)
  case (Cons t txs)
  let ?tbl = "connect_tx_rows x h t tbl"
  have wf: "sql_wf ?tbl" using Cons.prems(1) by (rule connect_tx_wf)
  have not_created: "map_of (created_rows x h t) op = None" if "op \<in> block_spent x txs" for op
  proof -
    have "sql_select tbl op \<noteq> None" using Cons.prems(3) that by (simp add: block_sets_Cons)
    then have "op \<notin> set (created_outpoints x t)" using Cons.prems(4) by (auto simp: block_fresh_def)
    then show ?thesis by (simp add: map_of_created_None)
  qed
  have keep: "sql_select ?tbl op = sql_select tbl op" if "op \<in> block_spent x txs" for op
  proof -
    have "op \<notin> set (spent_outpoints x t)"
      using Cons.prems(2) that by (auto simp: block_spent_def)
    then show ?thesis using not_created [OF that] by (simp add: connect_tx_select Cons.prems(1))
  qed
  have fresh: "block_fresh x txs ?tbl"
    unfolding block_fresh_def
  proof (intro ballI)
    fix t' k assume t': "t' \<in> set txs" and k: "k \<in> set (created_outpoints x t')"
    have "x_txid x t \<notin> x_txid x ` set txs" using Cons.prems(5) by simp
    then have "x_txid x t' \<noteq> x_txid x t" using imageI [OF t', of "x_txid x"] by metis
    then have "k \<notin> set (created_outpoints x t)" using k by (auto simp: created_outpoints_def)
    then have "map_of (created_rows x h t) k = None" by (simp add: map_of_created_None)
    moreover have "sql_select tbl k = None" using Cons.prems(4) t' k by (simp add: block_fresh_def)
    ultimately show "sql_select ?tbl k = None" by (simp add: connect_tx_select Cons.prems(1))
  qed
  have same: "spent_value ?tbl (spent_outpoints x t') = spent_value tbl (spent_outpoints x t')"
    if t': "t' \<in> set txs" for t'
  proof -
    have "sql_select ?tbl op = sql_select tbl op" if "op \<in> set (spent_outpoints x t')" for op
      using t' that by (intro keep) (auto simp: block_spent_def)
    then show ?thesis by (simp add: spent_value_def cong: map_cong)
  qed
  have "utxo_total (fold (connect_tx_rows x h) txs ?tbl) = utxo_total ?tbl +
      (\<Sum>t \<leftarrow> txs. outputs_total (tx_outputs t) - spent_value ?tbl (spent_outpoints x t))"
    using Cons.prems(2,3,5) keep fresh by (intro Cons.IH wf) (auto simp: block_sets_Cons)
  also have "(\<Sum>t \<leftarrow> txs. outputs_total (tx_outputs t) - spent_value ?tbl (spent_outpoints x t)) =
      (\<Sum>t \<leftarrow> txs. outputs_total (tx_outputs t) - spent_value tbl (spent_outpoints x t))"
    using same by (intro arg_cong [where f = sum_list] map_cong) auto
  also have "utxo_total ?tbl =
      utxo_total tbl - spent_value tbl (spent_outpoints x t) + outputs_total (tx_outputs t)"
    using Cons.prems(2,4) by (intro connect_tx_total Cons.prems(1)) (auto simp: block_fresh_def)
  finally show ?case by simp
qed simp

section \<open>The transactions of the mempool\<close>

lemma all_txs_ids:
  assumes "mempool_wf x mp"
  shows "map (x_txid x) (all_txs mp) = map fst (entries mp)"
proof -
  have "x_txid x (me_tx (snd p)) = fst p" if "p \<in> set (entries mp)" for p
    using assms that by (cases p) (auto simp: mempool_wf_def)
  then show ?thesis by (simp add: all_txs_def case_prod_unfold comp_def)
qed

lemma all_txs_entry: "t \<in> set (all_txs mp) \<Longrightarrow> \<exists>k e. (k, e) \<in> set (entries mp) \<and> t = me_tx e"
  by (auto simp: all_txs_def)

lemma all_txs_distinct_ids: "mempool_wf x mp \<Longrightarrow> distinct (map (x_txid x) (all_txs mp))"
  using mempool_wfD(1) by (simp add: all_txs_ids dict_wf_def)

lemma all_txs_disjoint:
  assumes "mempool_wf x mp" and "s \<in> set (all_txs mp)" "t \<in> set (all_txs mp)"
    and "op \<in> set (tx_outpoints s)" "op \<in> set (tx_outpoints t)"
  shows "x_txid x s = x_txid x t"
proof -
  note wf = mempool_wfD [OF assms(1)]
  have get: "\<exists>e. dict_get (entries mp) (x_txid x u) = Some e \<and> u = me_tx e" if u: "u \<in> set (all_txs mp)" for u
  proof -
    obtain k e where ke: "(k, e) \<in> set (entries mp)" "u = me_tx e" using all_txs_entry [OF u] by blast
    then have "dict_get (entries mp) k = Some e" using dict.items_get [OF wf(1)] by blast
    with wf(3) [OF this] ke(2) show ?thesis by auto
  qed
  from get [OF assms(2)] get [OF assms(3)] assms(4,5) show ?thesis
    using mempool_no_double_spend [OF assms(1)] by blast
qed

lemma distinct_concat_outpoints:
  assumes "distinct (map f ts)" and "\<And>t. t \<in> set ts \<Longrightarrow> distinct (g t)"
    and "\<And>s t op. s \<in> set ts \<Longrightarrow> t \<in> set ts \<Longrightarrow> op \<in> set (g s) \<Longrightarrow> op \<in> set (g t) \<Longrightarrow> f s = f t"
  shows "distinct (concat (map g ts))"
  using assms
proof (induction ts)
  case (Cons t ts)
  have "distinct (concat (map g ts))" using Cons.prems by (intro Cons.IH) auto
  moreover have "set (g t) \<inter> set (concat (map g ts)) = {}"
  proof (rule ccontr)
    assume "set (g t) \<inter> set (concat (map g ts)) \<noteq> {}"
    then obtain op s where "op \<in> set (g t)" "s \<in> set ts" "op \<in> set (g s)" by auto
    with Cons.prems(3) [of t s op] have "f t = f s" by simp
    with Cons.prems(1) \<open>s \<in> set ts\<close> show False by auto
  qed
  ultimately show ?case using Cons.prems(2) by simp
qed simp

section \<open>The supply\<close>

lemma spent_value_inputs:
  "spent_value (bs_utxos s) (tx_outpoints t) = sum_list (map (input_value s) (tx_inputs t))"
proof -
  have "(case sql_select (bs_utxos s) (outpoint_of i) of None \<Rightarrow> 0 | Some row \<Rightarrow> fst row) = input_value s i" for i
    by (simp add: input_value_def get_utxo_def entry_of_row_def split: option.splits)
  then show ?thesis by (simp add: spent_value_def tx_outpoints_def comp_def)
qed

lemma tx_valid_inputs_present:
  assumes "tx_valid x s t" and "op \<in> set (tx_outpoints t)"
  shows "sql_select (bs_utxos s) op \<noteq> None"
proof -
  obtain i where i: "i < length (tx_inputs t)" "op = outpoint_of (tx_inputs t ! i)"
    using assms(2) by (auto simp: tx_outpoints_def in_set_conv_nth)
  then have "input_ok x s t i (tx_inputs t ! i)" using assms(1) by (simp add: tx_valid_def)
  then show ?thesis by (auto simp: input_ok_def i(2) get_utxo_def split: option.splits)
qed

lemma generate_block_Inr:
  assumes "generate_block x script True extra ts nd = Inr ((h, txs), nd')"
  obtains tip c hs r blk where
    "store_tip (nd_headers nd) = Inr tip"
    "txs = make_coinbase (coinbase_reward nd +
        sum_list (map (valid_fee x (nd_blockstore nd)) (all_txs (nd_mempool nd)))) script
        (height tip + 1) extra # all_txs (nd_mempool nd)"
    "header_hash x r = Inr h" "store_connect x (nd_headers nd) r = Inr (c, hs)"
    "slice 4 36 r = double_sha256 x (raw tip)" "int_from_le (slice 72 76 r) = REGTEST_BITS"
    "slice 36 68 r = merkle_root x (map (x_txid x) txs)"
    "nd_headers nd' = hs"
    "bs_utxos (nd_blockstore nd') =
       fold (connect_tx_rows x (height tip + 1)) txs (bs_utxos (nd_blockstore nd))"
proof -
  obtain tip where tip: "store_tip (nd_headers nd) = Inr tip"
    using assms by (auto simp: generate_block_def bindR_eq_Inr)
  define fees where "fees = sum_list (map (valid_fee x (nd_blockstore nd)) (all_txs (nd_mempool nd)))"
  define T where "T = make_coinbase (coinbase_reward nd + fees) script (height tip + 1) extra #
      all_txs (nd_mempool nd)"
  obtain th r h1 c hs blk where th: "header_hash x (raw tip) = Inr th"
    and m: "mine x th (merkle_root x (map (x_txid x) T)) ts (bits_to_target REGTEST_BITS) 0 = Inr (r, h1)"
    and con: "store_connect x (nd_headers nd) r = Inr (c, hs)"
    and res: "h = h1" "txs = T" "nd' = evict_all x (all_txs (nd_mempool nd))
        (connect_block_with_undo x h1 (height tip + 1) T (nd\<lparr>nd_headers := hs,
          nd_blockstore := store_block h1 (height tip + 1) blk (nd_blockstore nd)\<rparr>))"
    using assms tip by (auto simp: generate_block_def bindR_eq_Inr Let_def T_def fees_def)
  obtain n where hh: "header_hash x r = Inr h1" and
    b: "build_raw_header REGTEST_VERSION th (merkle_root x (map (x_txid x) T)) ts REGTEST_BITS n = Inr r"
    using mine_Inr [OF m] by blast
  note f = build_raw_header_fields [OF b]
  have "th = double_sha256 x (raw tip)" using th by (auto simp: header_hash_def split: if_splits)
  then show ?thesis
    using that [of tip r c hs] tip hh con f res
    by (simp add: T_def fees_def REGTEST_BITS_def evict_all_def connect_block_with_undo_def Let_def
        connect_block_utxos_def store_block_def)
qed

lemma generate_block_supply:
  assumes "generate_block x script True extra ts nd = Inr ((h, txs), nd')"
    and "sql_wf (bs_utxos (nd_blockstore nd))" and "mempool_wf x (nd_mempool nd)"
    and valid: "\<And>t. t \<in> set (all_txs (nd_mempool nd)) \<Longrightarrow>
      tx_valid x (nd_blockstore nd) t \<and> distinct (tx_outpoints t)"
    and "x_is_coinbase x (hd txs)" and "x_txid x (hd txs) \<notin> x_txid x ` set (tl txs)"
    and "block_fresh x txs (bs_utxos (nd_blockstore nd))"
  shows "utxo_total (bs_utxos (nd_blockstore nd')) =
    utxo_total (bs_utxos (nd_blockstore nd)) + coinbase_reward nd"
proof -
  let ?s = "nd_blockstore nd" and ?ts = "all_txs (nd_mempool nd)"
  let ?tbl = "bs_utxos ?s"
  obtain tip c hs r blk where "store_tip (nd_headers nd) = Inr tip"
    and txs: "txs = make_coinbase (coinbase_reward nd + sum_list (map (valid_fee x ?s) ?ts)) script
        (height tip + 1) extra # ?ts"
    and "header_hash x r = Inr h" "store_connect x (nd_headers nd) r = Inr (c, hs)"
      "slice 4 36 r = double_sha256 x (raw tip)" "int_from_le (slice 72 76 r) = REGTEST_BITS"
      "slice 36 68 r = merkle_root x (map (x_txid x) txs)" "nd_headers nd' = hs"
    and tbl: "bs_utxos (nd_blockstore nd') = fold (connect_tx_rows x (height tip + 1)) txs ?tbl"
    by (rule generate_block_Inr [OF assms(1)])
  have spent: "spent_outpoints x t = tx_outpoints t" if "t \<in> set ?ts" for t
    using valid [OF that] by (simp add: spent_outpoints_def tx_valid_def tx_outpoints_def)
  have spent_cb: "spent_outpoints x (hd txs) = []" using assms(5) by (simp add: spent_outpoints_def)
  have net: "valid_fee x ?s t + (outputs_total (tx_outputs t) - spent_value ?tbl (spent_outpoints x t)) = 0"
    if "t \<in> set ?ts" for t
    using valid [OF that] validate_tx_ok_iff [of x t ?s] validate_tx_fee(1) [of x t ?s]
    by (simp add: valid_fee_def Let_def spent [OF that] spent_value_inputs)
  have "distinct (concat (map tx_outpoints ?ts))"
  proof (rule distinct_concat_outpoints [OF all_txs_distinct_ids [OF assms(3)]])
    show "distinct (tx_outpoints t)" if "t \<in> set ?ts" for t using valid [OF that] by simp
  qed (rule all_txs_disjoint [OF assms(3)])
  then have "distinct (concat (map (spent_outpoints x) ?ts))"
    using spent by (simp cong: map_cong)
  then have d: "distinct (concat (map (spent_outpoints x) txs))"
    using spent_cb by (simp add: txs)
  have "utxo_total (bs_utxos (nd_blockstore nd')) = utxo_total ?tbl +
      (\<Sum>t \<leftarrow> txs. outputs_total (tx_outputs t) - spent_value ?tbl (spent_outpoints x t))"
    unfolding tbl
  proof (rule connect_fold_total [OF assms(2) d _ assms(7)])
    fix op assume "op \<in> block_spent x txs"
    then obtain t where "t \<in> set ?ts" "op \<in> set (tx_outpoints t)"
      using spent_cb spent by (auto simp: block_spent_def txs)
    then show "sql_select ?tbl op \<noteq> None" using valid tx_valid_inputs_present by blast
  next
    show "distinct (map (x_txid x) txs)"
      using assms(6) all_txs_distinct_ids [OF assms(3)] by (simp add: txs)
  qed
  also have "(\<Sum>t \<leftarrow> txs. outputs_total (tx_outputs t) - spent_value ?tbl (spent_outpoints x t)) =
      coinbase_reward nd + (\<Sum>t \<leftarrow> ?ts. valid_fee x ?s t +
        (outputs_total (tx_outputs t) - spent_value ?tbl (spent_outpoints x t)))"
    using spent_cb by (simp add: txs make_coinbase_total spent_value_def sum_list_addf)
  also have "(\<Sum>t \<leftarrow> ?ts. valid_fee x ?s t +
        (outputs_total (tx_outputs t) - spent_value ?tbl (spent_outpoints x t))) = 0"
    using net by (simp cong: map_cong)
  finally show ?thesis by simp
qed

section \<open>The chain grows\<close>

lemma generate_block_tip:
  assumes "generate_block x script True extra ts nd = Inr ((h, txs), nd')"
    and "header_store_wf x g (nd_headers nd)" and "dict_get (by_hash (nd_headers nd)) h = None"
    and "store_height (nd_headers nd) = Inr n"
  shows "tip_hash (nd_headers nd') = h" and "store_height (nd_headers nd') = Inr (n + 1)"
    and "header_store_wf x g (nd_headers nd')"
    and "\<exists>c. dict_get (by_hash (nd_headers nd')) h = Some c \<and>
      h_prev_hash c = tip_hash (nd_headers nd) \<and> h_merkle_root c = merkle_root x (map (x_txid x) txs)"
proof -
  obtain tip c hs r where tip: "store_tip (nd_headers nd) = Inr tip"
    and hh: "header_hash x r = Inr h" and con: "store_connect x (nd_headers nd) r = Inr (c, hs)"
    and prev: "slice 4 36 r = double_sha256 x (raw tip)" and bits: "int_from_le (slice 72 76 r) = REGTEST_BITS"
    and root: "slice 36 68 r = merkle_root x (map (x_txid x) txs)" and hs: "nd_headers nd' = hs"
    by (rule generate_block_Inr [OF assms(1)], rule that, assumption+)
  have h: "double_sha256 x r = h" using hh by (auto simp: header_hash_def split: if_splits)
  have tip': "dict_get (by_hash (nd_headers nd)) (tip_hash (nd_headers nd)) = Some tip"
    using tip by (auto simp: store_tip_def dict_index_def split: option.splits)
  have prev': "slice 4 36 r = tip_hash (nd_headers nd)"
    using prev stored_hash(2) [OF assms(2) tip'] by simp
  from store_connect_cases [OF con assms(2)] assms(3)
  have c: "raw c = r" "height c = height tip + 1"
      "cumulative_work c = cumulative_work tip + work_for_bits (h_bits c)"
    and hs': "hs = \<lparr>by_hash = dict_put h c (by_hash (nd_headers nd)),
        tip_hash = (if cumulative_work tip < cumulative_work c then h else tip_hash (nd_headers nd))\<rparr>"
    using tip' prev' by (auto simp: h)
  have "h_bits c = REGTEST_BITS" using bits c(1) by (simp add: h_bits_def)
  then have more: "cumulative_work tip < cumulative_work c" using c(3) by (simp add: regtest_work)
  show "tip_hash (nd_headers nd') = h" by (simp add: hs hs' more)
  show "store_height (nd_headers nd') = Inr (n + 1)"
    using assms(4) tip' c(2) by (simp add: hs hs' more store_height_def dict_index_def)
  show "header_store_wf x g (nd_headers nd')" unfolding hs by (rule store_connect_wf [OF con assms(2)])
  show "\<exists>c. dict_get (by_hash (nd_headers nd')) h = Some c \<and>
      h_prev_hash c = tip_hash (nd_headers nd) \<and> h_merkle_root c = merkle_root x (map (x_txid x) txs)"
    using prev' root by (simp add: hs hs' h_prev_hash_def h_merkle_root_def c(1))
qed

end
