(* ===== verification/Sample_World.thy ===== *)
theory Sample_World
  imports Lifecycle_Facts Channel_Routing Node_Supply "HOL-Library.Countable"
begin

text \<open>
  Concrete inputs for the witnesses: one instance \<open>sample\<close> of the external functions, simple
  enough to compute with (the hash keeps 32 bytes of its input, the interpreter accepts every
  spend), a configuration of three parties, their keys and a confirmed channel.  The sample says
  nothing about \<open>bitcoinx\<close>; it shows that the hypotheses of a theorem can hold together.
\<close>

definition sample_sha256 :: "bytes \<Rightarrow> bytes" where
  "sample_sha256 d =
     (if length d = 80 then slice 68 72 d @ replicate 28 0 else take 32 (d @ replicate 32 0))"

definition sample_txid :: "tx \<Rightarrow> bytes" where
  "sample_txid t = take 32 ((word_of_int (tx_locktime t) #
     (case tx_inputs t of
        [] \<Rightarrow> []
      | i # _ \<Rightarrow> word_of_int (prev_idx i) #
          (case script_sig i of Push b # _ \<Rightarrow> take 4 b | _ \<Rightarrow> []) @
          [word_of_int (sequence i + 1)])) @ replicate 32 0)"

fun item_bytes :: "script_item \<Rightarrow> bytes" where
  "item_bytes (Push b) = word_of_nat (length b) # b"
| "item_bytes (Op (OP_SMALL v)) = [word_of_int v]"
| "item_bytes (Op OP_IF) = [0x63]"
| "item_bytes (Op OP_ELSE) = [0x67]"
| "item_bytes (Op OP_ENDIF) = [0x68]"
| "item_bytes (Op OP_RETURN) = [0x6A]"
| "item_bytes (Op OP_DUP) = [0x76]"
| "item_bytes (Op OP_EQUALVERIFY) = [0x88]"
| "item_bytes (Op OP_HASH160) = [0xA9]"
| "item_bytes (Op OP_CHECKSIG) = [0xAC]"
| "item_bytes (Op OP_CHECKMULTISIG) = [0xAE]"
| "item_bytes (Op OP_CHECKLOCKTIMEVERIFY) = [0xB1]"
| "item_bytes (Op OP_CHECKSEQUENCEVERIFY) = [0xB2]"

fun sample_tx_read :: "bytes \<Rightarrow> (tx \<times> bytes) result" where
  "sample_tx_read [] = raise ForeignError"
| "sample_tx_read (b # rest) = return (Tx 1 [] [TxOutput 7 []] (uint b), rest)"

text \<open>Transactions are numbered; the sample writes one as its number in unary.\<close>

instance ops :: countable by countable_datatype
instance script_item :: countable by countable_datatype

type_synonym tx_tuple =
  "int \<times> (bytes \<times> int \<times> script \<times> int) list \<times> (int \<times> script) list \<times> int"

definition sample_tx_code :: "tx \<Rightarrow> tx_tuple" where
  "sample_tx_code t = (tx_version t,
     map (\<lambda>i. (prev_hash i, prev_idx i, script_sig i, sequence i)) (tx_inputs t),
     map (\<lambda>out. (out_value out, script_pubkey out)) (tx_outputs t), tx_locktime t)"

fun sample_tx_decode :: "tx_tuple \<Rightarrow> tx" where
  "sample_tx_decode (v, ins, outs, l) =
     Tx v (map (\<lambda>(h, i, s, q). TxInput h i s q) ins) (map (\<lambda>(v, s). TxOutput v s) outs) l"

lemma sample_tx_decode_code: "sample_tx_decode (sample_tx_code t) = t"
proof -
  have "(\<lambda>i. TxInput (prev_hash i) (prev_idx i) (script_sig i) (sequence i)) = (\<lambda>i. i)"
    "(\<lambda>out. TxOutput (out_value out) (script_pubkey out)) = (\<lambda>out. out)"
    by (simp_all add: TxInput_def TxOutput_def fun_eq_iff)
  then show ?thesis by (simp add: sample_tx_code_def o_def Tx_def)
qed

definition sample :: externals where
  "sample =
     \<lparr>x_txid = sample_txid,
      x_is_coinbase = (\<lambda>t. map prev_hash (tx_inputs t) = [replicate 32 0]),
      x_tx_size = (\<lambda>_. 100),
      x_tx_bytes = (\<lambda>t. [word_of_int (tx_locktime t)]),
      x_tx_read = sample_tx_read,
      x_signature_hash = (\<lambda>_ i v _ _. [word_of_nat i, word_of_int v]),
      x_sign = (\<lambda>k d. sk_to_bytes k @ d),
      x_public_key = (\<lambda>k. PublicKey (2 # sk_to_bytes k)),
      x_verify_with = (\<lambda>_ _ _ _ _. return True),
      x_p2pkh = (\<lambda>pk. [Op OP_DUP, Op OP_HASH160, Push (pk_to_bytes pk), Op OP_EQUALVERIFY,
                       Op OP_CHECKSIG]),
      x_script_bytes = (\<lambda>s. concat (map item_bytes s)),
      x_script_of_bytes = map (\<lambda>c. Op (OP_SMALL (uint c))),
      x_hash160 = (\<lambda>b. take 20 (b @ replicate 20 0)),
      x_sha256 = sample_sha256,
      x_tx_to_hex = (\<lambda>t. replicate (to_nat (sample_tx_code t)) CHR ''1''),
      x_tx_from_hex = (\<lambda>s. return (sample_tx_decode (from_nat (length s)))),
      x_private_key = (\<lambda>b. return (PrivateKey b)),
      x_public_key_from_hex = (\<lambda>s. case s of [] \<Rightarrow> raise PyValueError
                              | c # _ \<Rightarrow> return (PublicKey [of_char c]))\<rparr>"

lemma sample_sel [simp]:
  "x_txid sample = sample_txid"
  "x_verify_input sample t i u = Inr True"
  "x_public_key sample k = PublicKey (2 # sk_to_bytes k)"
  "x_script_bytes sample s = concat (map item_bytes s)"
  "x_script_of_bytes sample b = map (\<lambda>c. Op (OP_SMALL (uint c))) b"
  "x_sha256 sample = sample_sha256"
  "x_hash160 sample b = take 20 (b @ replicate 20 0)"
  "x_tx_size sample t = 100"
  "x_is_coinbase sample t = (map prev_hash (tx_inputs t) = [replicate 32 0])"
  "x_tx_from_hex sample (x_tx_to_hex sample t) = Inr t"
  by (simp_all add: sample_def sample_tx_decode_code)

text \<open>Three parties, ten micro-units to the satoshi, seven satoshis, bonds of two, three, four.\<close>

definition sample_cfg :: config where
  "sample_cfg = \<lparr>cfg_n = 3, cfg_k = 10, cfg_S = 7, cfg_bonds = [2, 3, 4], cfg_L0 = 1000, cfg_delta = 144\<rparr>"

definition sample_keys :: keybook where
  "sample_keys = \<lparr>keys = [PrivateKey [11], PrivateKey [22], PrivateKey [33]]\<rparr>"

definition sample_state :: state where
  "sample_state = \<lparr>balances = [33, 12, 25], version = 4\<rparr>"

definition sample_open :: channel where
  "sample_open = projr (channel_open sample sample_cfg sample_keys ([1], 3) None)"

definition sample_channel :: channel where
  "sample_channel = (mark_confirmed sample_open)\<lparr>ch_state := sample_state\<rparr>"

lemma sample_cfg_valid: "valid_config sample_cfg"
  by (simp add: valid_config_def sample_cfg_def)

lemma sample_keys_n: "kb_n sample_keys = cfg_n sample_cfg"
  by (simp add: kb_n_def sample_keys_def sample_cfg_def)

lemma sample_state_valid: "valid_state sample_cfg sample_state"
  by (simp add: valid_state_def sample_cfg_def sample_state_def)

lemma sample_open_Inr: "channel_open sample sample_cfg sample_keys ([1], 3) None = Inr sample_open"
  using channel_open_wf [OF sample_cfg_valid sample_keys_n, of sample "([1], 3)" None]
  by (auto simp: sample_open_def)

lemma sample_open_wf: "channel_wf sample sample_open"
  by (rule channel_open_Inr(1) [OF sample_open_Inr sample_cfg_valid])

lemma sample_channel_sel [simp]:
  "ch_cfg sample_channel = sample_cfg" "ch_keybook sample_channel = sample_keys"
  "ch_state sample_channel = sample_state" "ch_funding_confirmed sample_channel"
  "ch_funding_tx sample_channel = ch_funding_tx sample_open"
  using channel_open_Inr(2,3) [OF sample_open_Inr sample_cfg_valid]
  by (simp_all add: sample_channel_def mark_confirmed_def)

lemma sample_channel_wf: "channel_wf sample sample_channel"
  using sample_open_wf sample_state_valid channel_open_Inr(2) [OF sample_open_Inr sample_cfg_valid]
  by (simp add: channel_wf_def sample_channel_def mark_confirmed_def)

section \<open>A sample chain\<close>

text \<open>Under the sample hash a header hashes to its time stamp, so every header meets the target.\<close>

definition sample_raw :: "bytes \<Rightarrow> nat \<Rightarrow> bytes" where
  "sample_raw prev ts =
     [1, 0, 0, 0] @ prev @ replicate 32 0 @ le_bytes 4 ts @ [0xFF, 0xFF, 0x7F, 0x20] @ [0, 0, 0, 0]"

definition sample_hash :: "nat \<Rightarrow> bytes" where
  "sample_hash ts = le_bytes 4 ts @ replicate 28 0"

lemma sample_sha_length [simp]: "length (sample_sha256 d) = 32"
  by (simp add: sample_sha256_def slice_def min_def)

lemma sample_double_length [simp]: "length (double_sha256 sample d) = 32"
  by (simp add: double_sha256_def)

lemma sample_hash_length [simp]: "length (sample_hash ts) = 32"
  by (simp add: sample_hash_def)

lemma sample_raw_fields [simp]:
  assumes "length prev = 32"
  shows "length (sample_raw prev ts) = 80" "slice 4 36 (sample_raw prev ts) = prev"
    "double_sha256 sample (sample_raw prev ts) = sample_hash ts"
    "int_from_le (slice 72 76 (sample_raw prev ts)) = REGTEST_BITS"
    "header_hash sample (sample_raw prev ts) = Inr (sample_hash ts)"
proof -
  show len: "length (sample_raw prev ts) = 80"
    using assms by (simp add: sample_raw_def)
  show "slice 4 36 (sample_raw prev ts) = prev"
    using assms by (simp add: sample_raw_def slice_def)
  show hash: "double_sha256 sample (sample_raw prev ts) = sample_hash ts"
    using assms len by (simp add: sample_raw_def double_sha256_def sample_sha256_def slice_def sample_hash_def)
  show "int_from_le (slice 72 76 (sample_raw prev ts)) = REGTEST_BITS"
    using assms by (simp add: sample_raw_def slice_def int_from_le_def REGTEST_BITS_def)
  show "header_hash sample (sample_raw prev ts) = Inr (sample_hash ts)"
    by (simp add: header_hash_def HEADER_SIZE_def len hash)
qed

lemma from_le_zeros [simp]: "from_le (replicate n 0) = 0"
  by (induction n) simp_all

lemma sample_hash_value: "ts < 2 ^ 32 \<Longrightarrow> hash_to_int (sample_hash ts) = int ts"
  by (simp add: hash_to_int_le int_from_le_def sample_hash_def from_le_append from_le_le_bytes)

lemma sample_hash_eq: "a < 2 ^ 32 \<Longrightarrow> b < 2 ^ 32 \<Longrightarrow> sample_hash a = sample_hash b \<longleftrightarrow> a = b"
  using sample_hash_value [of a] sample_hash_value [of b] by (metis of_nat_eq_iff)

text \<open>The regtest target is far above every time stamp.\<close>

lemma sample_meets_target:
  assumes "ts < 2 ^ 32"
  shows "hash_to_int (sample_hash ts) \<le> bits_to_target REGTEST_BITS"
proof -
  have "int ts \<le> 2 ^ 32" using assms by simp
  also have "(2::int) ^ 32 \<le> 0x7FFFFF * 2 ^ 232" by simp
  finally show ?thesis by (simp only: sample_hash_value [OF assms] regtest_target)
qed

lemma sample_extends:
  assumes "header_store_wf sample g s" and "dict_get (by_hash s) (sample_hash a) \<noteq> None" and "b < 2 ^ 32"
  shows "\<exists>hdr s'. store_connect sample s (sample_raw (sample_hash a) b) = Inr (hdr, s')"
proof -
  obtain t where "dict_get (by_hash s) (tip_hash s) = Some t"
    using header_store_wfD(3) [OF assms(1)] by blast
  moreover have "\<not> bits_to_target REGTEST_BITS \<le> 0" by (simp add: regtest_target)
  moreover have "\<not> bits_to_target REGTEST_BITS < hash_to_int (sample_hash b)"
    using sample_meets_target [OF assms(3)] by simp
  ultimately show ?thesis
    using assms(2) by (auto simp: store_connect_def HEADER_SIZE_def Let_def dict_index_def dict.get_put
        split: option.splits)
qed

section \<open>A sample UTXO set\<close>

text \<open>One output of fifty satoshis, and two spends of it with sequence numbers 1 and 2.\<close>

definition sample_utxos :: blockstore where
  "sample_utxos = add_utxo \<lparr>ue_txid = [5], ue_vout = 0, ue_value = 50, ue_script = [], ue_height = 1\<rparr>
     empty_blockstore"

definition sample_spend :: "int \<Rightarrow> int \<Rightarrow> tx" where
  "sample_spend v q = Tx 1 [TxInput [5] 0 [] q] [TxOutput v []] q"

lemma sample_get_utxo:
  "get_utxo sample_utxos ([5], 0) =
     Some \<lparr>ue_txid = [5], ue_vout = 0, ue_value = 50, ue_script = [], ue_height = 1\<rparr>"
  by (simp add: get_utxo_def sample_utxos_def add_utxo_def empty_blockstore_def sql_replace_def
      sql_delete_def sql_select_def entry_of_row_def row_of_entry_def)

lemma sample_txid_spend: "sample_txid (sample_spend v q) = word_of_int q # 0 # word_of_int (q + 1) # replicate 29 0"
  by (simp add: sample_txid_def sample_spend_def numeral_eq_Suc)

lemma sample_spend_valid:
  "tx_valid sample sample_utxos (sample_spend v q) \<longleftrightarrow> 0 \<le> v \<and> v \<le> 50"
proof -
  have not_coinbase: "[5] \<noteq> replicate 32 (0 :: byte)"
    by (auto dest: arg_cong [where f = length])
  then show ?thesis
    by (auto simp: tx_valid_def sample_spend_def input_ok_def input_value_def outpoint_of_def
      sample_get_utxo spend_verifies_iff)
qed

end
