(* ===== verification/Channel_Properties.thy ===== *)
theory Channel_Properties
  imports Sample_World
begin

text \<open>
  The properties of the channel layer: accounting, netting, scripts, the transactions of a channel
  and the routed path, each followed by a witness on the sample world.
\<close>

section \<open>Accounting\<close>

text \<open>C3. A transfer on a valid state goes through exactly when its guards hold, moves the amount
  from the sender to the recipient, leaves every other balance alone and raises the version by
  one; otherwise it raises \<open>AccountingError\<close>.\<close>

theorem transfer_exact:
  assumes "valid_state cfg st"
  shows "transfer st s r d cfg =
    (if s \<noteq> r \<and> 0 \<le> s \<and> s < cfg_n cfg \<and> 0 \<le> r \<and> r < cfg_n cfg \<and> 0 \<le> d \<and>
        d \<le> balances st ! nat s
     then Inr \<lparr>balances = (balances st)[nat s := balances st ! nat s - d,
                                        nat r := balances st ! nat r + d],
               version = version st + 1\<rparr>
     else Inl AccountingError)"
  using transfer_step [OF assms] transfer_raises [OF assms] by (auto simp: transfer_allowed_def)

theorem transfer_exact_witness:
  "transfer sample_state 0 2 5 sample_cfg = Inr \<lparr>balances = [28, 12, 30], version = 5\<rparr> \<and>
   transfer sample_state 1 2 13 sample_cfg = Inl AccountingError"
  using transfer_exact [OF sample_state_valid, of 0 2 5] transfer_exact [OF sample_state_valid, of 1 2 13]
  by (simp add: sample_state_def sample_cfg_def)

text \<open>Whatever sequence of transfers is applied, the micro-units add up to \<open>k * S\<close>, no balance
  is negative, the number of parties stays, and the version counts the transfers.\<close>

theorem transfer_sequence_conserves:
  assumes "valid_state cfg st" and "assert_conservation_over_sequence st ts cfg = Inr st'"
  shows "sum_list (balances st') = cfg_k cfg * cfg_S cfg \<and> (\<forall>b \<in> set (balances st'). 0 \<le> b) \<and>
    int (length (balances st')) = cfg_n cfg \<and> version st' = version st + int (length ts)"
  using sequence_preserves [OF assms(2,1)] by (simp_all add: valid_state_def)

theorem transfer_sequence_conserves_witness:
  "\<exists>st'. assert_conservation_over_sequence sample_state [(0, 1, 3), (1, 2, 15)] sample_cfg = Inr st' \<and>
     sum_list (balances st') = 70 \<and> version st' = 6"
proof -
  have run: "assert_conservation_over_sequence sample_state [(0, 1, 3), (1, 2, 15)] sample_cfg =
      Inr \<lparr>balances = [30, 0, 40], version = 6\<rparr>"
    by code_simp
  from transfer_sequence_conserves [OF sample_state_valid run] run show ?thesis
    by (simp add: sample_cfg_def sample_state_def)
qed

text \<open>C13. The netting quantisation of a valid state never fails and is the largest-remainder
  allocation: whole satoshis that sum to exactly \<open>S\<close>, every party within one satoshi of its exact
  share, the extra satoshis to the largest remainders, ties to the smaller index.\<close>

theorem quantise_largest_remainder:
  assumes "valid_config cfg" and "valid_state cfg st"
  shows "\<exists>q. quantise st cfg = Inr q \<and> int (length q) = cfg_n cfg \<and> sum_list q = cfg_S cfg \<and>
    (\<forall>i < length q. q ! i = balances st ! i div cfg_k cfg \<or> q ! i = balances st ! i div cfg_k cfg + 1) \<and>
    (\<forall>i < length q. \<forall>j < length q.
       q ! i = balances st ! i div cfg_k cfg + 1 \<longrightarrow> q ! j = balances st ! j div cfg_k cfg \<longrightarrow>
       balances st ! j mod cfg_k cfg < balances st ! i mod cfg_k cfg \<or>
       (balances st ! j mod cfg_k cfg = balances st ! i mod cfg_k cfg \<and> i < j))"
proof -
  let ?q = "map (netting_payout st cfg) (py_range (cfg_n cfg))"
  have n: "0 \<le> cfg_n cfg" using valid_configD(1) [OF assms(1)] by simp
  have at: "?q ! i = netting_payout st cfg (int i)" if "i < nat (cfg_n cfg)" for i
    using that by simp
  have beats: "balances st ! j mod cfg_k cfg < balances st ! i mod cfg_k cfg \<or>
       (balances st ! j mod cfg_k cfg = balances st ! i mod cfg_k cfg \<and> i < j)"
    if "i < nat (cfg_n cfg)" "j < nat (cfg_n cfg)"
      "netting_payout st cfg (int i) = balances st ! i div cfg_k cfg + 1"
      "netting_payout st cfg (int j) = balances st ! j div cfg_k cfg" for i j
    using that netting_winner_beats_loser [of "int i" st cfg "int j"]
    by (auto simp: netting_payout_def split: if_splits)
  have within: "\<forall>i < length ?q. ?q ! i = balances st ! i div cfg_k cfg \<or>
      ?q ! i = balances st ! i div cfg_k cfg + 1"
    using netting_payout_cases [of st cfg "int _"] by (simp add: at)
  have order: "\<forall>i < length ?q. \<forall>j < length ?q. ?q ! i = balances st ! i div cfg_k cfg + 1 \<longrightarrow>
       ?q ! j = balances st ! j div cfg_k cfg \<longrightarrow>
       balances st ! j mod cfg_k cfg < balances st ! i mod cfg_k cfg \<or>
       (balances st ! j mod cfg_k cfg = balances st ! i mod cfg_k cfg \<and> i < j)"
    using beats by (simp add: at)
  have "int (length ?q) = cfg_n cfg" using n by simp
  with quantise_eq [OF assms] sum_netting_payout [OF assms] within order show ?thesis by blast
qed

theorem quantise_largest_remainder_witness:
  "quantise sample_state sample_cfg = Inr [3, 1, 3] \<and>
   (\<exists>q. quantise sample_state sample_cfg = Inr q \<and> sum_list q = 7)"
proof
  show "quantise sample_state sample_cfg = Inr [3, 1, 3]" by code_simp
  show "\<exists>q. quantise sample_state sample_cfg = Inr q \<and> sum_list q = 7"
    using quantise_largest_remainder [OF sample_cfg_valid sample_state_valid]
    by (auto simp: sample_cfg_def)
qed

section \<open>Scripts\<close>

text \<open>C40. The script-number encoding is read back as the number it encodes, and is minimal: its
  last byte is not a bare sign unless the byte before needs the room.\<close>

theorem script_num_encoding:
  "script_num_value (encode_script_num n) = n \<and> minimal_script_num (encode_script_num n)"
  by (simp add: script_num_roundtrip encode_script_num_minimal)

text \<open>No locking script of the protocol contains a time-lock opcode: the funding, the bond and
  the hop script use only the documented opcodes, whatever the keys.\<close>

theorem locking_scripts_have_no_timelock:
  assumes "channel_funding_script pks = Inr s1" and "bond_script owner cps = Inr s2"
    and "hop_script img payee payer = Inr s3"
  shows "\<forall>p \<in> set (script_ops s1 @ script_ops s2 @ script_ops s3). documented_op p \<and> \<not> timelock_op p"
proof -
  have ne: "pks \<noteq> []" "cps \<noteq> []"
    using assms(1,2) by (auto simp: channel_funding_script_Nil bond_script_Nil)
  have "\<forall>p \<in> set (script_ops s1 @ script_ops s2 @ script_ops s3). documented_op p"
    using assms count_item_ops [of "int (length pks)"] count_item_ops [of "int (length cps)"]
    by (auto simp: channel_funding_script_eq [OF ne(1)] bond_script_eq [OF ne(2)] hop_script_def
        count_item_def split: if_splits)
  then show ?thesis using documented_not_timelock by blast
qed

theorem locking_scripts_have_no_timelock_witness:
  "\<exists>s1 s2 s3. channel_funding_script [PublicKey [1], PublicKey [2]] = Inr s1 \<and>
     bond_script (PublicKey [1]) [PublicKey [2]] = Inr s2 \<and>
     hop_script (replicate 20 0) (PublicKey [1]) (PublicKey [2]) = Inr s3 \<and>
     (\<forall>p \<in> set (script_ops s1 @ script_ops s2 @ script_ops s3). documented_op p \<and> \<not> timelock_op p)"
proof -
  obtain s1 s2 s3 where s: "channel_funding_script [PublicKey [1], PublicKey [2]] = Inr s1"
    "bond_script (PublicKey [1]) [PublicKey [2]] = Inr s2"
    "hop_script (replicate 20 0) (PublicKey [1]) (PublicKey [2]) = Inr s3"
    by (simp add: channel_funding_script_eq bond_script_eq hop_script_def)
  with locking_scripts_have_no_timelock [OF s] show ?thesis by blast
qed

section \<open>Channels\<close>

text \<open>C38. \<open>from_funding_tx\<close> accepts exactly the transactions that carry the canonical output
  vector: the n-of-n channel output of value \<open>S\<close> and after it the bond of every party, in order;
  any other transaction is refused with \<open>StateError\<close>.\<close>

theorem from_funding_tx_exact:
  assumes "valid_config cfg" and "kb_n kb = cfg_n cfg"
  shows "if canonical_funding x cfg kb ftx
    then \<exists>ch. from_funding_tx x cfg kb ftx us = Inr ch \<and> channel_wf x ch \<and> ch_funding_tx ch = ftx
    else from_funding_tx x cfg kb ftx us = Inl StateError"
  using wrap_funding_wf [OF assms, of x ftx us]
  by (cases "canonical_funding x cfg kb ftx") (auto simp: from_funding_tx_iff [OF assms])

theorem from_funding_tx_exact_witness:
  "(\<exists>ch. from_funding_tx sample sample_cfg sample_keys (ch_funding_tx sample_open) [] = Inr ch \<and>
      channel_wf sample ch) \<and>
   from_funding_tx sample sample_cfg sample_keys (Tx 1 [] [TxOutput 7 []] 0) [] = Inl StateError"
proof -
  have good: "canonical_funding sample sample_cfg sample_keys (ch_funding_tx sample_open)"
    using channel_wfD(4) [OF sample_open_wf] channel_open_Inr(2,3) [OF sample_open_Inr sample_cfg_valid]
    by simp
  have bad: "\<not> canonical_funding sample sample_cfg sample_keys (Tx 1 [] [TxOutput 7 []] 0)"
    by (simp add: canonical_funding_def sample_cfg_def)
  from from_funding_tx_exact [OF sample_cfg_valid sample_keys_n, of sample "ch_funding_tx sample_open" "[]"]
    from_funding_tx_exact [OF sample_cfg_valid sample_keys_n, of sample "Tx 1 [] [TxOutput 7 []] 0" "[]"]
    good bad show ?thesis by auto
qed



text \<open>C5. The cooperative close of a confirmed channel is one transaction: it spends the channel output
  and every bond, in final sequence, pays every party its netted share and its bond back, and creates
  exactly what was funded.  The close returns it when the interpreter accepts every input and raises
  otherwise; an unconfirmed channel is refused.\<close>

theorem cooperative_close_conserves:
  assumes "channel_wf x ch"
  shows "if \<not> ch_funding_confirmed ch then cooperative_close x ch None = Inl UnconfirmedFundingError
    else \<exists>t utxos. map outpoint_of (tx_inputs t) = map (\<lambda>i. (funding_txid x ch, i)) (py_range (1 + cfg_n (ch_cfg ch))) \<and>
      (\<forall>i \<in> set (tx_inputs t). sequence i = FINAL_SEQUENCE) \<and>
      tx_outputs t = map (\<lambda>i. TxOutput (netting_payout (ch_state ch) (ch_cfg ch) i + cfg_bonds (ch_cfg ch) ! nat i)
          (p2pkh_script x (party_key x (ch_keybook ch) i))) (py_range (cfg_n (ch_cfg ch))) \<and>
      outputs_total utxos = cfg_S (ch_cfg ch) + sum_list (cfg_bonds (ch_cfg ch)) \<and>
      outputs_total (tx_outputs t) = outputs_total utxos \<and>
      (if \<forall>i < length (tx_inputs t). x_verify_input x t i (utxos ! i) = Inr True
       then cooperative_close x ch None = Inr (t, utxos) else \<exists>e. cooperative_close x ch None = Inl e)"
proof (cases "ch_funding_confirmed ch")
  case True
  note wf = channel_wfD [OF assms]
  obtain t s where v: "unsigned_view t = unsigned_view (close_tx x ch (ch_state ch))"
    and c: "cooperative_close x ch None =
      bindR (verify_all_inputs x t (close_utxos x ch s)) (\<lambda>_. Inr (t, close_utxos x ch s))"
    using cooperative_close_eq [OF assms True, of None] wf(3) by auto
  note d = unsigned_viewD [OF v]
  let ?us = "close_utxos x ch s"
  have "set (map sequence (tx_inputs t)) \<subseteq> {FINAL_SEQUENCE}" unfolding d(6) by (auto simp: close_tx_def)
  then have final: "\<forall>i \<in> set (tx_inputs t). sequence i = FINAL_SEQUENCE" by auto
  have spent: "map outpoint_of (tx_inputs t) = map (\<lambda>i. (funding_txid x ch, i)) (py_range (1 + cfg_n (ch_cfg ch)))"
    unfolding d(5) by (simp add: close_tx_def)
  have paid: "tx_outputs t = map (\<lambda>i. TxOutput (netting_payout (ch_state ch) (ch_cfg ch) i + cfg_bonds (ch_cfg ch) ! nat i)
        (p2pkh_script x (party_key x (ch_keybook ch) i))) (py_range (cfg_n (ch_cfg ch)))"
    unfolding d(2) by (simp add: close_tx_def)
  have total: "outputs_total ?us = cfg_S (ch_cfg ch) + sum_list (cfg_bonds (ch_cfg ch))"
    by (rule close_utxos_total [OF assms])
  have balanced: "outputs_total (tx_outputs t) = outputs_total ?us"
    using d(2) total close_tx_total [OF wf(1,3)] by simp
  have "length ?us = length (tx_inputs t)"
    using d(4) wf(1) valid_configD(1) [OF wf(1)] wf(5) by (simp add: close_utxos_def close_tx_def)
  then have "verify_all_inputs x t ?us = Inr True \<longleftrightarrow>
      (\<forall>i < length (tx_inputs t). x_verify_input x t i (?us ! i) = Inr True)"
    by (simp add: verify_all_inputs_Inr)
  then have returned: "if \<forall>i < length (tx_inputs t). x_verify_input x t i (?us ! i) = Inr True
      then cooperative_close x ch None = Inr (t, ?us) else \<exists>e. cooperative_close x ch None = Inl e"
    using c by (cases "verify_all_inputs x t ?us") (auto simp: verify_all_inputs_Inr)
  show ?thesis
    using True
    by (subst if_not_P, simp)
      (intro exI [of _ t] exI [of _ ?us] conjI spent final paid total balanced returned)
qed (simp add: unconfirmed_refused)

lemma sample_verifies: "length us = length (tx_inputs t) \<Longrightarrow> verify_all_inputs sample t us = Inr True"
  by (simp add: verify_all_inputs_Inr)

lemma sample_close: "\<exists>t us. cooperative_close sample sample_channel None = Inr (t, us)"
proof -
  obtain t s where v: "unsigned_view t = unsigned_view (close_tx sample sample_channel sample_state)"
    and c: "cooperative_close sample sample_channel None =
      bindR (verify_all_inputs sample t (close_utxos sample sample_channel s))
        (\<lambda>_. Inr (t, close_utxos sample sample_channel s))"
    using cooperative_close_eq [OF sample_channel_wf, of None] sample_state_valid by auto
  have "length (close_utxos sample sample_channel s) = length (tx_inputs t)"
    using unsigned_viewD(4) [OF v] channel_wfD(5) [OF sample_channel_wf]
    by (simp add: close_utxos_def close_tx_def sample_cfg_def)
  from sample_verifies [OF this] c show ?thesis by simp
qed

theorem cooperative_close_conserves_witness:
  "\<exists>t us. cooperative_close sample sample_channel None = Inr (t, us) \<and>
     outputs_total (tx_outputs t) = outputs_total us \<and> length (tx_outputs t) = 3"
proof -
  obtain t us where close: "length (tx_outputs t) = length (py_range (cfg_n sample_cfg))"
    "outputs_total (tx_outputs t) = outputs_total us"
    "if \<forall>i < length (tx_inputs t). x_verify_input sample t i (us ! i) = Inr True
     then cooperative_close sample sample_channel None = Inr (t, us)
     else \<exists>e. cooperative_close sample sample_channel None = Inl e"
    using cooperative_close_conserves [OF sample_channel_wf]
    by (simp only: sample_channel_sel not_True_eq_False if_False)
      (elim exE conjE, rule that [rotated 1], assumption, assumption, simp)
  have "length (tx_outputs t) = 3" using close(1) by (simp add: sample_cfg_def)
  moreover obtain t' us' where "cooperative_close sample sample_channel None = Inr (t', us')"
    using sample_close by blast
  ultimately show ?thesis using close(2,3) by (metis sum.distinct(1))
qed


lemma sample_forfeit: "\<exists>t us. forfeit_bond_tx sample sample_channel 2 (Some (PublicKey [9])) 1 = Inr (t, us)"
proof -
  obtain t where v: "unsigned_view t = unsigned_view (forfeit_tx sample sample_channel 2 (Some (PublicKey [9])) 1)"
    and f: "forfeit_bond_tx sample sample_channel 2 (Some (PublicKey [9])) 1 =
      (let us = [bond_utxo (bond_of sample sample_cfg sample_keys (ch_funding_tx sample_open) 2)]
       in bindR (verify_all_inputs sample t us) (\<lambda>_. Inr (t, us)))"
    using forfeit_bond_tx_eq [OF sample_channel_wf, of 2 1 "Some (PublicKey [9])"]
    by (auto simp: sample_cfg_def)
  have "length (tx_inputs t) = 1" using unsigned_viewD(4) [OF v] by (simp add: forfeit_tx_def)
  with f sample_verifies [of "[bond_utxo (bond_of sample sample_cfg sample_keys (ch_funding_tx sample_open) 2)]" t]
  show ?thesis by (simp add: Let_def)
qed


text \<open>Confirm before sign: on a channel whose funding is not confirmed every operation that
  signs is refused with \<open>UnconfirmedFundingError\<close>, whatever its other arguments.\<close>

theorem confirm_before_sign:
  assumes "\<not> ch_funding_confirmed ch"
  shows "sign_state_tx x ch st = Inl UnconfirmedFundingError \<and>
    cooperative_close x ch so = Inl UnconfirmedFundingError \<and>
    superseded_state_tx_for x ch v alloc = Inl UnconfirmedFundingError \<and>
    forfeit_bond_tx x ch i tower fee = Inl UnconfirmedFundingError"
  using unconfirmed_refused [OF assms] by blast

theorem confirm_before_sign_witness:
  "cooperative_close sample sample_open None = Inl UnconfirmedFundingError"
  using confirm_before_sign [OF channel_open_Inr(4) [OF sample_open_Inr sample_cfg_valid]] by blast

text \<open>C14. Every operation that changes a channel keeps it well formed: transfers, sequences of
  transfers, the confirmation, and the refresh, which carries every balance over to a confirmed
  successor with the later horizon and version 0.\<close>

theorem channel_operations_preserve_wf:
  assumes "channel_wf x ch"
  shows "channel_wf x (mark_confirmed ch) \<and>
    (\<forall>ch'. apply_transfer ch s r d = Inr ch' \<longrightarrow> channel_wf x ch') \<and>
    (\<forall>ch'. apply_sequence ch ops = Inr ch' \<longrightarrow> channel_wf x ch') \<and>
    (if cfg_L0 (ch_cfg ch) < new_L \<and> new_L < 500000000
     then \<exists>ch'. refresh_channel x ch new_L = Inr ch' \<and> channel_wf x ch' \<and>
       balances (ch_state ch') = balances (ch_state ch) \<and> version (ch_state ch') = 0 \<and>
       ch_funding_confirmed ch' \<and> cfg_L0 (ch_cfg ch') = new_L
     else \<exists>e. refresh_channel x ch new_L = Inl e)"
proof -
  have refused: "\<exists>e. refresh_channel x ch new_L = Inl e"
    if "\<not> (cfg_L0 (ch_cfg ch) < new_L \<and> new_L < 500000000)"
  proof (cases "refresh_channel x ch new_L")
    case (Inr ch')
    have "cfg_L0 (ch_cfg ch') < 500000000"
      using channel_wfD(1) [OF refresh_channel_Inr(1) [OF Inr assms]] by (simp add: valid_config_def)
    with refresh_channel_Inr(5,6) [OF Inr assms] that show ?thesis by simp
  qed simp
  show ?thesis
    using mark_confirmed_wf [OF assms] apply_transfer_wf [OF _ assms] apply_sequence_wf [OF _ assms]
      refused refresh_channel_ok [OF assms, of new_L] refresh_channel_Inr [OF _ assms]
    by (auto split: if_splits)
qed

theorem channel_operations_preserve_wf_witness:
  "\<exists>ch'. refresh_channel sample sample_channel 2000 = Inr ch' \<and> channel_wf sample ch' \<and>
     balances (ch_state ch') = [33, 12, 25]"
  using channel_operations_preserve_wf [OF sample_channel_wf, of 0 1 2 "[]" 2000]
  by (auto simp: sample_cfg_def sample_state_def)

section \<open>Routing\<close>



text \<open>C11. Atomic settlement: when the secret is revealed and the settlement returns, every hop was
  claimed by its payee with that secret, without a time lock, by a spend the interpreter accepted;
  when it is not revealed, every hop was returned to its payer, time-locked to the hop's horizon
  on an input that is not final.\<close>

theorem settlement_is_all_or_nothing:
  assumes "build_path x ks v L0 delta pre ops = Inr p"
  shows "(\<forall>ts. settle_secret_revealed x p = Inr ts \<longrightarrow>
      list_all2 (\<lambda>h t. claims_hop x h pre t \<and>
        (\<exists>u. hop_utxo x h = Inr u \<and> x_verify_input x t 0 u = Inr True)) (hops p) ts) \<and>
    (\<forall>ts. settle_secret_not_revealed x p = Inr ts \<longrightarrow>
      list_all2 (\<lambda>h t. returns_hop x h t \<and> tx_locktime t = locktime h \<and>
        (\<exists>u. hop_utxo x h = Inr u \<and> x_verify_input x t 0 u = Inr True)) (hops p) ts)"
proof -
  have timed: "list_all2 (\<lambda>h t. returns_hop x h t \<and> tx_locktime t = locktime h \<and>
      (\<exists>u. hop_utxo x h = Inr u \<and> x_verify_input x t 0 u = Inr True)) (hops p) ts"
    if "settle_secret_not_revealed x p = Inr ts" for ts
    by (rule list_all2_mono [OF settle_not_revealed_Inr [OF that]]) (auto simp: returns_hop_def)
  show ?thesis
    using settle_revealed_Inr [OF _ build_path_staggered(6) [OF assms]] timed by simp
qed

theorem settlement_is_all_or_nothing_witness:
  "\<exists>p ts. build_path sample [PrivateKey [1], PrivateKey [2], PrivateKey [3]] 5 1000 144 [7]
      (Some [([1], 0), ([2], 0)]) = Inr p \<and> settle_secret_revealed sample p = Inr ts \<and>
     list_all2 (\<lambda>h t. claims_hop sample h [7] t) (hops p) ts"
proof -
  let ?ks = "[PrivateKey [1], PrivateKey [2], PrivateKey [3]]"
  obtain p where p: "build_path sample ?ks 5 1000 144 [7] (Some [([1], 0), ([2], 0)]) = Inr p"
    by (simp add: build_path_given path_feasible_def)
  note s = build_path_staggered [OF p]
  have "image_h160 h = x_hash160 sample [7]" if "h \<in> set (hops p)" for h
  proof -
    obtain os where "hops p = map (path_hop sample ?ks 5 1000 144 [7] os) [0..<length (hops p)]"
      using s(7) by blast
    with that have "h \<in> set (map (path_hop sample ?ks 5 1000 144 [7] os) [0..<length (hops p)])"
      by simp
    then show ?thesis by (auto simp: path_hop_def)
  qed
  then obtain ts where ts: "settle_secret_revealed sample p = Inr ts"
    using settle_revealed_ok [OF s(6)] by force
  with settlement_is_all_or_nothing [OF p]
  have "list_all2 (\<lambda>h t. claims_hop sample h [7] t) (hops p) ts"
    by (auto elim: list_all2_mono)
  with p ts show ?thesis by blast
qed

end
