(* ===== verification/Sample_Chain.thy ===== *)
theory Sample_Chain
  imports Sample_World Network_Facts Node_Supply
begin

text \<open>
  A concrete run of the node for the witnesses: the sample node starts from the regtest genesis
  block, accepts a block on it, then a competing block of the same height (which stays off the
  best chain) and a block on top of the latter, which makes the node reorganise.
\<close>

lemma sample_connect_eq:
  assumes "dict_get (by_hash s) (sample_hash n) = None" and "dict_get (by_hash s) p = Some parent"
    and "dict_get (by_hash s) (tip_hash s) = Some t" and "n < 2 ^ 32" and "length p = 32"
  shows "store_connect sample s (sample_raw p n) =
    (let sample_hdr = \<lparr>raw = sample_raw p n, height = height parent + 1, cumulative_work = cumulative_work parent + 2\<rparr>
     in Inr (sample_hdr, \<lparr>by_hash = dict_put (sample_hash n) sample_hdr (by_hash s),
               tip_hash = (if cumulative_work t < cumulative_work sample_hdr then sample_hash n else tip_hash s)\<rparr>))"
proof -
  have "\<not> bits_to_target REGTEST_BITS \<le> 0" by (simp add: regtest_target)
  moreover have "\<not> bits_to_target REGTEST_BITS < hash_to_int (sample_hash n)"
    using sample_meets_target [OF assms(4)] by simp
  moreover have "tip_hash s \<noteq> sample_hash n" using assms by auto
  ultimately show ?thesis
    using assms by (auto simp: store_connect_def HEADER_SIZE_def Let_def dict_index_def dict.get_put
        regtest_work)
qed

definition sample_genesis :: bytes where
  "sample_genesis = sample_raw (replicate 32 0) 1700000000"

definition sample_tx :: "int \<Rightarrow> tx" where
  "sample_tx l = Tx 1 [] [TxOutput 7 []] l"

lemma le_bytes_4:
  "le_bytes 4 n = [word_of_nat n, word_of_nat (n div 256), word_of_nat (n div 256 div 256),
     word_of_nat (n div 256 div 256 div 256)]"
proof -
  have four: "(4::nat) = Suc (Suc (Suc (Suc 0)))" by simp
  show ?thesis unfolding four by (simp only: le_bytes.simps)
qed

lemma sample_genesis_eq: "make_regtest_genesis None = Inr sample_genesis"
  by (simp add: make_regtest_genesis_def build_raw_header_def sample_genesis_def sample_raw_def
      REGTEST_VERSION_def REGTEST_GENESIS_PREV_def REGTEST_BITS_def to_bytes_le_def to_bytes_le_signed_def
      le_bytes_4)

definition sample_node :: node where
  "sample_node = projr (new_node sample)"

lemma sample_node_eq:
  "new_node sample = Inr sample_node" 
  "sample_node = \<lparr>nd_blockstore = store_block (sample_hash 1700000000) 0 sample_genesis empty_blockstore,
     nd_headers = \<lparr>by_hash = [(sample_hash 1700000000, \<lparr>raw = sample_genesis, height = 0, cumulative_work = 2\<rparr>)],
       tip_hash = sample_hash 1700000000\<rparr>,
     nd_mempool = empty_mempool, nd_genesis = sample_genesis, coinbase_reward = 5000000000,
     undo_log = [], created_log = []\<rparr>"
  by (simp_all add: sample_node_def new_node_def sample_genesis_eq with_genesis_def dict_put_def regtest_work)
   (simp_all add: sample_genesis_def with_genesis_def dict_put_def regtest_work)

lemma sample_genesis_fields [simp]:
  "length sample_genesis = 80" "double_sha256 sample sample_genesis = sample_hash 1700000000"
  "header_hash sample sample_genesis = Inr (sample_hash 1700000000)"
  by (simp_all add: sample_genesis_def)

lemma sample_node_ok: "node_ok sample (sample_hash 1700000000) sample_node"
proof -
  have wf: "header_store_wf sample (sample_hash 1700000000) (nd_headers sample_node)"
    using with_genesis_wf(1) [of sample sample_genesis]
    by (simp add: sample_node_eq(2) with_genesis_def dict_put_def regtest_work sample_genesis_def)
  have "path_walk (nd_headers sample_node) [] (store_lookup (nd_headers sample_node) (sample_hash 1700000000)) = Some []"
    by (simp add: sample_node_eq(2) path_walk.simps store_lookup_def dict_get_def)
  then have "active_path sample sample_node = []"
    by (simp add: active_path_def path_to_def sample_node_eq(2) store_lookup_def dict_get_def)
  then have "active_blocks sample sample_node = []" by (simp add: active_blocks_def)
  with wf show ?thesis
    by (simp add: node_ok_def tracks_def sample_node_eq(2) store_block_def empty_blockstore_def replay_def
        dict_wf_def sql_wf_def fresh_chain_def)
qed


lemma sample_serialise: "length r = 80 \<Longrightarrow> serialise_block sample r [sample_tx l] = Inr (r @ [1, word_of_int l])"
  by (simp add: serialise_block_def HEADER_SIZE_def encode_varint_def sample_def sample_tx_def Tx_def)

lemma sample_tx_rows:
  "sample_txid (sample_tx l) = word_of_int l # replicate 31 0"
  "spent_outpoints sample (sample_tx l) = []"
  "created_outpoints sample (sample_tx l) = [(word_of_int l # replicate 31 0, 0)]"
  "created_rows sample h (sample_tx l) = [((word_of_int l # replicate 31 0, 0), (7, [], h))]"
  by (simp_all add: sample_txid_def sample_tx_def spent_outpoints_def created_outpoints_def created_rows_def
    take_Cons')

abbreviation sample_gen :: bytes where "sample_gen \<equiv> sample_hash 1700000000"

abbreviation sample_hdr :: "bytes \<Rightarrow> nat \<Rightarrow> int \<Rightarrow> int \<Rightarrow> header" where
  "sample_hdr p n h w \<equiv> \<lparr>raw = sample_raw p n, height = h, cumulative_work = w\<rparr>"

definition sample_node1 :: node where
  "sample_node1 = projr (the (accept_block sample (sample_raw sample_gen 11) [sample_tx 3] sample_node))"

lemmas chain_run = accept_block_def sample_connect_eq dict_get_def sample_hash_eq
   store_lookup_def dict_put_def dict_del_def sample_serialise h_prev_hash_def Let_def evict_all_def evict_def evict_internal_def
   empty_mempool_def empty_blockstore_def connect_block_with_undo_def block_undo_def connect_block_utxos_def
   sample_tx_rows connect_tx_rows_def store_block_def sql_replace_def sql_delete_def sql_select_def

lemma sample_node1_eq:
  "accept_block sample (sample_raw sample_gen 11) [sample_tx 3] sample_node = Some (Inr sample_node1)"
  "sample_node1 =
     \<lparr>nd_blockstore =
        \<lparr>bs_blocks = [(sample_gen, 0, sample_genesis), (sample_hash 11, 1, sample_raw sample_gen 11 @ [1, 3])],
         bs_utxos = [((3 # replicate 31 0, 0), 7, [], 1)]\<rparr>,
      nd_headers =
        \<lparr>by_hash = [(sample_gen, \<lparr>raw = sample_genesis, height = 0, cumulative_work = 2\<rparr>),
                    (sample_hash 11, sample_hdr sample_gen 11 1 4)],
         tip_hash = sample_hash 11\<rparr>,
      nd_mempool = empty_mempool, nd_genesis = sample_genesis, coinbase_reward = 5000000000,
      undo_log = [(sample_hash 11, [])],
      created_log = [(sample_hash 11, [(3 # replicate 31 0, 0)])]\<rparr>"
  by (simp_all add: sample_node1_def sample_node_eq(2) chain_run)

definition sample_node2 :: node where
  "sample_node2 = projr (the (accept_block sample (sample_raw sample_gen 12) [sample_tx 4] sample_node1))"

lemma sample_node2_eq:
  "accept_block sample (sample_raw sample_gen 12) [sample_tx 4] sample_node1 = Some (Inr sample_node2)"
  "sample_node2 =
     \<lparr>nd_blockstore =
        \<lparr>bs_blocks = [(sample_gen, 0, sample_genesis), (sample_hash 11, 1, sample_raw sample_gen 11 @ [1, 3]),
                      (sample_hash 12, 1, sample_raw sample_gen 12 @ [1, 4])],
         bs_utxos = [((3 # replicate 31 0, 0), 7, [], 1)]\<rparr>,
      nd_headers =
        \<lparr>by_hash = [(sample_gen, \<lparr>raw = sample_genesis, height = 0, cumulative_work = 2\<rparr>),
                    (sample_hash 11, sample_hdr sample_gen 11 1 4), (sample_hash 12, sample_hdr sample_gen 12 1 4)],
         tip_hash = sample_hash 11\<rparr>,
      nd_mempool = empty_mempool, nd_genesis = sample_genesis, coinbase_reward = 5000000000,
      undo_log = [(sample_hash 11, [])],
      created_log = [(sample_hash 11, [(3 # replicate 31 0, 0)])]\<rparr>"
  by (simp_all add: sample_node2_def sample_node1_eq(2) chain_run)

lemma read_sample_tx: "0 \<le> l \<Longrightarrow> l < 256 \<Longrightarrow> reads_back sample (sample_tx l)"
  by (simp add: reads_back_def sample_def sample_tx_def Tx_def uint_word_of_int take_bit_eq_mod)

lemma sample_parse:
  "length r = 80 \<Longrightarrow> 0 \<le> l \<Longrightarrow> l < 256 \<Longrightarrow> parse_block sample (r @ [1, word_of_int l]) = Inr (r, [sample_tx l])"
  using parse_serialise_block [OF sample_serialise, of r l "[]"] read_sample_tx [of l] by simp

definition sample_node3 :: node where
  "sample_node3 = projr (the (accept_block sample (sample_raw (sample_hash 12) 13) [sample_tx 5] sample_node2))"

lemma sample_node3_eq:
  "accept_block sample (sample_raw (sample_hash 12) 13) [sample_tx 5] sample_node2 = Some (Inr sample_node3)"
  "sample_node3 =
     \<lparr>nd_blockstore =
        \<lparr>bs_blocks = [(sample_gen, 0, sample_genesis), (sample_hash 11, 1, sample_raw sample_gen 11 @ [1, 3]),
                      (sample_hash 12, 1, sample_raw sample_gen 12 @ [1, 4]),
                      (sample_hash 13, 2, sample_raw (sample_hash 12) 13 @ [1, 5])],
         bs_utxos = [((4 # replicate 31 0, 0), 7, [], 1), ((5 # replicate 31 0, 0), 7, [], 2)]\<rparr>,
      nd_headers =
        \<lparr>by_hash = [(sample_gen, \<lparr>raw = sample_genesis, height = 0, cumulative_work = 2\<rparr>),
                    (sample_hash 11, sample_hdr sample_gen 11 1 4), (sample_hash 12, sample_hdr sample_gen 12 1 4),
                    (sample_hash 13, sample_hdr (sample_hash 12) 13 2 6)],
         tip_hash = sample_hash 13\<rparr>,
      nd_mempool = empty_mempool, nd_genesis = sample_genesis, coinbase_reward = 5000000000,
      undo_log = [(sample_hash 12, []), (sample_hash 13, [])],
      created_log = [(sample_hash 12, [(4 # replicate 31 0, 0)]), (sample_hash 13, [(5 # replicate 31 0, 0)])]\<rparr>"
  by (simp_all add: sample_node3_def sample_node2_eq(2) chain_run reorg_utxos_def path_to_def path_walk.simps
    disconnect_block_def log_get_def remove_created_def restore_spent_def reconnect_def get_block_def
    get_utxo_def spend_utxo_def sample_parse [of _ 4, simplified] sample_parse [of _ 5, simplified])

lemmas active_run = active_blocks_def active_path_def path_to_def path_walk.simps store_lookup_def
  dict_get_def sample_hash_eq h_prev_hash_def block_at_def stored_txs_def get_block_def sql_select_def

lemma sample_active1: "active_blocks sample sample_node1 = [(sample_hash 11, 1, [sample_tx 3])]"
  by (simp add: active_run sample_node1_eq(2) sample_parse [of _ 3, simplified])

lemma sample_active2: "active_blocks sample sample_node2 = [(sample_hash 11, 1, [sample_tx 3])]"
  by (simp add: active_run sample_node2_eq(2) sample_parse [of _ 3, simplified])

lemma sample_active3:
  "active_blocks sample sample_node3 =
     [(sample_hash 12, 1, [sample_tx 4]), (sample_hash 13, 2, [sample_tx 5])]"
  by (simp add: active_run sample_node3_eq(2) sample_parse [of _ 4, simplified] sample_parse [of _ 5, simplified])

lemma sample_fresh:
  "fresh_chain sample [(sample_hash 11, 1, [sample_tx 3])]"
  "fresh_chain sample [(sample_hash 12, 1, [sample_tx 4]), (sample_hash 13, 2, [sample_tx 5])]"
  by (simp_all add: fresh_chain_def block_fresh_def sample_tx_rows sql_select_def connect_tx_rows_def
      sql_replace_def sql_delete_def)

lemma sample_node1_ok: "node_ok sample sample_gen sample_node1"
  by (rule accept_block_ok [OF sample_node1_eq(1) sample_node_ok])
    (simp_all add: sample_node_eq(2) dict_get_def sample_hash_eq read_sample_tx sample_active1 sample_fresh)

lemma sample_node2_ok: "node_ok sample sample_gen sample_node2"
  by (rule accept_block_ok [OF sample_node2_eq(1) sample_node1_ok])
    (simp_all add: sample_node1_eq(2) dict_get_def sample_hash_eq read_sample_tx sample_active2 sample_fresh)

section \<open>A generated block\<close>

definition sample_coinbase :: tx where
  "sample_coinbase = make_coinbase 5000000000 [] 1 []"

definition sample_mined :: "bytes \<Rightarrow> bytes" where
  "sample_mined root = [1, 0, 0, 0] @ sample_gen @ root @ [77, 0, 0, 0] @ [0xFF, 0xFF, 0x7F, 0x20] @ [0, 0, 0, 0]"

lemma sample_txid_length [simp]: "length (sample_txid t) = 32"
  by (simp add: sample_txid_def)

lemma sample_mined_fields [simp]:
  assumes "length root = 32"
  shows "length (sample_mined root) = 80" "slice 4 36 (sample_mined root) = sample_gen"
    "double_sha256 sample (sample_mined root) = sample_hash 77"
    "header_hash sample (sample_mined root) = Inr (sample_hash 77)"
    "slice 72 76 (sample_mined root) = [0xFF, 0xFF, 0x7F, 0x20]"
proof -
  show len: "length (sample_mined root) = 80" and "slice 4 36 (sample_mined root) = sample_gen"
    "slice 72 76 (sample_mined root) = [0xFF, 0xFF, 0x7F, 0x20]"
    by (simp_all add: sample_mined_def slice_def assms)
  have "le_bytes 4 77 = [77, 0, 0, 0]" by (simp add: le_bytes_4)
  then show hash: "double_sha256 sample (sample_mined root) = sample_hash 77"
    by (simp add: sample_mined_def double_sha256_def sample_sha256_def slice_def sample_hash_def assms)
  show "header_hash sample (sample_mined root) = Inr (sample_hash 77)"
    by (simp add: header_hash_def HEADER_SIZE_def len hash)
qed

lemma sample_build:
  "length root = 32 \<Longrightarrow>
     build_raw_header REGTEST_VERSION sample_gen root 77 REGTEST_BITS 0 = Inr (sample_mined root)"
  by (simp add: build_raw_header_def sample_mined_def REGTEST_VERSION_def REGTEST_BITS_def to_bytes_le_def
      to_bytes_le_signed_def le_bytes_4)

lemma sample_mine:
  "length root = 32 \<Longrightarrow>
     mine sample sample_gen root 77 (bits_to_target REGTEST_BITS) 0 = Inr (sample_mined root, sample_hash 77)"
  by (subst mine.simps) (simp add: sample_build sample_meets_target)

lemma sample_mined_bits: "int_from_le [0xFF, 0xFF, 0x7F, 0x20] = REGTEST_BITS"
  by (simp add: int_from_le_def REGTEST_BITS_def)

definition sample_generated :: node where
  "sample_generated = snd (projr (generate_block sample [] True [] 77 sample_node))"

lemma sample_connect_mined:
  assumes "length root = 32"
  shows "\<exists>c hs. store_connect sample (nd_headers sample_node) (sample_mined root) = Inr (c, hs)"
proof -
  have "\<not> bits_to_target REGTEST_BITS \<le> 0" by (simp add: regtest_target)
  moreover have "\<not> bits_to_target REGTEST_BITS < hash_to_int (sample_hash 77)"
    using sample_meets_target [of 77] by simp
  ultimately show ?thesis
    using assms
    by (auto simp: store_connect_def HEADER_SIZE_def Let_def dict_index_def dict_get_def dict_put_def sample_node_eq(2)
        sample_hash_eq sample_mined_bits)
qed

text \<open>On the headers of the sample node a block is mined at the first nonce, whatever the mempool.\<close>

lemma sample_generates:
  assumes "nd_headers nd = nd_headers sample_node" and "coinbase_reward nd = 5000000000"
    and "sum_list (map (valid_fee sample (nd_blockstore nd)) (all_txs (nd_mempool nd))) = 0"
    and "length (merkle_root sample (map sample_txid (sample_coinbase # all_txs (nd_mempool nd)))) = 32"
    and "length (all_txs (nd_mempool nd)) < 0xFC"
  shows "\<exists>nd'. generate_block sample [] True [] 77 nd =
    Inr ((sample_hash 77, sample_coinbase # all_txs (nd_mempool nd)), nd')"
proof -
  let ?root = "merkle_root sample (map sample_txid (sample_coinbase # all_txs (nd_mempool nd)))"
  obtain c hs where c: "store_connect sample (nd_headers sample_node) (sample_mined ?root) = Inr (c, hs)"
    using sample_connect_mined [OF assms(4)] by blast
  have tip: "store_tip (nd_headers sample_node) = Inr \<lparr>raw = sample_genesis, height = 0, cumulative_work = 2\<rparr>"
    by (simp add: sample_node_eq(2) store_tip_def dict_index_def dict_get_def)
  have body: "\<exists>b. encode_all (\<lambda>t. return (x_tx_bytes sample t)) txs = Inr b" for txs
    by (induction txs) auto
  obtain root where root: "?root = root" by blast
  have "int (length (sample_coinbase # all_txs (nd_mempool nd))) < 0xFD" using assms(5) by simp
  then have blk: "\<exists>blk. serialise_block sample (sample_mined ?root) (sample_coinbase # all_txs (nd_mempool nd)) = Inr blk"
    using body [of "sample_coinbase # all_txs (nd_mempool nd)"] sample_mined_fields(1) [OF assms(4)]
    by (auto simp: serialise_block_def HEADER_SIZE_def encode_varint_def)
  have mined: "mine sample sample_gen root 77 (bits_to_target REGTEST_BITS) 0 = Inr (sample_mined root, sample_hash 77)"
    using sample_mine assms(4) root by simp
  have cb: "make_coinbase 5000000000 [] 1 [] = sample_coinbase" by (simp add: sample_coinbase_def)
  show ?thesis
    using c blk root
    by (simp add: generate_block_def assms(1-3) tip cb) (auto simp: root mined Let_def)
qed

lemma sample_generate:
  "generate_block sample [] True [] 77 sample_node =
     Inr ((sample_hash 77, [sample_coinbase]), sample_generated)"
proof -
  have "all_txs (nd_mempool sample_node) = []" "coinbase_reward sample_node = 5000000000"
    by (simp_all add: sample_node_eq(2) all_txs_def empty_mempool_def)
  then show ?thesis using sample_generates [of sample_node] by (auto simp: sample_generated_def)
qed

lemma sample_coinbase_facts:
  "x_is_coinbase sample sample_coinbase" "outputs_total (tx_outputs sample_coinbase) = 5000000000"
  by (simp_all add: sample_coinbase_def make_coinbase_def Let_def)

end
