(* ===== verification/Node_Properties.thy ===== *)
theory Node_Properties
  imports Sample_Chain P2P_Facts Network_Facts Node_Supply
begin

text \<open>
  The properties of the node: the wire protocol, the header chain, blocks, validation, the mempool
  and the block connection, each followed by a witness on the sample world.
\<close>

section \<open>The wire protocol\<close>

text \<open>A frame that the parser accepts is a prefix of the data with the declared length, its
  payload is within the size bound and matches the checksum, and its magic is the expected one.\<close>

theorem parse_frame_sound:
  assumes "parse_frame x data magic = Inr (f, n)"
  shows "n \<le> length data \<and> n = 24 + length (frame_payload f) \<and>
    frame_payload f = take (length (frame_payload f)) (drop 24 data) \<and>
    frame_magic f = take 4 data \<and> slice 20 24 data = take 4 (double_sha256 x (frame_payload f)) \<and>
    int (length (frame_payload f)) \<le> MAX_MESSAGE_SIZE \<and>
    (\<forall>g. magic = Some g \<longrightarrow> frame_magic f = g)"
  using assms
  by (auto simp: parse_frame_def result_simps Let_def P2P_HEADER_SIZE_def slice_def MAX_MESSAGE_SIZE_def
      split: if_splits option.splits)

theorem parse_frame_sound_witness:
  "\<exists>f. parse_frame sample ([0xDA, 0xB5, 0xBF, 0xFA, 112] @ replicate 11 0 @ [1, 0, 0, 0] @
      [7, 0, 0, 0] @ [7, 8]) None = Inr (f, 25) \<and> frame_payload f = [7]"
proof -
  let ?data = "[0xDA, 0xB5, 0xBF, 0xFA, 112] @ replicate 11 0 @ [1, 0, 0, 0] @ [7, 0, 0, 0] @ [7, 8] :: bytes"
  have "\<exists>f. parse_frame sample ?data None = Inr (f, 25)"
    by (simp add: parse_frame_def P2P_HEADER_SIZE_def MAX_MESSAGE_SIZE_def slice_def int_from_le_def
        double_sha256_def sample_sha256_def numeral_eq_Suc)
  then obtain f where f: "parse_frame sample ?data None = Inr (f, 25)" by blast
  note sound = parse_frame_sound [OF f]
  from sound have "25 = 24 + length (frame_payload f)" by blast
  then have len: "length (frame_payload f) = 1" by linarith
  from sound have eq: "frame_payload f = take (length (frame_payload f)) (drop 24 ?data)" by blast
  from eq have "frame_payload f = take 1 (drop 24 ?data)" unfolding len .
  with f show ?thesis by simp
qed


definition sample_frame :: frame where
  "sample_frame = \<lparr>frame_magic = [0xDA, 0xB5, 0xBF, 0xFA], frame_command = [112, 105, 110, 103],
                   frame_payload = [1, 2, 3]\<rparr>"


text \<open>Variable-length integers: exactly the numbers below \<open>2 ^ 64\<close> are encoded, each in the
  shortest of the four forms, and reading the encoding gives back the number and leaves the rest
  of the stream.\<close>

theorem varint_roundtrip:
  "if 0 \<le> n \<and> n < 2 ^ 64
    then \<exists>bs. encode_varint n = Inr bs \<and> read_varint (bs @ rest) = Inr (n, rest) \<and>
      length bs = (if n < 0xFD then 1 else if n \<le> 0xFFFF then 3 else if n \<le> 0xFFFFFFFF then 5 else 9)
    else encode_varint n = Inl (if n < 0 then P2PError else PyOverflowError)"
  using encode_varint_ok [of n] read_encode_varint [of n] encode_varint_length [of n]
    encode_varint_negative [of n] encode_varint_too_large [of n]
  by (auto simp: valid_varint_def not_less)

text \<open>Version message round trip: a version message that can be serialised is read back
  field by field.\<close>

theorem version_message_roundtrip:
  assumes "version_serialise m = Inr bs" and "length (na_ip (vm_addr_recv m)) = 16"
    and "length (na_ip (vm_addr_from m)) = 16" and "int (length (vm_user_agent m)) \<le> MAX_MESSAGE_SIZE"
  shows "version_parse bs = Inr m"
  using version_roundtrip [OF assms(1)] assms(2-) by (simp add: valid_version_message_def)

definition sample_version :: version_message where
  "sample_version = \<lparr>vm_version = PROTOCOL_VERSION, vm_services = 1, vm_timestamp = 1700000000,
     vm_addr_recv = default_net_addr, vm_addr_from = default_net_addr, vm_nonce = 77,
     vm_user_agent = [47, 115], vm_start_height = 12, vm_relay = True\<rparr>"

theorem version_message_roundtrip_witness:
  "\<exists>bs. version_serialise sample_version = Inr bs \<and> version_parse bs = Inr sample_version"
proof -
  have "\<not> isl (version_serialise sample_version)"
    by (simp add: version_serialise_def sample_version_def net_addr_serialise_def default_net_addr_def
        encode_var_bytes_def encode_varint_def to_bytes_le_def to_bytes_be_def to_bytes_le_signed_def
        SERVICES_NONE_def PROTOCOL_VERSION_def)
  then obtain bs where bs: "version_serialise sample_version = Inr bs"
    by (cases "version_serialise sample_version") auto
  from version_message_roundtrip [OF bs] bs show ?thesis
    by (simp add: sample_version_def default_net_addr_def MAX_MESSAGE_SIZE_def)
qed

text \<open>List messages: \<open>inv\<close>, \<open>getheaders\<close> and \<open>headers\<close> bodies that can be serialised are
  read back entry by entry.\<close>

theorem list_messages_roundtrip:
  "(\<forall>bs. encode_inv vs = Inr bs \<longrightarrow> (\<forall>v \<in> set vs. valid_inv v) \<longrightarrow> parse_inv bs = Inr vs) \<and>
   (\<forall>bs. getheaders_serialise m = Inr bs \<longrightarrow> getheaders_parse bs = Inr m) \<and>
   (\<forall>bs. headers_serialise hs = Inr bs \<longrightarrow> headers_parse bs = Inr hs)"
  using parse_encode_inv getheaders_roundtrip headers_roundtrip by auto

theorem list_messages_roundtrip_witness:
  "\<exists>bs. headers_serialise [replicate 80 1, replicate 80 2] = Inr bs \<and>
     headers_parse bs = Inr [replicate 80 1, replicate 80 2]"
proof -
  let ?hs = "[replicate 80 1, replicate 80 2]"
  have "\<not> isl (headers_serialise ?hs)" by code_simp
  then obtain bs where bs: "headers_serialise ?hs = Inr bs"
    by (cases "headers_serialise ?hs") auto
  with list_messages_roundtrip [of _ _ "[replicate 80 1, replicate 80 2]"] show ?thesis by blast
qed

section \<open>The header chain\<close>

text \<open>Header round trip: a header that is built is 80 bytes long, and the accessors read back
  the hashes, the version, and the time stamp, the target and the nonce modulo \<open>2 ^ 32\<close>.\<close>

theorem header_fields_roundtrip:
  assumes "length prev = 32" and "length root = 32" and "- (2 ^ 31) \<le> ver" and "ver < 2 ^ 31"
  shows "\<exists>r. build_raw_header ver prev root ts bits nonce = Inr r \<and> length r = 80 \<and>
    (\<forall>n w. let h = \<lparr>raw = r, height = n, cumulative_work = w\<rparr>
       in h_version h = ver \<and> h_prev_hash h = prev \<and> h_merkle_root h = root \<and>
          h_timestamp h = ts mod 2 ^ 32 \<and> h_bits h = bits mod 2 ^ 32 \<and> h_nonce h = nonce mod 2 ^ 32)"
proof -
  obtain r where r: "build_raw_header ver prev root ts bits nonce = Inr r"
    using build_raw_header_ok [OF assms] by blast
  from build_raw_header_fields [OF r] r show ?thesis
    by (simp add: h_version_def h_prev_hash_def h_merkle_root_def h_timestamp_def h_bits_def h_nonce_def)
qed

theorem header_fields_roundtrip_witness:
  "\<exists>r. build_raw_header 1 (replicate 32 7) (replicate 32 9) (2 ^ 32 + 5) REGTEST_BITS 3 = Inr r \<and>
     h_timestamp \<lparr>raw = r, height = 0, cumulative_work = 0\<rparr> = 5"
  using header_fields_roundtrip [of "replicate 32 7" "replicate 32 9" 1 "2 ^ 32 + 5" REGTEST_BITS 3]
  by (auto simp: Let_def)

text \<open>C22. Connecting a header to a well-formed store: it is accepted exactly when it is known, or
  its parent is known and its hash meets its positive target.  An accepted header is stored, every
  other entry stays, the store stays well formed (heights and cumulative work follow the parents,
  the tip has the most work), and connecting it again changes nothing.  Otherwise the store raises
  \<open>HeaderError\<close>.\<close>

theorem store_connect_exact:
  assumes "header_store_wf x g s"
  shows "if length r = 80 \<and> (dict_get (by_hash s) (double_sha256 x r) \<noteq> None \<or>
      dict_get (by_hash s) (slice 4 36 r) \<noteq> None \<and>
      0 < bits_to_target (int_from_le (slice 72 76 r)) \<and>
      hash_to_int (double_sha256 x r) \<le> bits_to_target (int_from_le (slice 72 76 r)))
    then \<exists>hdr s'. store_connect x s r = Inr (hdr, s') \<and> header_store_wf x g s' \<and>
      dict_get (by_hash s') (double_sha256 x r) = Some hdr \<and>
      (\<forall>k v. dict_get (by_hash s) k = Some v \<longrightarrow> dict_get (by_hash s') k = Some v) \<and>
      store_connect x s' r = Inr (hdr, s')
    else store_connect x s r = Inl HeaderError"
proof (cases "store_connect x s r")
  case (Inr res)
  obtain hdr s' where r: "store_connect x s r = Inr (hdr, s')"
    using Inr by (cases res) auto
  from store_connect_cases [OF r assms] have "length r = 80 \<and> (dict_get (by_hash s) (double_sha256 x r) \<noteq> None \<or>
      dict_get (by_hash s) (slice 4 36 r) \<noteq> None \<and>
      0 < bits_to_target (int_from_le (slice 72 76 r)) \<and>
      hash_to_int (double_sha256 x r) \<le> bits_to_target (int_from_le (slice 72 76 r)))"
    by (auto simp: h_bits_def)
  then show ?thesis
    using r store_connect_wf [OF r assms] store_connect_stored [OF r assms]
      store_connect_mono [OF r assms] store_connect_idempotent [OF r assms] by auto
next
  case (Inl e)
  obtain t where "dict_get (by_hash s) (tip_hash s) = Some t"
    using header_store_wfD(3) [OF assms] by blast
  with Inl show ?thesis
    by (auto simp: store_connect_def header_hash_def HEADER_SIZE_def Let_def dict_index_def
        dict.get_put bindR_eq_Inl split: if_splits option.splits)
qed

definition sample_store :: header_store where
  "sample_store = projr (with_genesis sample (sample_raw (replicate 32 0) 1))"

lemma sample_store_eq:
  "sample_store = \<lparr>by_hash = [(sample_hash 1, \<lparr>raw = sample_raw (replicate 32 0) 1, height = 0,
     cumulative_work = 2\<rparr>)], tip_hash = sample_hash 1\<rparr>"
  "with_genesis sample (sample_raw (replicate 32 0) 1) = Inr sample_store"
  by (simp_all add: sample_store_def with_genesis_def dict_put_def regtest_work)

lemma sample_store_wf: "header_store_wf sample (sample_hash 1) sample_store"
  using with_genesis_wf(1) [OF sample_store_eq(2)] by (simp add: sample_store_eq(1))

theorem store_connect_exact_witness:
  "(\<exists>hdr s'. store_connect sample sample_store (sample_raw (sample_hash 1) 2) = Inr (hdr, s') \<and>
     header_store_wf sample (sample_hash 1) s') \<and>
   store_connect sample sample_store (sample_raw (sample_hash 9) 2) = Inl HeaderError"
proof -
  have known: "dict_get (by_hash sample_store) (sample_hash 1) \<noteq> None"
    and unknown: "dict_get (by_hash sample_store) (sample_hash 2) = None"
      "dict_get (by_hash sample_store) (sample_hash 9) = None"
    by (simp_all add: sample_store_eq(1) dict_get_def sample_hash_eq)
  have target: "0 < bits_to_target REGTEST_BITS" by (simp add: regtest_target)
  have "\<exists>hdr s'. store_connect sample sample_store (sample_raw (sample_hash 1) 2) = Inr (hdr, s') \<and>
      header_store_wf sample (sample_hash 1) s'"
    using store_connect_exact [OF sample_store_wf, of "sample_raw (sample_hash 1) 2"] known target
      sample_meets_target [of 2] by auto
  moreover have "store_connect sample sample_store (sample_raw (sample_hash 9) 2) = Inl HeaderError"
    using store_connect_exact [OF sample_store_wf, of "sample_raw (sample_hash 9) 2"] unknown by simp
  ultimately show ?thesis by blast
qed

text \<open>C23. Best chain: after any sequence of headers connected to a genesis store the walk from the
  tip terminates, it is the chain of parents down to the genesis header with heights that count
  down to 0, and no stored header has more cumulative work than the tip.\<close>

theorem synced_store_best_chain:
  assumes "with_genesis x r0 = Inr s0"
    and "foldR (\<lambda>s r. bindR (store_connect x s r) (\<lambda>(_, s'). return s')) s0 rs = Inr s"
  shows "\<exists>t hs. store_tip s = Inr t \<and> chain_from_tip s None = Inr (Some hs) \<and>
    chain_to (by_hash s) t hs \<and> int (length hs) = height t + 1 \<and>
    (\<forall>i < length hs. height (hs ! i) = height t - int i) \<and>
    (\<forall>k h. dict_get (by_hash s) k = Some h \<longrightarrow> cumulative_work h \<le> cumulative_work t)"
proof -
  have wf: "header_store_wf x (tip_hash s0) s"
    using assms(2) with_genesis_wf(1) [OF assms(1)]
    by (rule foldR_invariant) (auto simp: result_simps intro: store_connect_wf)
  obtain t where t: "dict_get (by_hash s) (tip_hash s) = Some t"
    and best: "\<forall>k h. dict_get (by_hash s) k = Some h \<longrightarrow> cumulative_work h \<le> cumulative_work t"
    using header_store_wfD(3) [OF wf] by blast
  obtain hs where hs: "chain_to (by_hash s) t hs" "int (length hs) = height t + 1"
    "\<forall>i < length hs. height (hs ! i) = height t - int i"
    using stored_chain [OF wf t] by blast
  have "store_tip s = Inr t" using t by (simp add: store_tip_def dict_index_def)
  then show ?thesis
    using hs best chain_walk_eq [OF hs(1), of "[]"] by (auto simp: chain_from_tip_def)
qed

definition sample_synced :: header_store where
  "sample_synced = projr (foldR (\<lambda>s r. bindR (store_connect sample s r) (\<lambda>(_, s'). return s')) sample_store
     [sample_raw (sample_hash 1) 2, sample_raw (sample_hash 2) 3])"

lemma sample_synced_Inr:
  "foldR (\<lambda>s r. bindR (store_connect sample s r) (\<lambda>(_, s'). return s')) sample_store
     [sample_raw (sample_hash 1) 2, sample_raw (sample_hash 2) 3] = Inr sample_synced"
proof -
  obtain h1 s1 where c1: "store_connect sample sample_store (sample_raw (sample_hash 1) 2) = Inr (h1, s1)"
    using sample_extends [OF sample_store_wf, of 1 2] by (auto simp: sample_store_eq(1) dict_get_def)
  note w1 = store_connect_wf [OF c1 sample_store_wf]
  have "dict_get (by_hash s1) (sample_hash 2) \<noteq> None"
    using store_connect_stored [OF c1 sample_store_wf] by simp
  then obtain h2 s2 where "store_connect sample s1 (sample_raw (sample_hash 2) 3) = Inr (h2, s2)"
    using sample_extends [OF w1, of 2 3] by auto
  with c1 show ?thesis by (simp add: sample_synced_def)
qed

theorem synced_store_best_chain_witness:
  "\<exists>t hs. store_tip sample_synced = Inr t \<and> chain_from_tip sample_synced None = Inr (Some hs) \<and>
     int (length hs) = height t + 1"
  using synced_store_best_chain [OF sample_store_eq(2) sample_synced_Inr] by blast

text \<open>C24. The two walks over the header store agree: on a well-formed store \<open>header_at_height\<close> returns for
  every height the entry of \<open>chain_from_tip\<close> that has this height, and nothing outside \<open>0 .. height of
  the tip\<close>; both end.\<close>

theorem header_at_height_total:
  assumes "header_store_wf x g s"
  shows "\<exists>t hs. store_tip s = Inr t \<and> chain_from_tip s None = Inr (Some hs) \<and>
    (\<forall>n. if 0 \<le> n \<and> n \<le> height t
         then header_at_height s n = Inr (Some (Some (hs ! nat (height t - n)))) \<and>
           height (hs ! nat (height t - n)) = n
         else header_at_height s n = Inr (Some None))"
proof -
  obtain t hs where t: "store_tip s = Inr t" "chain_from_tip s None = Inr (Some hs)"
    and at: "\<forall>n. header_at_height s n =
       (if 0 \<le> n \<and> n \<le> height t then Inr (Some (Some (hs ! nat (height t - n)))) else Inr (Some None))"
    and hts: "\<forall>i < length hs. height (hs ! i) = height t - int i"
    using header_at_height_eq [OF assms] by blast
  have len: "int (length hs) = height t + 1"
    using chain_from_tip_eq [OF assms] t by auto
  have "height (hs ! nat (height t - n)) = n" if "0 \<le> n" "n \<le> height t" for n
    using hts that len by (auto simp: nat_less_iff)
  then show ?thesis using t at by auto
qed

theorem header_at_height_total_witness:
  "header_at_height sample_store 0 = Inr (Some (Some \<lparr>raw = sample_raw (replicate 32 0) 1, height = 0,
     cumulative_work = 2\<rparr>)) \<and> header_at_height sample_store 1 = Inr (Some None)"
proof -
  let ?g = "\<lparr>raw = sample_raw (replicate 32 0) 1, height = 0, cumulative_work = 2\<rparr>"
  obtain t hs where t: "store_tip sample_store = Inr t"
    and hs: "chain_from_tip sample_store None = Inr (Some hs)"
    and at: "\<And>n. if 0 \<le> n \<and> n \<le> height t
         then header_at_height sample_store n = Inr (Some (Some (hs ! nat (height t - n)))) \<and>
           height (hs ! nat (height t - n)) = n
         else header_at_height sample_store n = Inr (Some None)"
    using header_at_height_total [OF sample_store_wf] by blast
  have tg: "t = ?g" using t by (simp add: store_tip_def sample_store_eq(1) dict_index_def dict_get_def)
  have "hs = [?g]"
    using hs t by (simp add: chain_from_tip_def tg chain_walk.simps)
  with at [of 0] at [of 1] show ?thesis by (simp add: tg)
qed

section \<open>Blocks\<close>

text \<open>Block round trip: a block with an 80-byte header and fewer than \<open>2 ^ 64\<close> transactions,
  each of which the transaction parser reads back, is serialised, and parsing the bytes gives back
  the header and the transactions in order.\<close>

theorem block_roundtrip:
  assumes "\<And>t. t \<in> set txs \<Longrightarrow> reads_back x t"
  shows "if length hdr = 80 \<and> int (length txs) < 2 ^ 64
    then \<exists>bs. serialise_block x hdr txs = Inr bs \<and> parse_block x (bs @ rest) = Inr (hdr, txs)
    else \<exists>e. serialise_block x hdr txs = Inl e"
proof -
  obtain body where body: "encode_all (\<lambda>t. Inr (x_tx_bytes x t)) txs = Inr body"
    using tx_codec.encode_all_ok [of txs x] assms by auto
  show ?thesis
    using parse_serialise_block [of x hdr txs _ rest] assms body encode_varint_ok [of "int (length txs)"]
      encode_varint_too_large [of "int (length txs)"]
    by (auto simp: serialise_block_def HEADER_SIZE_def valid_varint_def)
qed

lemma sample_reads_back: "0 \<le> l \<Longrightarrow> l < 256 \<Longrightarrow> reads_back sample (Tx 1 [] [TxOutput 7 []] l)"
  by (simp add: reads_back_def sample_def Tx_def uint_byte_of_int)

theorem block_roundtrip_witness:
  "\<exists>bs. serialise_block sample (sample_raw (sample_hash 1) 2)
      [Tx 1 [] [TxOutput 7 []] 3, Tx 1 [] [TxOutput 7 []] 4] = Inr bs \<and>
     parse_block sample bs = Inr (sample_raw (sample_hash 1) 2,
       [Tx 1 [] [TxOutput 7 []] 3, Tx 1 [] [TxOutput 7 []] 4])"
  using block_roundtrip [of "[Tx 1 [] [TxOutput 7 []] 3, Tx 1 [] [TxOutput 7 []] 4]" sample
      "sample_raw (sample_hash 1) 2" "[]"] sample_reads_back [of 3] sample_reads_back [of 4] by auto

text \<open>C39. The Merkle root commits to the transaction identifiers: two lists of the same length with
  the same root are equal, unless two of the pairs hashed on the way collide.\<close>

theorem merkle_root_commits:
  assumes "length as = length bs" and "\<And>d. length (x_sha256 x d) = 32"
    and "\<forall>a \<in> set as \<union> set bs. length a = 32"
    and "inj_on (double_sha256 x) (set (merkle_preimages x as) \<union> set (merkle_preimages x bs))"
  shows "merkle_root x as = merkle_root x bs \<longleftrightarrow> as = bs"
  using merkle_root_injective [of x as bs] assms by (auto simp: double_sha256_def)

theorem merkle_root_commits_witness:
  "merkle_root sample [sample_hash 1, sample_hash 2] \<noteq> merkle_root sample [sample_hash 3, sample_hash 2]"
proof -
  let ?as = "[sample_hash 1, sample_hash 2]" and ?bs = "[sample_hash 3, sample_hash 2]"
  have pre: "merkle_preimages sample ?as = [sample_hash 1 @ sample_hash 2]"
    "merkle_preimages sample ?bs = [sample_hash 3 @ sample_hash 2]"
    by (simp_all add: merkle_preimages.simps pad_level_def)
  have keep: "double_sha256 sample (sample_hash a @ sample_hash b) = sample_hash a" for a b
    by (simp add: double_sha256_def sample_sha256_def)
  have "inj_on (double_sha256 sample)
      (set (merkle_preimages sample ?as) \<union> set (merkle_preimages sample ?bs))"
    unfolding pre by (auto simp: inj_on_def keep)
  from merkle_root_commits [OF _ _ _ this] show ?thesis
    by (simp add: sample_hash_eq)
qed

text \<open>The root does not commit to the length: repeating the last of an odd number of
  identifiers, more than one, gives the same root.\<close>

theorem merkle_root_ambiguous:
  assumes "odd (length l)" and "1 < length l"
  shows "merkle_root x (l @ [last l]) = merkle_root x l \<and> l @ [last l] \<noteq> l"
  using merkle_root_duplicate_last [OF assms] by simp

theorem merkle_root_ambiguous_witness:
  "merkle_root sample [[1], [2], [3], [3]] = merkle_root sample [[1], [2], [3]]"
  using merkle_root_ambiguous [of "[[1], [2], [3]]" sample] by simp

section \<open>Validation\<close>

text \<open>C26. A transaction is accepted exactly when it is no coinbase, no output is negative, every
  input is in the UTXO table and its spend is accepted by the interpreter, and the outputs do not
  exceed the inputs; the reported fee is then that difference.\<close>

theorem validate_tx_exact:
  "(vr_ok (validate_tx x t s False) \<longleftrightarrow>
      \<not> x_is_coinbase x t \<and> (\<forall>out \<in> set (tx_outputs t). 0 \<le> out_value out) \<and>
      (\<forall>i < length (tx_inputs t). \<exists>e. get_utxo s (outpoint_of (tx_inputs t ! i)) = Some e \<and>
         x_verify_input x t i (as_txoutput x e) = Inr True) \<and>
      outputs_total (tx_outputs t) \<le> sum_list (map (input_value s) (tx_inputs t))) \<and>
   (vr_ok (validate_tx x t s False) \<longrightarrow>
      vr_fee (validate_tx x t s False) =
        sum_list (map (input_value s) (tx_inputs t)) - outputs_total (tx_outputs t))"
  using validate_tx_ok_iff [of x t s] validate_tx_fee(1) [of x t s]
  by (auto simp: tx_valid_def input_ok_def spend_verifies_iff split: option.splits)

theorem validate_tx_exact_witness:
  "vr_ok (validate_tx sample (sample_spend 40 1) sample_utxos False) \<and>
   vr_fee (validate_tx sample (sample_spend 40 1) sample_utxos False) = 10"
  using validate_tx_exact [of sample "sample_spend 40 1" sample_utxos] sample_spend_valid [of 40 1]
  by (simp add: validate_tx_ok_iff) (simp add: sample_spend_def input_value_def outpoint_of_def sample_get_utxo)

section \<open>The mempool\<close>

text \<open>C8. Admission on a well-formed mempool always returns; the mempool stays well formed, so no
  two of its transactions spend the same output; the verdict is positive exactly when the
  transaction is in the pool afterwards, and a refusal leaves the pool as it was.\<close>

theorem mempool_admission:
  assumes "mempool_wf x mp"
  shows "\<exists>r mp'. admit x s mp t = Inr (r, mp') \<and> mempool_wf x mp' \<and>
    (vr_ok r \<longleftrightarrow> mp_contains mp' (x_txid x t)) \<and> (\<not> vr_ok r \<longrightarrow> mp' = mp) \<and>
    (\<forall>a e b f. dict_get (entries mp') a = Some e \<and> dict_get (entries mp') b = Some f \<and>
       set (tx_outpoints (me_tx e)) \<inter> set (tx_outpoints (me_tx f)) \<noteq> {} \<longrightarrow> a = b)"
proof -
  obtain r mp' where adm: "admit x s mp t = Inr (r, mp')" using admit_total [OF assms] by blast
  note wf = admit_wf [OF adm assms]
  have "\<forall>a e b f. dict_get (entries mp') a = Some e \<and> dict_get (entries mp') b = Some f \<and>
       set (tx_outpoints (me_tx e)) \<inter> set (tx_outpoints (me_tx f)) \<noteq> {} \<longrightarrow> a = b"
    using mempool_no_double_spend [OF wf] by blast
  then show ?thesis using adm wf admit_verdict [OF adm] by blast
qed

definition sample_pool :: mempool where
  "sample_pool = snd (projr (admit sample sample_utxos empty_mempool (sample_spend 40 1)))"

theorem mempool_admission_witness:
  "\<exists>r mp. admit sample sample_utxos empty_mempool (sample_spend 40 1) = Inr (r, mp) \<and>
     mempool_wf sample mp"
  using mempool_admission [OF empty_mempool_wf] by blast

lemma sample_pool_Inr:
  "\<exists>r. admit sample sample_utxos empty_mempool (sample_spend 40 1) = Inr (r, sample_pool)"
  using admit_total [OF empty_mempool_wf, of sample sample_utxos "sample_spend 40 1"]
  by (auto simp: sample_pool_def)

lemma sample_pool_wf: "mempool_wf sample sample_pool"
  using sample_pool_Inr admit_wf [OF _ empty_mempool_wf] by blast

lemma sample_pool_eq:
  "sample_pool = notify (MpAdmit (sample_spend 40 1))
     (mp_insert sample (sample_spend 40 1) (validate_tx sample (sample_spend 40 1) sample_utxos False)
        empty_mempool)"
  using sample_spend_valid [of 40 1] validate_tx_ok_iff [of sample "sample_spend 40 1" sample_utxos]
  by (simp add: sample_pool_def admit_def empty_mempool_def mp_contains_def dict_get_def
      conflicting_txids_def Let_def)



section \<open>Connecting and disconnecting blocks\<close>

text \<open>Disconnecting the block that was just connected restores the UTXO table: every outpoint
  has the row it had before, provided the block creates no outpoint that was already there.\<close>

theorem disconnect_undoes_connect:
  assumes "sql_wf (bs_utxos (nd_blockstore nd))" and "block_fresh x txs (bs_utxos (nd_blockstore nd))"
  shows "get_utxo (nd_blockstore (disconnect_block bh (connect_block_with_undo x bh h txs nd))) op =
    get_utxo (nd_blockstore nd) op"
  using undo_block_table [OF assms, of "connect_block_utxos x h txs (nd_blockstore nd)" h]
    connect_fold_wf [OF assms(1)]
  by (simp add: get_utxo_def disconnect_block_def connect_block_with_undo_def log_get_def dict.get_put
      connect_block_utxos_def Let_def)

lemma sample_block_fresh: "block_fresh sample [sample_spend 40 1] (bs_utxos sample_utxos)"
proof -
  have "x_txid sample (sample_spend 40 1) \<noteq> [5]"
    using arg_cong [of "x_txid sample (sample_spend 40 1)" "[5]" length] by (auto simp: sample_txid_spend)
  then show ?thesis
    by (simp add: block_fresh_def created_outpoints_def sample_utxos_def add_utxo_def empty_blockstore_def
        sql_replace_def sql_delete_def sql_select_def)
qed

theorem disconnect_undoes_connect_witness:
  "get_utxo (nd_blockstore (disconnect_block [1] (connect_block_with_undo sample [1] 2 [sample_spend 40 1]
     \<lparr>nd_blockstore = sample_utxos, nd_headers = sample_store, nd_mempool = empty_mempool,
      nd_genesis = sample_raw (replicate 32 0) 1, coinbase_reward = 50, undo_log = [], created_log = []\<rparr>)))
     ([5], 0) \<noteq> None"
  using disconnect_undoes_connect [of
      "\<lparr>nd_blockstore = sample_utxos, nd_headers = sample_store, nd_mempool = empty_mempool,
        nd_genesis = sample_raw (replicate 32 0) 1, coinbase_reward = 50, undo_log = [], created_log = []\<rparr>"
      sample "[sample_spend 40 1]" "[1]" 2 "([5], 0)"] sample_block_fresh sample_get_utxo
  by (simp add: sample_utxos_def add_utxo_def empty_blockstore_def sql_replace_def sql_delete_def sql_wf_def)

text \<open>C9. Accepting a block that the node does not know: whatever happens to the best chain, a node
  that agrees with its active chain still does afterwards.  Its UTXO table holds exactly the rows of
  the replay of the blocks of the new active chain from the empty table; a block that makes another
  branch the heaviest disconnects the old branch and connects the new one.  The chains are assumed
  to create no outpoint that is present already, the blocks to be read back as they were written.\<close>

theorem accept_block_replays_active_chain:
  assumes "accept_block x r txs nd = Some (Inr nd')" and "node_ok x g nd"
    and "dict_get (by_hash (nd_headers nd)) (double_sha256 x r) = None"
    and "\<And>t. t \<in> set txs \<Longrightarrow> reads_back x t" and "fresh_chain x (active_blocks x nd')"
  shows "node_ok x g nd' \<and> (\<forall>op. get_utxo (nd_blockstore nd') op =
    map_option (entry_of_row op) (sql_select (replay x (active_blocks x nd')) op))"
proof -
  have ok: "node_ok x g nd'" by (rule accept_block_ok [OF assms])
  then have "sql_select (bs_utxos (nd_blockstore nd')) = sql_select (replay x (active_blocks x nd'))"
    unfolding node_ok_def by (blast dest: tracksD(2))
  with ok show ?thesis by (simp add: get_utxo_def)
qed

theorem accept_block_replays_active_chain_witness:
  "accept_block sample (sample_raw (sample_hash 12) 13) [sample_tx 5] sample_node2 = Some (Inr sample_node3) \<and>
   node_ok sample sample_gen sample_node3 \<and>
   active_blocks sample sample_node2 = [(sample_hash 11, 1, [sample_tx 3])] \<and>
   active_blocks sample sample_node3 =
     [(sample_hash 12, 1, [sample_tx 4]), (sample_hash 13, 2, [sample_tx 5])]"
proof -
  have "node_ok sample sample_gen sample_node3"
    using accept_block_replays_active_chain [OF sample_node3_eq(1) sample_node2_ok]
    by (simp add: sample_node2_eq(2) dict_get_def sample_hash_eq read_sample_tx sample_active3 sample_fresh)
  then show ?thesis by (simp add: sample_node3_eq(1) sample_active2 sample_active3)
qed

text \<open>C25. Accepting a block terminates on every node whose header store is well formed, whatever
  the header and the transactions: the walks to the common ancestor end.\<close>

theorem accept_block_terminates:
  assumes "header_store_wf x g (nd_headers nd)" and "header_hash x (nd_genesis nd) = Inr g"
  shows "\<exists>res. accept_block x r txs nd = Some res"
  using accept_block_returns [OF assms] by blast

theorem accept_block_terminates_witness:
  "\<exists>res. accept_block sample [] [] sample_node = Some res"
  using accept_block_terminates [of sample sample_gen sample_node] sample_node_ok
  unfolding node_ok_def by blast

section \<open>Generating blocks\<close>



text \<open>A generated block that is new becomes the tip: it extends the old tip, the height grows
  by one, its header commits to the Merkle root of its transactions, and the store stays well
  formed.\<close>

theorem generated_block_extends_tip:
  assumes "generate_block x script True extra ts nd = Inr ((h, txs), nd')"
    and "header_store_wf x g (nd_headers nd)" and "dict_get (by_hash (nd_headers nd)) h = None"
    and "store_height (nd_headers nd) = Inr n"
  shows "tip_hash (nd_headers nd') = h \<and> store_height (nd_headers nd') = Inr (n + 1) \<and>
    header_store_wf x g (nd_headers nd') \<and>
    (\<exists>c. dict_get (by_hash (nd_headers nd')) h = Some c \<and>
       h_prev_hash c = tip_hash (nd_headers nd) \<and> h_merkle_root c = merkle_root x (map (x_txid x) txs))"
  using generate_block_tip [OF assms] by blast

theorem generated_block_extends_tip_witness:
  "tip_hash (nd_headers sample_generated) = sample_hash 77 \<and>
   store_height (nd_headers sample_generated) = Inr 1"
proof -
  have "header_store_wf sample sample_gen (nd_headers sample_node)"
    using sample_node_ok by (simp add: node_ok_def)
  moreover have "dict_get (by_hash (nd_headers sample_node)) (sample_hash 77) = None"
    "store_height (nd_headers sample_node) = Inr 0"
    by (simp_all add: sample_node_eq(2) dict_get_def sample_hash_eq store_height_def dict_index_def)
  ultimately show ?thesis using generated_block_extends_tip [OF sample_generate] by simp
qed

text \<open>The coinbase carries the height as a minimal script number, so coinbases of different
  heights differ.\<close>

theorem coinbase_commits_to_height:
  assumes "0 \<le> h" and "0 \<le> h'"
  shows "make_coinbase v s h e = make_coinbase v' s' h' e' \<longleftrightarrow>
    h = h' \<and> v = v' \<and> s = s' \<and> e = e'"
proof
  assume eq: "make_coinbase v s h e = make_coinbase v' s' h' e'"
  have "h = h'" by (rule make_coinbase_inj [OF eq assms])
  moreover have "v = v' \<and> s = s'"
    using arg_cong [OF eq, of tx_outputs] by (simp add: make_coinbase_def Let_def)
  moreover have "e = e'"
    using arg_cong [OF eq, of "\<lambda>t. script_sig (tx_inputs t ! 0)"] assms
    by (simp add: make_coinbase_height split: if_splits)
  ultimately show "h = h' \<and> v = v' \<and> s = s' \<and> e = e'" by simp
qed simp

theorem coinbase_commits_to_height_witness:
  "make_coinbase 50 [] 127 [] \<noteq> make_coinbase 50 [] 128 []"
  using coinbase_commits_to_height [of 127 128 50 "[]" "[]" 50 "[]" "[]"] by simp

end
