(* ===== verification/Wallet_Hd.thy ===== *)
theory Wallet_Hd
  imports P2P_Messages
begin

unbundle bit_operations_syntax

text \<open>
  \<open>wallet/hd.py\<close>: the encryption of the wallet seed and the key tree.  HMAC-SHA-256 and PBKDF2 of
  the standard library are written out over the external \<open>x_sha256\<close>; the random salt and nonce are
  arguments; the BIP32 derivation of \<open>bitcoinx\<close> is a record of external functions.
\<close>

section \<open>The standard library's key derivation\<close>

definition xor_bytes :: "bytes \<Rightarrow> bytes \<Rightarrow> bytes" where
  "xor_bytes a b = map2 (XOR) a b"

definition hmac_pad :: "bytes \<Rightarrow> byte \<Rightarrow> bytes" where
  "hmac_pad k c = map (\<lambda>b. b XOR c) (k @ replicate (64 - length k) 0)"

definition hmac_sha256 :: "externals \<Rightarrow> bytes \<Rightarrow> bytes \<Rightarrow> bytes" where
  "hmac_sha256 x k msg =
     (let k' = (if 64 < length k then x_sha256 x k else k)
      in x_sha256 x (hmac_pad k' 0x5C @ x_sha256 x (hmac_pad k' 0x36 @ msg)))"

text \<open>\<open>pbkdf2_hmac("sha256", password, salt, iters, dklen=32)\<close>: one block, the exclusive or of the
  iterated codes.\<close>

fun pbkdf2_rounds :: "externals \<Rightarrow> bytes \<Rightarrow> nat \<Rightarrow> bytes \<Rightarrow> bytes \<Rightarrow> bytes" where
  "pbkdf2_rounds x pw 0 u acc = acc"
| "pbkdf2_rounds x pw (Suc n) u acc =
     (let u' = hmac_sha256 x pw u in pbkdf2_rounds x pw n u' (xor_bytes acc u'))"

definition pbkdf2_sha256 :: "externals \<Rightarrow> bytes \<Rightarrow> bytes \<Rightarrow> nat \<Rightarrow> bytes" where
  "pbkdf2_sha256 x pw salt iters =
     (let u1 = hmac_sha256 x pw (salt @ [0, 0, 0, 1]) in pbkdf2_rounds x pw (iters - 1) u1 u1)"

text \<open>\<open>s.encode("utf-8")\<close>; a lone surrogate raises \<open>UnicodeEncodeError\<close>, a \<open>ValueError\<close>.\<close>

definition utf8_char :: "nat \<Rightarrow> bytes result" where
  "utf8_char c =
     (if c < 0x80 then return [word_of_nat c]
      else if c < 0x800 then return [word_of_nat (0xC0 + c div 64), word_of_nat (0x80 + c mod 64)]
      else if 0xD800 \<le> c \<and> c < 0xE000 then raise PyValueError
      else if c < 0x10000
      then return [word_of_nat (0xE0 + c div 4096), word_of_nat (0x80 + c div 64 mod 64),
                   word_of_nat (0x80 + c mod 64)]
      else return [word_of_nat (0xF0 + c div 262144), word_of_nat (0x80 + c div 4096 mod 64),
                   word_of_nat (0x80 + c div 64 mod 64), word_of_nat (0x80 + c mod 64)])"

definition encode_utf8 :: "pystr \<Rightarrow> bytes result" where
  "encode_utf8 s = bindR (mapR utf8_char s) (\<lambda>bs. return (concat bs))"

section \<open>Seed encryption\<close>

definition KDF_ITERS :: nat where "KDF_ITERS = 600000"
definition NONCE_LEN :: nat where "NONCE_LEN = 16"

definition derive_key :: "externals \<Rightarrow> bytes \<Rightarrow> bytes \<Rightarrow> bytes" where
  "derive_key x passphrase salt = pbkdf2_sha256 x passphrase salt KDF_ITERS"

text \<open>The key stream.  The loop ends because a digest is never empty; a fuel of \<open>n\<close> rounds is
  enough, since each adds at least one byte.\<close>

fun stream_loop :: "externals \<Rightarrow> bytes \<Rightarrow> bytes \<Rightarrow> nat \<Rightarrow> nat \<Rightarrow> int \<Rightarrow> bytes \<Rightarrow> bytes result" where
  "stream_loop x nonce k n 0 counter acc = return (take n acc)"
| "stream_loop x nonce k n (Suc fuel) counter acc =
     (if length acc < n
      then bindR (to_bytes_be 8 counter) (\<lambda>c.
        stream_loop x nonce k n fuel (counter + 1) (acc @ x_sha256 x (k @ nonce @ c)))
      else return (take n acc))"

definition stream :: "externals \<Rightarrow> bytes \<Rightarrow> bytes \<Rightarrow> nat \<Rightarrow> bytes result" where
  "stream x nonce k n = stream_loop x nonce k n n 0 []"

definition encrypt_seed :: "externals \<Rightarrow> bytes \<Rightarrow> pystr \<Rightarrow> bytes \<Rightarrow> bytes \<Rightarrow> bytes result" where
  "encrypt_seed x seed passphrase salt nonce =
     bindR (encode_utf8 passphrase) (\<lambda>pw.
       let k = derive_key x pw salt
       in bindR (stream x nonce k (length seed)) (\<lambda>keystream.
            let ct = xor_bytes seed keystream;
                tag = hmac_sha256 x k (salt @ nonce @ ct)
            in return (salt @ nonce @ ct @ tag)))"

definition decrypt_seed :: "externals \<Rightarrow> bytes \<Rightarrow> pystr \<Rightarrow> bytes result" where
  "decrypt_seed x blob passphrase =
     (if length blob < 16 + NONCE_LEN + 32 then raise WalletError
      else
        let salt = take 16 blob;
            nonce = slice 16 (16 + NONCE_LEN) blob;
            ct_tag = drop (16 + NONCE_LEN) blob;
            ct = take (length ct_tag - 32) ct_tag;
            tag = drop (length ct_tag - 32) ct_tag
        in bindR (encode_utf8 passphrase) (\<lambda>pw.
             let k = derive_key x pw salt;
                 expected_tag = hmac_sha256 x k (salt @ nonce @ ct)
             in if tag \<noteq> expected_tag then raise WalletError
                else bindR (stream x nonce k (length ct)) (\<lambda>keystream.
                       return (xor_bytes ct keystream))))"

section \<open>The key tree\<close>

datatype xprv = BIP32PrivateKey bytes

record hd_externals =
  xh_from_seed :: "bytes \<Rightarrow> xprv result"
  xh_child_safe :: "xprv \<Rightarrow> int \<Rightarrow> xprv result"
  xh_key :: "xprv \<Rightarrow> privkey"

record hd_wallet =
  master :: xprv

definition hd_from_seed :: "hd_externals \<Rightarrow> bytes \<Rightarrow> hd_wallet result" where
  "hd_from_seed y seed =
     (if length seed < 16 then raise WalletError
      else bindR (xh_from_seed y seed) (\<lambda>m. return \<lparr>master = m\<rparr>))"

text \<open>\<open>random\<close> is what \<open>secrets.token_bytes(32)\<close> returns.\<close>

definition hd_new :: "hd_externals \<Rightarrow> bytes option \<Rightarrow> bytes \<Rightarrow> hd_wallet result" where
  "hd_new y seed random = hd_from_seed y (case seed of None \<Rightarrow> random | Some s \<Rightarrow> s)"

definition hd_account :: "hd_externals \<Rightarrow> hd_wallet \<Rightarrow> int \<Rightarrow> xprv result" where
  "hd_account y w i = xh_child_safe y (master w) i"

definition hd_derive :: "hd_externals \<Rightarrow> hd_wallet \<Rightarrow> int \<Rightarrow> int \<Rightarrow> privkey result" where
  "hd_derive y w account i =
     bindR (hd_account y w account) (\<lambda>acct.
     bindR (xh_child_safe y acct i) (\<lambda>k. return (xh_key y k)))"

definition public_at :: "externals \<Rightarrow> hd_externals \<Rightarrow> hd_wallet \<Rightarrow> int \<Rightarrow> int \<Rightarrow> pubkey result" where
  "public_at x y w account i = bindR (hd_derive y w account i) (\<lambda>k. return (x_public_key x k))"

section \<open>Lemmas\<close>

lemma length_xor_bytes [simp]: "length (xor_bytes a b) = min (length a) (length b)"
  by (simp add: xor_bytes_def)

lemma xor_bytes_cancel: "length a \<le> length k \<Longrightarrow> xor_bytes (xor_bytes a k) k = a"
proof (induction a arbitrary: k)
  case (Cons b a)
  then show ?case by (cases k) (simp_all add: xor_bytes_def xor.assoc)
qed (simp add: xor_bytes_def)

lemma hmac_length: "(\<And>d. length (x_sha256 x d) = 32) \<Longrightarrow> length (hmac_sha256 x k m) = 32"
  by (simp add: hmac_sha256_def Let_def)

text \<open>Only a stream of \<open>2 ^ 64\<close> digests could overflow the counter.\<close>

lemma stream_loop_ok:
  assumes "\<And>d. length (x_sha256 x d) = 32" and "n \<le> length acc + fuel"
    and "0 \<le> counter" and "counter + int fuel \<le> 2 ^ 64"
  shows "\<exists>s. stream_loop x nonce k n fuel counter acc = Inr s \<and> length s = n"
  using assms(2-)
proof (induction fuel arbitrary: counter acc)
  case (Suc fuel)
  show ?case
  proof (cases "length acc < n")
    case True
    obtain c where c: "to_bytes_be 8 counter = Inr c"
      using Suc.prems by (simp add: to_bytes_be_def to_bytes_le_def)
    have "\<exists>s. stream_loop x nonce k n fuel (counter + 1) (acc @ x_sha256 x (k @ nonce @ c)) = Inr s \<and> length s = n"
      using Suc.prems by (intro Suc.IH) (simp_all add: assms(1))
    with True c show ?thesis by simp
  qed simp
qed simp

lemma stream_ok:
  assumes "\<And>d. length (x_sha256 x d) = 32" and "int n \<le> 2 ^ 64"
  shows "\<exists>s. stream x nonce k n = Inr s \<and> length s = n"
  unfolding stream_def by (rule stream_loop_ok) (use assms in auto)

lemma encrypt_seed_Inr:
  assumes sha: "\<And>d. length (x_sha256 x d) = 32" and "encode_utf8 pw = Inr b" and "int (length seed) \<le> 2 ^ 64"
  shows "\<exists>ks. length ks = length seed \<and> stream x nonce (derive_key x b salt) (length seed) = Inr ks \<and>
    encrypt_seed x seed pw salt nonce = Inr (salt @ nonce @ xor_bytes seed ks @
      hmac_sha256 x (derive_key x b salt) (salt @ nonce @ xor_bytes seed ks))"
  using stream_ok [OF sha assms(3), of nonce "derive_key x b salt"] assms(2)
  by (auto simp: encrypt_seed_def Let_def)

lemma decrypt_encrypt_seed:
  assumes sha: "\<And>d. length (x_sha256 x d) = 32" and "encode_utf8 pw = Inr b" and "int (length seed) \<le> 2 ^ 64"
    and "length salt = 16" and "length nonce = 16"
  shows "\<exists>blob. encrypt_seed x seed pw salt nonce = Inr blob \<and> length blob = length seed + 64 \<and>
    decrypt_seed x blob pw = Inr seed"
proof -
  obtain ks where ks: "length ks = length seed" "stream x nonce (derive_key x b salt) (length seed) = Inr ks"
    and enc: "encrypt_seed x seed pw salt nonce = Inr (salt @ nonce @ xor_bytes seed ks @
      hmac_sha256 x (derive_key x b salt) (salt @ nonce @ xor_bytes seed ks))"
    using encrypt_seed_Inr [OF assms(1-3), of nonce salt] by blast
  have "decrypt_seed x (salt @ nonce @ xor_bytes seed ks @
      hmac_sha256 x (derive_key x b salt) (salt @ nonce @ xor_bytes seed ks)) pw = Inr seed"
    using assms(2,4,5) ks xor_bytes_cancel [of seed ks]
    by (simp add: decrypt_seed_def NONCE_LEN_def slice_def hmac_length [OF sha] Let_def)
  with enc show ?thesis
    using assms(4,5) ks by (simp add: hmac_length [OF sha])
qed

lemma blob_split:
  assumes "64 \<le> length blob"
  shows "take 16 blob @ slice 16 32 blob @ take (length (drop 32 blob) - 32) (drop 32 blob) =
      take (length blob - 32) blob"
    and "drop (length (drop 32 blob) - 32) (drop 32 blob) = drop (length blob - 32) blob"
proof -
  have "take (length blob - 32) blob = take (32 + (length blob - 64)) blob" using assms by simp
  also have "\<dots> = take 32 blob @ take (length blob - 64) (drop 32 blob)" by (rule take_add)
  also have "take 32 blob = take (16 + 16) blob" by simp
  finally have "take (length blob - 32) blob =
      (take 16 blob @ take 16 (drop 16 blob)) @ take (length blob - 64) (drop 32 blob)"
    by (simp only: take_add)
  then show "take 16 blob @ slice 16 32 blob @ take (length (drop 32 blob) - 32) (drop 32 blob) =
      take (length blob - 32) blob"
    by (simp add: slice_def)
  show "drop (length (drop 32 blob) - 32) (drop 32 blob) = drop (length blob - 32) blob"
    using assms by simp
qed

lemma decrypt_seed_eq:
  assumes "encode_utf8 pw = Inr b"
  shows "decrypt_seed x blob pw =
    (if 64 \<le> length blob \<and> drop (length blob - 32) blob =
        hmac_sha256 x (derive_key x b (take 16 blob)) (take (length blob - 32) blob)
     then bindR (stream x (slice 16 32 blob) (derive_key x b (take 16 blob)) (length blob - 64))
       (\<lambda>ks. return (xor_bytes (take (length blob - 64) (drop 32 blob)) ks))
     else Inl WalletError)"
proof (cases "64 \<le> length blob")
  case True
  note split = blob_split [OF True]
  have len: "length (drop 32 blob) - 32 = length blob - 64"
    "length (take (length blob - 64) (drop 32 blob)) = length blob - 64" by simp_all
  show ?thesis
    using True split assms unfolding decrypt_seed_def NONCE_LEN_def Let_def
    by (simp only: len add_2_eq_Suc) (simp add: len)
qed (simp add: decrypt_seed_def NONCE_LEN_def)

end
