(* ===== verification/Wallet.thy ===== *)
theory Wallet
  imports Wallet_Hd Node_Network Lifecycle_Facts
begin

text \<open>
  The wallet (\<open>wallet/utxo.py\<close>, \<open>wallet/builder.py\<close>, \<open>wallet/manage.py\<close>, \<open>wallet/send.py\<close>): the
  registry of its scripts, coin selection, the construction and signing of payments and of the
  channel funding transaction, and sending through the embedded node.  The view of the UTXO table
  is the node's block store, passed to the operations that read it.
\<close>

section \<open>The scripts of the wallet\<close>

type_synonym wallet_scripts = "(bytes, int \<times> int \<times> privkey) pydict"

definition add_p2pkh :: "externals \<Rightarrow> int \<Rightarrow> int \<Rightarrow> privkey \<Rightarrow> wallet_scripts \<Rightarrow> bytes \<times> wallet_scripts" where
  "add_p2pkh x account i priv ws =
     (let script = x_script_bytes x (p2pkh_script x (x_public_key x priv))
      in (script, dict_put script (account, i, priv) ws))"

definition keys_for :: "wallet_scripts \<Rightarrow> bytes \<Rightarrow> (int \<times> int \<times> privkey) option" where
  "keys_for ws script = dict_get ws script"

definition all_scripts :: "wallet_scripts \<Rightarrow> bytes list" where
  "all_scripts ws = map fst ws"

definition view_refresh :: "wallet_scripts \<Rightarrow> blockstore \<Rightarrow> utxo_entry list" where
  "view_refresh ws s = concat (map (utxos_for_script s) (all_scripts ws))"

definition confirmed_balance :: "wallet_scripts \<Rightarrow> blockstore \<Rightarrow> int" where
  "confirmed_balance ws s =
     sum_list (map ue_value (filter (\<lambda>e. 0 \<le> ue_height e) (view_refresh ws s)))"

section \<open>Coin selection\<close>

definition DEFAULT_FEE_PER_BYTE :: int where "DEFAULT_FEE_PER_BYTE = 1"
definition DEFAULT_DUST_THRESHOLD :: int where "DEFAULT_DUST_THRESHOLD = 1"

fun select_loop :: "utxo_entry list \<Rightarrow> int \<Rightarrow> int \<Rightarrow> utxo_entry list \<Rightarrow> utxo_entry list result" where
  "select_loop [] target acc selected = raise WalletBuildError"
| "select_loop (u # us) target acc selected =
     (let selected' = selected @ [u]; acc' = acc + ue_value u
      in if target \<le> acc' then return selected' else select_loop us target acc' selected')"

definition largest_first :: "utxo_entry list \<Rightarrow> utxo_entry list" where
  "largest_first us = sort_key (\<lambda>u. - ue_value u) us"

definition select_utxos :: "utxo_entry list \<Rightarrow> int \<Rightarrow> utxo_entry list result" where
  "select_utxos us target =
     (if target < 0 then raise WalletBuildError
      else select_loop (largest_first us) target 0 [])"

section \<open>Building transactions\<close>

record funding_output =
  fo_script :: script
  fo_value :: int

type_synonym keyed_utxo = "utxo_entry \<times> privkey"

text \<open>The inputs of the unsigned transaction, and the loop that signs them one by one.\<close>

definition payment_inputs :: "keyed_utxo list \<Rightarrow> txinput list" where
  "payment_inputs keyed =
     map (\<lambda>(u, _). TxInput (ue_txid u) (ue_vout u) [] FINAL_SEQUENCE) keyed"

definition sign_payment_input :: "externals \<Rightarrow> nat \<times> keyed_utxo \<Rightarrow> tx \<Rightarrow> tx" where
  "sign_payment_input x = (\<lambda>(i, u, priv) t.
     let sig = sign_input x t i (ue_value u) (x_script_of_bytes x (ue_script u)) priv
     in t\<lparr>tx_inputs := (tx_inputs t)[i := TxInput (ue_txid u) (ue_vout u)
            (p2pkh_unlock sig (x_public_key x priv)) FINAL_SEQUENCE]\<rparr>)"

definition sign_payment :: "externals \<Rightarrow> keyed_utxo list \<Rightarrow> tx \<Rightarrow> tx" where
  "sign_payment x keyed t = fold (sign_payment_input x) (List.enumerate 0 keyed) t"

definition keyed_total :: "keyed_utxo list \<Rightarrow> int" where
  "keyed_total keyed = sum_list (map (\<lambda>(u, _). ue_value u) keyed)"

definition check_whole :: "('a \<Rightarrow> int) \<Rightarrow> 'a list \<Rightarrow> unit result" where
  "check_whole f xs = check_all (\<lambda>a. bindR (ensure_whole_satoshi (PyInt (f a))) (\<lambda>_. return ())) xs"

definition build_and_sign_payment ::
  "externals \<Rightarrow> keyed_utxo list \<Rightarrow> funding_output list \<Rightarrow> pubkey \<Rightarrow> int \<Rightarrow> int \<Rightarrow> tx result" where
  "build_and_sign_payment x keyed outputs change_pubkey fee_per_byte dust_threshold =
     (if keyed = [] then raise WalletBuildError
      else bindR (check_whole (\<lambda>(u, _). ue_value u) keyed) (\<lambda>_.
           bindR (check_whole fo_value outputs) (\<lambda>_.
             let outs = map (\<lambda>f. TxOutput (fo_value f) (fo_script f)) outputs;
                 change_script = p2pkh_script x change_pubkey;
                 inputs = payment_inputs keyed;
                 provisional = Tx 1 inputs (outs @ [TxOutput 0 change_script]) 0;
                 estimated_sigsize = 108 * int (length inputs);
                 rough_size = x_tx_size x provisional + estimated_sigsize;
                 fee = rough_size * fee_per_byte;
                 total_in = keyed_total keyed;
                 total_out = sum_list (map fo_value outputs);
                 change_value = total_in - total_out - fee
             in if change_value < 0 then raise WalletBuildError
                else
                  let out_list = (if change_value < dust_threshold then outs
                                  else outs @ [TxOutput change_value change_script])
                  in return (sign_payment x keyed (Tx 1 inputs out_list 0)))))"

definition build_channel_funding_tx ::
  "externals \<Rightarrow> keyed_utxo list \<Rightarrow> config \<Rightarrow> keybook \<Rightarrow> pubkey \<Rightarrow> int \<Rightarrow> tx result" where
  "build_channel_funding_tx x keyed cfg kb change_pubkey fee_per_byte =
     (if keyed = [] then raise WalletBuildError
      else bindR (check_whole (\<lambda>(u, _). ue_value u) keyed) (\<lambda>_.
           bindR (build_channel_outputs x cfg kb) (\<lambda>channel_outputs.
             let channel_value = outputs_total channel_outputs;
                 change_script = p2pkh_script x change_pubkey;
                 inputs = payment_inputs keyed;
                 provisional = Tx 1 inputs (channel_outputs @ [TxOutput 0 change_script]) 0;
                 rough_size = x_tx_size x provisional + 108 * int (length inputs);
                 fee = rough_size * fee_per_byte;
                 total_in = keyed_total keyed;
                 change = total_in - channel_value - fee
             in if change < 0 then raise WalletBuildError
                else
                  let out_list = (if change < DEFAULT_DUST_THRESHOLD then channel_outputs
                                  else channel_outputs @ [TxOutput change change_script])
                  in return (sign_payment x keyed (Tx 1 inputs out_list 0)))))"

section \<open>Management\<close>

record wallet_manager =
  wm_hd :: hd_wallet
  wm_scripts :: wallet_scripts

text \<open>The view reads the store through the same scripts.\<close>

definition wm_fresh :: "hd_wallet \<Rightarrow> wallet_scripts \<Rightarrow> wallet_manager" where
  "wm_fresh h scripts = \<lparr>wm_hd = h, wm_scripts = scripts\<rparr>"

definition new_receive_address ::
  "externals \<Rightarrow> hd_externals \<Rightarrow> wallet_manager \<Rightarrow> int \<Rightarrow> int \<Rightarrow> (pubkey \<times> wallet_manager) result" where
  "new_receive_address x y wm account i =
     bindR (hd_derive y (wm_hd wm) account i) (\<lambda>priv.
       return (x_public_key x priv,
               wm\<lparr>wm_scripts := snd (add_p2pkh x account i priv (wm_scripts wm))\<rparr>))"

definition wm_balance :: "wallet_manager \<Rightarrow> blockstore \<Rightarrow> int" where
  "wm_balance wm s = confirmed_balance (wm_scripts wm) s"

definition list_utxos :: "wallet_manager \<Rightarrow> blockstore \<Rightarrow> (bytes \<times> int \<times> int) list" where
  "list_utxos wm s =
     map (\<lambda>u. (ue_txid u, ue_vout u, ue_value u)) (view_refresh (wm_scripts wm) s)"

section \<open>Sending\<close>

record send_result =
  sr_tx :: tx
  sr_fee :: int
  sr_accepted :: bool
  sr_reason :: verdict

text \<open>The view is over the given block store; the transaction goes to the node's mempool.\<close>

definition pay_p2pkh ::
  "externals \<Rightarrow> wallet_scripts \<Rightarrow> blockstore \<Rightarrow> pubkey \<Rightarrow> int \<Rightarrow> pubkey \<Rightarrow> int \<Rightarrow> node \<Rightarrow>
   (send_result \<times> node) result" where
  "pay_p2pkh x ws s target_pubkey amount change_pubkey fee_per_byte nd =
     (let us = view_refresh ws s
      in if us = [] then raise SendError
         else bindR (select_utxos us (amount + 1000)) (\<lambda>selected.
              bindR (mapR (\<lambda>u. case keys_for ws (ue_script u) of
                         None \<Rightarrow> raise SendError
                       | Some (_, _, priv) \<Rightarrow> return (u, priv)) selected) (\<lambda>keyed.
                let target_script = p2pkh_script x target_pubkey;
                    out = \<lparr>fo_script = target_script, fo_value = amount\<rparr>
                in bindR (build_and_sign_payment x keyed [out] change_pubkey fee_per_byte
                            DEFAULT_DUST_THRESHOLD) (\<lambda>t.
                     let fee = keyed_total keyed - outputs_total (tx_outputs t)
                     in bindR (submit_tx x nd t) (\<lambda>(r, nd').
                          return (\<lparr>sr_tx = t, sr_fee = fee, sr_accepted = vr_ok r,
                                   sr_reason = vr_reason r\<rparr>, nd'))))))"

end
