(* ===== verification/Wallet_Facts.thy ===== *)
theory Wallet_Facts
  imports Wallet "HOL-Library.Multiset"
begin

text \<open>
  The lemmas about the wallet: coin selection takes the fewest coins, signing leaves everything but
  the unlocking scripts alone, the value balance of payments, and that the funding transactions the
  wallet builds carry the channel's canonical outputs.
\<close>

section \<open>Coin selection\<close>

abbreviation value_of :: "utxo_entry list \<Rightarrow> int" where
  "value_of us \<equiv> sum_list (map ue_value us)"

lemma select_loop_Inr:
  assumes "select_loop us target acc sel = Inr r"
  shows "\<exists>n. 0 < n \<and> n \<le> length us \<and> r = sel @ take n us \<and> target \<le> acc + value_of (take n us) \<and>
    (\<forall>m. 0 < m \<and> m < n \<longrightarrow> acc + value_of (take m us) < target)"
  using assms
proof (induction us arbitrary: acc sel)
  case (Cons u us)
  show ?case
  proof (cases "target \<le> acc + ue_value u")
    case True
    with Cons.prems show ?thesis by (intro exI [of _ 1]) auto
  next
    case False
    with Cons.prems have "select_loop us target (acc + ue_value u) (sel @ [u]) = Inr r" by simp
    from Cons.IH [OF this] obtain n where n: "0 < n" "n \<le> length us" "r = (sel @ [u]) @ take n us"
      "target \<le> acc + ue_value u + value_of (take n us)"
      "\<forall>m. 0 < m \<and> m < n \<longrightarrow> acc + ue_value u + value_of (take m us) < target" by blast
    have "acc + value_of (take m (u # us)) < target" if "0 < m" "m < Suc n" for m
      using n(5) False that by (cases m; cases "m = 1") (auto simp: add.assoc)
    with n show ?thesis by (intro exI [of _ "Suc n"]) (auto simp: add.assoc)
  qed
qed simp

lemma select_loop_total:
  assumes "us \<noteq> []" and "target \<le> acc + value_of us"
  shows "\<exists>r. select_loop us target acc sel = Inr r"
  using assms
proof (induction us arbitrary: acc sel)
  case (Cons u us)
  show ?case
  proof (cases "target \<le> acc + ue_value u")
    case False
    with Cons.prems have "us \<noteq> []" "target \<le> (acc + ue_value u) + value_of us" by auto
    from Cons.IH [OF this, of "sel @ [u]"] False show ?thesis by simp
  qed simp
qed simp

lemma select_loop_fails: "select_loop us target acc sel = Inl e \<Longrightarrow> e = WalletBuildError"
  by (induction us arbitrary: acc sel) (auto simp: Let_def split: if_splits)

text \<open>No choice of as many coins is worth more than the first coins of the sorted list.\<close>

lemma largest_first_best:
  fixes f :: "'a \<Rightarrow> int"
  assumes "sorted (map (\<lambda>u. - f u) xs)" and "M \<subseteq># mset xs"
  shows "sum_mset (image_mset f M) \<le> sum_list (map f (take (size M) xs))"
  using assms
proof (induction xs arbitrary: M)
  case (Cons u xs)
  show ?case
  proof (cases "u \<in># M")
    case True
    then obtain M' where M: "M = add_mset u M'" by (metis mset_add)
    with Cons.prems have "M' \<subseteq># mset xs" by simp
    with Cons.IH [of M'] Cons.prems(1) show ?thesis by (simp add: M)
  next
    case False
    with Cons.prems(2) have sub: "M \<subseteq># mset xs"
      by (intro mset_subset_eqI) (metis False count_add_mset count_eq_zero_iff le0 mset.simps(2)
          mset_subset_eq_count)
    show ?thesis
    proof (cases "size M")
      case (Suc k)
      have len: "k < length xs" using size_mset_mono [OF sub] Suc by simp
      have "sum_mset (image_mset f M) \<le> sum_list (map f (take (Suc k) xs))"
        using Cons.IH [OF _ sub] Cons.prems(1) Suc by simp
      also have "\<dots> = sum_list (map f (take k xs)) + f (xs ! k)"
        using len by (simp add: take_Suc_conv_app_nth)
      also have "f (xs ! k) \<le> f u" using Cons.prems(1) len by (auto simp: all_set_conv_all_nth)
      finally show ?thesis using Suc by simp
    qed simp
  qed
qed simp

lemma largest_first_sorted: "sorted (map (\<lambda>u. - ue_value u) (largest_first us))"
  by (simp add: largest_first_def)

lemma largest_first_mset [simp]: "mset (largest_first us) = mset us"
  by (simp add: largest_first_def)

lemma largest_first_sum [simp]: "value_of (largest_first us) = value_of us"
  by (metis largest_first_mset mset_map sum_mset_sum_list)

lemma select_utxos_Inr:
  assumes "select_utxos us target = Inr r"
  obtains n where "0 < n" "n \<le> length us" "r = take n (largest_first us)" "target \<le> value_of r"
    "\<And>M. 0 < target \<Longrightarrow> M \<subseteq># mset us \<Longrightarrow> target \<le> sum_mset (image_mset ue_value M) \<Longrightarrow> n \<le> size M"
proof -
  have len: "length (largest_first us) = length us" by (simp add: largest_first_def)
  have run: "select_loop (largest_first us) target 0 [] = Inr r"
    using assms by (simp add: select_utxos_def split: if_splits)
  obtain n where n: "0 < n" "n \<le> length us" "r = take n (largest_first us)" "target \<le> value_of r"
    "\<forall>m. 0 < m \<and> m < n \<longrightarrow> value_of (take m (largest_first us)) < target"
    using select_loop_Inr [OF run] len by auto
  have "n \<le> size M" if "0 < target" "M \<subseteq># mset us" "target \<le> sum_mset (image_mset ue_value M)" for M
  proof (rule ccontr)
    assume "\<not> n \<le> size M"
    moreover have "target \<le> value_of (take (size M) (largest_first us))"
      using largest_first_best [OF largest_first_sorted, of M us] that by simp
    moreover have "size M \<noteq> 0" using that by (auto simp: size_eq_0_iff_empty)
    ultimately show False using n(5) by (metis not_less not_le gr0I)
  qed
  with n that show ?thesis by blast
qed

lemma select_utxos_total:
  assumes "0 \<le> target" and "us \<noteq> []" and "target \<le> value_of us"
  shows "\<exists>r. select_utxos us target = Inr r"
proof -
  have "largest_first us \<noteq> []" using assms(2) by (metis largest_first_mset mset_zero_iff)
  with select_loop_total [of "largest_first us" target 0 "[]"] assms show ?thesis
    by (simp add: select_utxos_def)
qed

lemma select_utxos_fails: "select_utxos us target = Inl e \<Longrightarrow> e = WalletBuildError"
  by (auto simp: select_utxos_def dest: select_loop_fails split: if_splits)

section \<open>Payments\<close>

text \<open>Signing input after input changes the unlocking scripts only.\<close>

definition spends_keyed :: "keyed_utxo list \<Rightarrow> tx \<Rightarrow> bool" where
  "spends_keyed keyed t \<longleftrightarrow>
     map outpoint_of (tx_inputs t) = map (\<lambda>(u, _). (ue_txid u, ue_vout u)) keyed \<and>
     map sequence (tx_inputs t) = replicate (length keyed) FINAL_SEQUENCE"

lemma spends_keyed_view: "unsigned_view t = unsigned_view t' \<Longrightarrow> spends_keyed keyed t = spends_keyed keyed t'"
  using unsigned_viewD(5,6) [of t t'] unfolding spends_keyed_def by simp

lemma sign_payment_input_view:
  assumes "spends_keyed keyed t" and "i < length keyed" and "keyed ! i = (u, k)"
  shows "unsigned_view (sign_payment_input x (i, u, k) t) = unsigned_view t"
proof -
  have ops: "map outpoint_of (tx_inputs t) = map (\<lambda>(u, _). (ue_txid u, ue_vout u)) keyed"
    and seqs: "map sequence (tx_inputs t) = replicate (length keyed) FINAL_SEQUENCE"
    using assms(1) by (simp_all add: spends_keyed_def)
  have len: "i < length (tx_inputs t)" using map_eq_imp_length_eq [OF ops] assms(2) by simp
  have op: "map outpoint_of (tx_inputs t) ! i = (ue_txid u, ue_vout u)"
    unfolding ops using assms(2,3) by simp
  have sq: "map sequence (tx_inputs t) ! i = FINAL_SEQUENCE"
    unfolding seqs using assms(2) by simp
  have "(map outpoint_of (tx_inputs t))[i := (ue_txid u, ue_vout u)] = map outpoint_of (tx_inputs t)"
    "(map sequence (tx_inputs t))[i := FINAL_SEQUENCE] = map sequence (tx_inputs t)"
    using op sq list_update_id by metis+
  then show ?thesis by (simp add: sign_payment_input_def unsigned_view_def map_update Let_def)
qed

lemma sign_payment_view:
  assumes "spends_keyed keyed t"
  shows "unsigned_view (sign_payment x keyed t) = unsigned_view t"
proof -
  have "unsigned_view (fold (sign_payment_input x) iks t) = unsigned_view t"
    if "\<And>i uk. (i, uk) \<in> set iks \<Longrightarrow> i < length keyed \<and> keyed ! i = uk" "spends_keyed keyed t" for iks t
    using that
  proof (induction iks arbitrary: t)
    case (Cons ik iks)
    obtain i u k where ik: "ik = (i, u, k)" by (cases ik) auto
    have step: "unsigned_view (sign_payment_input x ik t) = unsigned_view t"
      using Cons.prems(1) [of i "(u, k)"] Cons.prems(2) sign_payment_input_view [of keyed t i u k x]
      by (simp add: ik)
    have "spends_keyed keyed (sign_payment_input x ik t)"
      using spends_keyed_view [OF step] Cons.prems(2) by simp
    then have "unsigned_view (fold (sign_payment_input x) iks (sign_payment_input x ik t)) =
        unsigned_view (sign_payment_input x ik t)"
      using Cons.prems(1) by (intro Cons.IH) auto
    then show ?case by (simp add: step)
  qed simp
  moreover have "i < length keyed \<and> keyed ! i = uk" if "(i, uk) \<in> set (List.enumerate 0 keyed)" for i uk
    using that by (auto simp: in_set_enumerate_eq)
  ultimately show ?thesis using assms unfolding sign_payment_def by blast
qed

lemma payment_spends_keyed: "spends_keyed keyed (Tx 1 (payment_inputs keyed) outs 0)"
  by (auto simp: spends_keyed_def Tx_def payment_inputs_def split_def intro: nth_equalityI)

lemma check_whole_eq: "check_whole f xs = (if \<forall>a \<in> set xs. 0 \<le> f a then Inr () else Inl FractionalSatoshiError)"
  by (induction xs) (auto simp: check_whole_def)

text \<open>The fee the builder asks for: the size with a change output, at the given rate.\<close>

definition rough_fee :: "externals \<Rightarrow> keyed_utxo list \<Rightarrow> txoutput list \<Rightarrow> pubkey \<Rightarrow> int \<Rightarrow> int" where
  "rough_fee x keyed outs change_pk rate =
     (x_tx_size x (Tx 1 (payment_inputs keyed) (outs @ [TxOutput 0 (p2pkh_script x change_pk)]) 0)
       + 108 * int (length keyed)) * rate"

definition with_change :: "externals \<Rightarrow> keyed_utxo list \<Rightarrow> txoutput list \<Rightarrow> pubkey \<Rightarrow> int \<Rightarrow> int \<Rightarrow> txoutput list" where
  "with_change x keyed outs change_pk rate dust =
     (let change = keyed_total keyed - outputs_total outs - rough_fee x keyed outs change_pk rate
      in if change < dust then outs else outs @ [TxOutput change (p2pkh_script x change_pk)])"

definition signed_payment :: "externals \<Rightarrow> keyed_utxo list \<Rightarrow> txoutput list \<Rightarrow> pubkey \<Rightarrow> int \<Rightarrow> int \<Rightarrow> tx" where
  "signed_payment x keyed outs change_pk rate dust =
     sign_payment x keyed (Tx 1 (payment_inputs keyed) (with_change x keyed outs change_pk rate dust) 0)"

definition plain_outputs :: "funding_output list \<Rightarrow> txoutput list" where
  "plain_outputs outputs = map (\<lambda>f. TxOutput (fo_value f) (fo_script f)) outputs"

lemma plain_outputs_total: "outputs_total (plain_outputs outputs) = sum_list (map fo_value outputs)"
  by (simp add: plain_outputs_def outputs_total_def comp_def)

lemma length_payment_inputs [simp]: "length (payment_inputs keyed) = length keyed"
  by (simp add: payment_inputs_def)

lemma build_payment_eq:
  assumes "keyed \<noteq> []" and "\<forall>(u, _) \<in> set keyed. 0 \<le> ue_value u" and "\<forall>f \<in> set outputs. 0 \<le> fo_value f"
  shows "build_and_sign_payment x keyed outputs change_pk rate dust =
    (if keyed_total keyed < outputs_total (plain_outputs outputs) + rough_fee x keyed (plain_outputs outputs) change_pk rate
     then Inl WalletBuildError
     else Inr (signed_payment x keyed (plain_outputs outputs) change_pk rate dust))"
proof -
  have "\<forall>a \<in> set keyed. 0 \<le> (case a of (u, _) \<Rightarrow> ue_value u)" using assms(2) by auto
  with assms show ?thesis
    by (simp add: build_and_sign_payment_def check_whole_eq Let_def signed_payment_def with_change_def
        plain_outputs_total rough_fee_def flip: plain_outputs_def)
qed

lemma signed_payment_view:
  "unsigned_view (signed_payment x keyed outs change_pk rate dust) =
     (1, map (\<lambda>(u, _). (ue_txid u, ue_vout u)) keyed, replicate (length keyed) FINAL_SEQUENCE,
      with_change x keyed outs change_pk rate dust, 0)"
  using sign_payment_view [OF payment_spends_keyed, of x keyed] payment_spends_keyed [of keyed]
  unfolding signed_payment_def by (simp add: unsigned_view_def spends_keyed_def)

lemma with_change_total:
  fixes x keyed outs change_pk rate dust
  defines "paid \<equiv> keyed_total keyed - outputs_total (with_change x keyed outs change_pk rate dust)"
  assumes "outputs_total outs + rough_fee x keyed outs change_pk rate \<le> keyed_total keyed"
  shows "rough_fee x keyed outs change_pk rate \<le> paid"
    and "paid = rough_fee x keyed outs change_pk rate \<or> paid < rough_fee x keyed outs change_pk rate + dust"
  using assms by (auto simp: with_change_def Let_def)

section \<open>Channel funding\<close>

lemma build_funding_eq:
  assumes "keyed \<noteq> []" and "\<forall>(u, _) \<in> set keyed. 0 \<le> ue_value u"
    and "build_channel_outputs x cfg kb = Inr outs"
  shows "build_channel_funding_tx x keyed cfg kb change_pk rate =
    (if keyed_total keyed < outputs_total outs + rough_fee x keyed outs change_pk rate
     then Inl WalletBuildError
     else Inr (signed_payment x keyed outs change_pk rate DEFAULT_DUST_THRESHOLD))"
proof -
  have "\<forall>a \<in> set keyed. 0 \<le> (case a of (u, _) \<Rightarrow> ue_value u)" using assms(2) by auto
  with assms show ?thesis
    by (simp add: build_channel_funding_tx_def check_whole_eq Let_def signed_payment_def with_change_def
        rough_fee_def)
qed

text \<open>The funding transaction carries the canonical outputs, whatever change follows them.\<close>

lemma canonical_outputs_append:
  assumes "valid_config cfg" and "kb_n kb = cfg_n cfg" and "build_channel_outputs x cfg kb = Inr outs"
    and "tx_outputs t = outs @ rest"
  shows "canonical_funding x cfg kb t"
proof -
  have n: "2 \<le> cfg_n cfg" using valid_configD(1) [OF assms(1)] .
  have outs: "outs = TxOutput (cfg_S cfg) (funding_lock x kb) #
      map (\<lambda>i. TxOutput (cfg_bonds cfg ! nat i) (bond_lock x kb (cfg_n cfg) i)) (py_range (cfg_n cfg))"
    using assms(3) build_channel_outputs_eq [OF assms(1,2), of x] by simp
  show ?thesis
    using n by (auto simp: canonical_funding_def assms(4) outs nth_append)
qed

lemma build_funding_canonical:
  assumes "build_channel_funding_tx x keyed cfg kb change_pk rate = Inr t"
    and "valid_config cfg" and "kb_n kb = cfg_n cfg"
  shows "canonical_funding x cfg kb t"
    and "map outpoint_of (tx_inputs t) = map (\<lambda>(u, _). (ue_txid u, ue_vout u)) keyed"
    and "outputs_total (tx_outputs t) \<le> keyed_total keyed - rough_fee x keyed (projr (build_channel_outputs x cfg kb)) change_pk rate"
proof -
  obtain outs where outs: "build_channel_outputs x cfg kb = Inr outs"
    using build_channel_outputs_eq [OF assms(2,3)] by blast
  have ne: "keyed \<noteq> []" and whole: "\<forall>(u, _) \<in> set keyed. 0 \<le> ue_value u"
    using assms(1) by (auto simp: build_channel_funding_tx_def check_whole_eq bindR_eq_Inr split: if_splits)
  from build_funding_eq [OF ne whole outs, of change_pk rate] assms(1)
  have t: "t = signed_payment x keyed outs change_pk rate DEFAULT_DUST_THRESHOLD"
    and enough: "outputs_total outs + rough_fee x keyed outs change_pk rate \<le> keyed_total keyed"
    by (simp_all split: if_splits)
  have view: "tx_outputs t = with_change x keyed outs change_pk rate DEFAULT_DUST_THRESHOLD"
    and ops: "map outpoint_of (tx_inputs t) = map (\<lambda>(u, _). (ue_txid u, ue_vout u)) keyed"
    using signed_payment_view [of x keyed outs change_pk rate DEFAULT_DUST_THRESHOLD]
    by (simp_all add: t unsigned_view_def)
  from view obtain rest where "tx_outputs t = outs @ rest"
    by (auto simp: with_change_def Let_def split: if_splits)
  then show "canonical_funding x cfg kb t"
    by (rule canonical_outputs_append [OF assms(2,3) outs])
  show "map outpoint_of (tx_inputs t) = map (\<lambda>(u, _). (ue_txid u, ue_vout u)) keyed" by (rule ops)
  show "outputs_total (tx_outputs t) \<le> keyed_total keyed - rough_fee x keyed (projr (build_channel_outputs x cfg kb)) change_pk rate"
    using with_change_total(1) [OF enough, of DEFAULT_DUST_THRESHOLD] by (simp add: view outs)
qed

section \<open>Sending\<close>

lemma keyed_of_selected:
  assumes "mapR (\<lambda>u. case keys_for ws (ue_script u) of
        None \<Rightarrow> raise SendError | Some (_, _, priv) \<Rightarrow> return (u, priv)) selected = Inr keyed"
  shows "map fst keyed = selected \<and>
    (\<forall>(u, priv) \<in> set keyed. \<exists>a i. keys_for ws (ue_script u) = Some (a, i, priv))"
  using assms
  by (induction selected arbitrary: keyed) (auto simp: bindR_eq_Inr split: option.splits prod.splits)

lemma pay_p2pkh_Inr:
  assumes "pay_p2pkh x ws s pk amount change_pk rate nd = Inr (r, nd')"
  obtains selected keyed where "select_utxos (view_refresh ws s) (amount + 1000) = Inr selected"
    "map fst keyed = selected" "\<forall>(u, priv) \<in> set keyed. \<exists>a i. keys_for ws (ue_script u) = Some (a, i, priv)"
    "build_and_sign_payment x keyed [\<lparr>fo_script = p2pkh_script x pk, fo_value = amount\<rparr>] change_pk rate
       DEFAULT_DUST_THRESHOLD = Inr (sr_tx r)"
    "sr_fee r = keyed_total keyed - outputs_total (tx_outputs (sr_tx r))"
    "\<exists>v mp. admit x (nd_blockstore nd) (nd_mempool nd) (sr_tx r) = Inr (v, mp) \<and>
       sr_accepted r = vr_ok v \<and> nd' = nd\<lparr>nd_mempool := mp\<rparr>"
proof -
  obtain selected keyed where sel: "select_utxos (view_refresh ws s) (amount + 1000) = Inr selected"
    and key: "mapR (\<lambda>u. case keys_for ws (ue_script u) of
        None \<Rightarrow> raise SendError | Some (_, _, priv) \<Rightarrow> return (u, priv)) selected = Inr keyed"
    and rest: "bindR (build_and_sign_payment x keyed [\<lparr>fo_script = p2pkh_script x pk, fo_value = amount\<rparr>]
        change_pk rate DEFAULT_DUST_THRESHOLD) (\<lambda>t. bindR (submit_tx x nd t) (\<lambda>(v, nd').
          return (\<lparr>sr_tx = t, sr_fee = keyed_total keyed - outputs_total (tx_outputs t),
                   sr_accepted = vr_ok v, sr_reason = vr_reason v\<rparr>, nd'))) = Inr (r, nd')"
    using assms by (auto simp: pay_p2pkh_def Let_def bindR_eq_Inr split: if_splits)
  from rest obtain t where
    "build_and_sign_payment x keyed [\<lparr>fo_script = p2pkh_script x pk, fo_value = amount\<rparr>]
        change_pk rate DEFAULT_DUST_THRESHOLD = Inr t" "sr_tx r = t"
    "sr_fee r = keyed_total keyed - outputs_total (tx_outputs t)"
    "\<exists>v mp. admit x (nd_blockstore nd) (nd_mempool nd) t = Inr (v, mp) \<and>
       sr_accepted r = vr_ok v \<and> nd' = nd\<lparr>nd_mempool := mp\<rparr>"
    by (auto simp: bindR_eq_Inr submit_tx_def)
  with that [of selected keyed] sel keyed_of_selected [OF key] show ?thesis by simp
qed

end
