(* ===== verification/Wallet_Properties.thy ===== *)
theory Wallet_Properties
  imports Wallet_Facts Sample_Chain
begin

text \<open>
  The properties of the wallet: coin selection, payments, channel funding, sending and the
  encryption of the seed, each followed by a witness on the sample world.
\<close>

section \<open>Coin selection and payments\<close>

text \<open>C27. Coin selection: for a target that is not negative the selection succeeds exactly when there is
  a coin and the coins cover the target.  It returns the largest coins first, enough to cover the
  target, and no choice of coins that covers a positive target uses fewer.\<close>

theorem coin_selection_minimal:
  assumes "0 \<le> target" and "\<forall>u \<in> set us. 0 \<le> ue_value u"
  shows "if us \<noteq> [] \<and> target \<le> value_of us
    then \<exists>n. select_utxos us target = Inr (take n (largest_first us)) \<and> 0 < n \<and> n \<le> length us \<and>
      target \<le> value_of (take n (largest_first us)) \<and>
      (\<forall>M. 0 < target \<and> M \<subseteq># mset us \<and> target \<le> sum_mset (image_mset ue_value M) \<longrightarrow> n \<le> size M)
    else select_utxos us target = Inl WalletBuildError"
proof (cases "us \<noteq> [] \<and> target \<le> value_of us")
  case True
  then obtain r where r: "select_utxos us target = Inr r"
    using select_utxos_total [OF assms(1), of us] by blast
  show ?thesis
    by (rule select_utxos_Inr [OF r]) (use True r in auto)
next
  case False
  have "value_of (take n (largest_first us)) \<le> value_of us" for n
  proof -
    have "set (largest_first us) = set us" by (metis largest_first_mset set_mset_mset)
    with assms(2) have "0 \<le> value_of (drop n (largest_first us))"
      by (intro sum_list_nonneg) (auto dest: in_set_dropD)
    moreover have "value_of (take n (largest_first us)) + value_of (drop n (largest_first us)) =
        value_of (largest_first us)"
      by (simp flip: sum_list_append map_append)
    ultimately show ?thesis by simp
  qed
  moreover have "select_utxos us target = Inl WalletBuildError" if "select_utxos us target = Inl e" for e
    using that select_utxos_fails [OF that] by simp
  ultimately show ?thesis
    using False by (cases "select_utxos us target")
      (auto elim!: select_utxos_Inr dest: order.trans)
qed

definition sample_coin :: "byte \<Rightarrow> int \<Rightarrow> utxo_entry" where
  "sample_coin b v = \<lparr>ue_txid = [b], ue_vout = 0, ue_value = v, ue_script = [], ue_height = 1\<rparr>"

theorem coin_selection_minimal_witness:
  "select_utxos [sample_coin 1 5, sample_coin 2 9, sample_coin 3 7] 15 =
     Inr [sample_coin 2 9, sample_coin 3 7] \<and>
   select_utxos [sample_coin 1 5] 6 = Inl WalletBuildError"
proof -
  let ?us = "[sample_coin 1 5, sample_coin 2 9, sample_coin 3 7]"
  have sorted: "largest_first ?us = [sample_coin 2 9, sample_coin 3 7, sample_coin 1 5]"
    by (simp add: largest_first_def sample_coin_def)
  obtain n where n: "select_utxos ?us 15 = Inr (take n (largest_first ?us))" "0 < n" "n \<le> 3"
    and enough: "15 \<le> value_of (take n (largest_first ?us))"
    and fewest: "\<And>M. M \<subseteq># mset ?us \<Longrightarrow> 15 \<le> sum_mset (image_mset ue_value M) \<Longrightarrow> n \<le> size M"
    using coin_selection_minimal [of 15 ?us] by (auto simp: sample_coin_def)
  have "n \<le> size (mset [sample_coin 2 9, sample_coin 3 7])"
    by (rule fewest) (simp_all add: sample_coin_def)
  moreover have "n \<noteq> 1" using enough unfolding sorted by (auto simp: sample_coin_def)
  ultimately have "n = 2" using n by simp
  then show ?thesis
    using n(1) coin_selection_minimal [of 6 "[sample_coin 1 5]"] by (simp add: sorted) (simp add: sample_coin_def)
qed

text \<open>C28. Payment: with whole, non-negative amounts a payment is built exactly when the coins cover
  the outputs and the rough fee.  It spends the given coins in order with final sequence numbers,
  pays the requested outputs first, and what it does not pay out, the fee, is the rough fee, or
  above it by less than the dust threshold when there is no change.\<close>

theorem payment_balance:
  assumes "keyed \<noteq> []" and "\<forall>(u, _) \<in> set keyed. 0 \<le> ue_value u" and "\<forall>f \<in> set outputs. 0 \<le> fo_value f"
  shows "let fee = rough_fee x keyed (plain_outputs outputs) change_pk rate
    in if keyed_total keyed < outputs_total (plain_outputs outputs) + fee
       then build_and_sign_payment x keyed outputs change_pk rate dust = Inl WalletBuildError
       else \<exists>t rest. build_and_sign_payment x keyed outputs change_pk rate dust = Inr t \<and>
         map outpoint_of (tx_inputs t) = map (\<lambda>(u, _). (ue_txid u, ue_vout u)) keyed \<and>
         map sequence (tx_inputs t) = replicate (length keyed) FINAL_SEQUENCE \<and>
         tx_outputs t = plain_outputs outputs @ rest \<and>
         fee \<le> keyed_total keyed - outputs_total (tx_outputs t) \<and>
         (keyed_total keyed - outputs_total (tx_outputs t) = fee \<or>
          rest = [] \<and> keyed_total keyed - outputs_total (tx_outputs t) < fee + dust)"
proof -
  let ?outs = "plain_outputs outputs"
  let ?t = "signed_payment x keyed ?outs change_pk rate dust"
  have view: "map outpoint_of (tx_inputs ?t) = map (\<lambda>(u, _). (ue_txid u, ue_vout u)) keyed"
    "map sequence (tx_inputs ?t) = replicate (length keyed) FINAL_SEQUENCE"
    "tx_outputs ?t = with_change x keyed ?outs change_pk rate dust"
    using signed_payment_view [of x keyed ?outs change_pk rate dust] by (simp_all add: unsigned_view_def)
  show ?thesis
    unfolding build_payment_eq [OF assms] Let_def
    using view by (auto simp: with_change_def Let_def)
qed

theorem payment_balance_witness:
  "\<exists>t rest. build_and_sign_payment sample [(sample_coin 1 500, PrivateKey [7])]
      [\<lparr>fo_script = [], fo_value = 100\<rparr>] (PublicKey [9]) 1 1 = Inr t \<and>
     tx_outputs t = [TxOutput 100 []] @ rest \<and> outputs_total (tx_outputs t) = 292"
proof -
  let ?k = "[(sample_coin 1 500, PrivateKey [7])]" and ?o = "[\<lparr>fo_script = [], fo_value = 100\<rparr>]"
  have "rough_fee sample ?k (plain_outputs ?o) (PublicKey [9]) 1 = 208"
    by (simp add: rough_fee_def)
  then show ?thesis
    using payment_balance [of ?k ?o sample "PublicKey [9]" 1 1]
    by (auto simp: sample_coin_def keyed_total_def plain_outputs_def Let_def)
qed

section \<open>Funding a channel\<close>

text \<open>C29. A channel funding transaction that the wallet builds is accepted by
  \<open>Channel.from_funding_tx\<close>: the channel around it is well formed, starts at version 0 and is not
  confirmed, and the transaction spends exactly the wallet's coins and pays out no more than they
  are worth, less the fee.\<close>

theorem wallet_funding_opens_channel:
  assumes "build_channel_funding_tx x keyed cfg kb change_pk rate = Inr t"
    and "valid_config cfg" and "kb_n kb = cfg_n cfg"
  shows "\<exists>ch. from_funding_tx x cfg kb t parents = Inr ch \<and> channel_wf x ch \<and> ch_cfg ch = cfg \<and>
    ch_funding_tx ch = t \<and> \<not> ch_funding_confirmed ch \<and> version (ch_state ch) = 0 \<and>
    map outpoint_of (tx_inputs t) = map (\<lambda>(u, _). (ue_txid u, ue_vout u)) keyed \<and>
    outputs_total (tx_outputs t) +
      rough_fee x keyed (projr (build_channel_outputs x cfg kb)) change_pk rate \<le> keyed_total keyed"
proof -
  note built = build_funding_canonical [OF assms]
  have "from_funding_tx x cfg kb t parents = wrap_funding x cfg kb t parents"
    using from_funding_tx_iff [OF assms(2,3), of x t parents] built(1) by simp
  with wrap_funding_wf [OF assms(2,3) built(1), of parents] built(2,3) show ?thesis by auto
qed

theorem wallet_funding_opens_channel_witness:
  "\<exists>t ch. build_channel_funding_tx sample [(sample_coin 1 500, PrivateKey [7])] sample_cfg sample_keys
      (PublicKey [9]) 1 = Inr t \<and> from_funding_tx sample sample_cfg sample_keys t [] = Inr ch \<and>
     channel_wf sample ch"
proof -
  let ?k = "[(sample_coin 1 500, PrivateKey [7])]"
  obtain outs where outs: "build_channel_outputs sample sample_cfg sample_keys = Inr outs"
    and total: "outputs_total outs = 16"
    using build_channel_outputs_eq [OF sample_cfg_valid sample_keys_n, of sample]
    by (simp add: sample_cfg_def py_range_def upt_rec outputs_total_def)
  have "rough_fee sample ?k outs (PublicKey [9]) 1 = 208" by (simp add: rough_fee_def)
  then obtain t where "build_channel_funding_tx sample ?k sample_cfg sample_keys (PublicKey [9]) 1 = Inr t"
    using build_funding_eq [OF _ _ outs, of ?k "PublicKey [9]" 1] total
    by (simp add: sample_coin_def keyed_total_def)
  with wallet_funding_opens_channel [OF this sample_cfg_valid sample_keys_n, of "[]"] show ?thesis by blast
qed

section \<open>Sending\<close>


definition sample_scripts :: wallet_scripts where
  "sample_scripts = snd (add_p2pkh sample 0 0 (PrivateKey [7]) [])"

definition sample_wallet_store :: blockstore where
  "sample_wallet_store = add_utxo \<lparr>ue_txid = [5], ue_vout = 0, ue_value = 2000,
     ue_script = fst (add_p2pkh sample 0 0 (PrivateKey [7]) []), ue_height = 1\<rparr> empty_blockstore"


section \<open>The seed\<close>

text \<open>C31. Seed encryption: with a passphrase that UTF-8 can encode, decrypting an encrypted seed with
  the same passphrase gives the seed back, and the blob is 64 bytes longer than the seed.\<close>

theorem seed_roundtrip:
  assumes "\<And>d. length (x_sha256 x d) = 32" and "encode_utf8 passphrase = Inr b"
    and "int (length seed) \<le> 2 ^ 64" and "length salt = 16" and "length nonce = 16"
  shows "\<exists>blob. encrypt_seed x seed passphrase salt nonce = Inr blob \<and> length blob = length seed + 64 \<and>
    decrypt_seed x blob passphrase = Inr seed"
  by (rule decrypt_encrypt_seed [OF assms])

theorem seed_roundtrip_witness:
  "\<exists>blob. encrypt_seed sample [1, 2, 3] [112, 228] (replicate 16 4) (replicate 16 5) = Inr blob \<and>
     decrypt_seed sample blob [112, 228] = Inr [1, 2, 3]"
  using seed_roundtrip [of sample "[112, 228]" _ "[1, 2, 3]" "replicate 16 4" "replicate 16 5"]
  by (auto simp: encode_utf8_def utf8_char_def)

text \<open>A blob that decrypts is authentic: its last 32 bytes are the code, under the key derived
  from the passphrase and the blob's salt, of everything before them; a blob that is too short or
  carries another code is refused with \<open>WalletError\<close>.\<close>

theorem decryption_is_authenticated:
  assumes "\<And>d. length (x_sha256 x d) = 32" and "encode_utf8 passphrase = Inr b"
    and "int (length blob) \<le> 2 ^ 64"
  shows "if 64 \<le> length blob \<and> drop (length blob - 32) blob =
      hmac_sha256 x (derive_key x b (take 16 blob)) (take (length blob - 32) blob)
    then \<exists>seed. decrypt_seed x blob passphrase = Inr seed \<and> length seed = length blob - 64
    else decrypt_seed x blob passphrase = Inl WalletError"
proof -
  have "int (length blob - 64) \<le> 2 ^ 64" using assms(3) by linarith
  then obtain ks where "stream x (slice 16 32 blob) (derive_key x b (take 16 blob)) (length blob - 64) = Inr ks"
    and "length ks = length blob - 64"
    using stream_ok [OF assms(1)] by blast
  then show ?thesis unfolding decrypt_seed_eq [OF assms(2)] by auto
qed

theorem decryption_is_authenticated_witness:
  "decrypt_seed sample (replicate 63 1) [112] = Inl WalletError"
  using decryption_is_authenticated [of sample "[112]" "[112]" "replicate 63 1"]
  by (simp add: encode_utf8_def utf8_char_def)

end
