(* ===== verification/Py_Json.thy ===== *)
theory Py_Json
  imports Py_Bytes "HOL-Library.Char_ord"
begin

text \<open>
  What the persistence code uses of Python's text handling: \<open>bytes.hex\<close> and \<open>bytes.fromhex\<close>,
  \<open>str\<close> and \<open>int\<close> on decimal numerals, \<open>split\<close> and \<open>join\<close> at a comma, and the values of
  JSON.  A float, which no document of the package holds, is known by its literal; where its value would
  matter the model stops with \<open>OutsideModel\<close>.
\<close>

section \<open>Hexadecimal\<close>

definition hex_digit :: "nat \<Rightarrow> char" where
  "hex_digit n = char_of (if n < 10 then 48 + n else 87 + n)"

definition hex_value :: "char \<Rightarrow> nat option" where
  "hex_value c =
     (let n = of_char c :: nat
      in if 48 \<le> n \<and> n \<le> 57 then Some (n - 48)
         else if 97 \<le> n \<and> n \<le> 102 then Some (n - 87)
         else if 65 \<le> n \<and> n \<le> 70 then Some (n - 55)
         else None)"

definition bytes_hex :: "bytes \<Rightarrow> string" where
  "bytes_hex b = concat (map (\<lambda>w. [hex_digit (unat w div 16), hex_digit (unat w mod 16)]) b)"

definition ascii_space :: "char \<Rightarrow> bool" where
  "ascii_space c \<longleftrightarrow> c = CHR '' '' \<or> (9 \<le> (of_char c :: nat) \<and> (of_char c :: nat) \<le> 13)"

text \<open>White space is skipped between bytes, not inside one.\<close>

fun bytes_fromhex :: "string \<Rightarrow> bytes result" where
  "bytes_fromhex [] = return []"
| "bytes_fromhex [a] = (if ascii_space a then return [] else raise PyValueError)"
| "bytes_fromhex (a # b # s) =
     (if ascii_space a then bytes_fromhex (b # s)
      else case (hex_value a, hex_value b) of
             (Some h, Some l) \<Rightarrow> bindR (bytes_fromhex s) (\<lambda>bs. return (word_of_nat (16 * h + l) # bs))
           | _ \<Rightarrow> raise PyValueError)"

lemma hex_value_digit: "n < 16 \<Longrightarrow> hex_value (hex_digit n) = Some n"
  by (auto simp: hex_value_def hex_digit_def of_char_of)

lemma hex_digit_no_space: "n < 16 \<Longrightarrow> \<not> ascii_space (hex_digit n)"
  by (auto simp: ascii_space_def hex_digit_def of_char_of dest: arg_cong [where f = "of_char :: char \<Rightarrow> nat"])

lemma fromhex_hex: "bytes_fromhex (bytes_hex b) = Inr b"
proof (induction b)
  case (Cons w b)
  have w: "unat w div 16 < 16" "unat w mod 16 < 16" using unat_byte_less [of w] by linarith+
  have "16 * (unat w div 16) + unat w mod 16 = unat w" by simp
  then show ?case
    using Cons w by (simp add: bytes_hex_def hex_value_digit hex_digit_no_space)
qed (simp add: bytes_hex_def)

lemma hex_digit_no_comma: "n < 16 \<Longrightarrow> hex_digit n \<noteq> CHR '',''"
  by (auto simp: hex_digit_def dest: arg_cong [where f = "of_char :: char \<Rightarrow> nat"])

lemma hex_no_comma: "CHR '','' \<notin> set (bytes_hex b)"
proof (induction b)
  case (Cons w b)
  have "unat w div 16 < 16" "unat w mod 16 < 16" using unat_byte_less [of w] by linarith+
  from hex_digit_no_comma [OF this(1)] hex_digit_no_comma [OF this(2)] Cons show ?case
    by (auto simp: bytes_hex_def)
qed (simp add: bytes_hex_def)

section \<open>Decimal numerals\<close>

fun nat_digits :: "nat \<Rightarrow> string" where
  "nat_digits n = (if n < 10 then [char_of (48 + n)] else nat_digits (n div 10) @ [char_of (48 + n mod 10)])"

declare nat_digits.simps [simp del]

definition str_int :: "int \<Rightarrow> string" where
  "str_int n = (if n < 0 then CHR ''-'' # nat_digits (nat (- n)) else nat_digits (nat n))"

definition digit_value :: "char \<Rightarrow> nat option" where
  "digit_value c = (let n = of_char c :: nat in if 48 \<le> n \<and> n \<le> 57 then Some (n - 48) else None)"

text \<open>The digits of a literal, single underscores between them.\<close>

fun read_digits :: "nat \<Rightarrow> bool \<Rightarrow> string \<Rightarrow> nat option" where
  "read_digits acc after_digit [] = (if after_digit then Some acc else None)"
| "read_digits acc after_digit (c # s) =
     (if c = CHR ''_'' then (if after_digit then read_digits acc False s else None)
      else case digit_value c of None \<Rightarrow> None | Some d \<Rightarrow> read_digits (10 * acc + d) True s)"

definition strip_space :: "string \<Rightarrow> string" where
  "strip_space s = rev (dropWhile ascii_space (rev (dropWhile ascii_space s)))"

definition read_nat :: "string \<Rightarrow> int result" where
  "read_nat s = (case read_digits 0 False s of None \<Rightarrow> raise PyValueError | Some n \<Rightarrow> return (int n))"

definition int_str :: "string \<Rightarrow> int result" where
  "int_str s =
     (case strip_space s of
        [] \<Rightarrow> raise PyValueError
      | c # cs \<Rightarrow>
          if c = CHR ''-'' then bindR (read_nat cs) (\<lambda>n. return (- n))
          else if c = CHR ''+'' then read_nat cs
          else read_nat (c # cs))"

lemma digit_value_char: "d < 10 \<Longrightarrow> digit_value (char_of (48 + d)) = Some d"
  by (auto simp: digit_value_def of_char_of)

lemma char_of_digit: "d < 10 \<Longrightarrow> (of_char (char_of (48 + d)) :: nat) = 48 + d" for d :: nat
  by (simp add: of_char_of)

lemma char_of_digit_neq:
  "d < 10 \<Longrightarrow> (of_char c :: nat) < 48 \<or> 57 < (of_char c :: nat) \<Longrightarrow> char_of (48 + d) \<noteq> c" for d :: nat
  using char_of_digit [of d] by auto

lemma digit_not_underscore: "d < 10 \<Longrightarrow> char_of (48 + d) \<noteq> CHR ''_''" for d :: nat
  by (rule char_of_digit_neq) simp_all

lemma read_digits_append:
  "read_digits acc u (nat_digits n @ s) = read_digits (acc * 10 ^ length (nat_digits n) + n) True s"
proof (induction n arbitrary: acc u s rule: nat_digits.induct)
  case (1 n)
  show ?case
  proof (cases "n < 10")
    case True
    then show ?thesis
      by (simp add: nat_digits.simps [of n] digit_value_char digit_not_underscore mult.commute)
  next
    case False
    let ?k = "length (nat_digits (n div 10))"
    have "nat_digits n = nat_digits (n div 10) @ [char_of (48 + n mod 10)]"
      using False by (simp add: nat_digits.simps [of n])
    then show ?thesis
      using 1 [OF False] by (simp add: digit_value_char digit_not_underscore mult.left_commute add.commute)
  qed
qed

lemma read_nat_digits: "read_nat (nat_digits n) = Inr (int n)"
  using read_digits_append [of 0 False n "[]"] by (simp add: read_nat_def)

lemma nat_digits_set:
  assumes "c \<in> set (nat_digits n)"
  obtains d :: nat where "d < 10" and "c = char_of (48 + d)"
proof -
  have "\<exists>d :: nat. d < 10 \<and> c = char_of (48 + d)"
    using assms
  proof (induction n rule: nat_digits.induct)
    case (1 n)
    show ?case
    proof (cases "n < 10")
      case False
      with 1 consider "c \<in> set (nat_digits (n div 10))" | "c = char_of (48 + n mod 10)"
        by (auto simp: nat_digits.simps [of n])
      then show ?thesis using 1(1) [OF False] by cases (blast, metis mod_less_divisor zero_less_numeral)
    qed (use 1 in \<open>auto simp: nat_digits.simps [of n]\<close>)
  qed
  then show ?thesis using that by blast
qed

lemma nat_digits_nonempty: "nat_digits n \<noteq> []"
  by (simp add: nat_digits.simps [of n])

lemma digit_no_space: "d < 10 \<Longrightarrow> \<not> ascii_space (char_of (48 + d))" for d :: nat
  using char_of_digit [of d] char_of_digit_neq [of d "CHR '' ''"] by (simp add: ascii_space_def)

lemma strip_no_space: "(\<And>c. c \<in> set s \<Longrightarrow> \<not> ascii_space c) \<Longrightarrow> strip_space s = s"
proof -
  assume a: "\<And>c. c \<in> set s \<Longrightarrow> \<not> ascii_space c"
  have "dropWhile ascii_space s = s" using a by (cases s) auto
  moreover have "dropWhile ascii_space (rev s) = rev s"
    using a by (metis dropWhile_eq_self_iff hd_in_set rev_is_Nil_conv set_rev)
  ultimately show ?thesis by (simp add: strip_space_def)
qed

lemma int_str_int: "int_str (str_int n) = Inr n"
proof -
  have no_space: "\<not> ascii_space c" if "c \<in> set (str_int n)" for c
  proof -
    have "c = CHR ''-'' \<or> (\<exists>n. c \<in> set (nat_digits n))"
      using that by (auto simp: str_int_def split: if_splits)
    then show ?thesis
      using digit_no_space by (auto simp: ascii_space_def elim!: nat_digits_set)
  qed
  have strip: "strip_space (str_int n) = str_int n"
    by (rule strip_no_space) (rule no_space)
  show ?thesis
  proof (cases "n < 0")
    case True
    then show ?thesis using strip unfolding int_str_def by (simp add: str_int_def read_nat_digits)
  next
    case False
    obtain c cs where s: "nat_digits (nat n) = c # cs" using nat_digits_nonempty by (meson neq_Nil_conv)
    obtain d :: nat where "d < 10" "c = char_of (48 + d)"
      using nat_digits_set [of c "nat n"] s by auto
    then have "c \<noteq> CHR ''-''" "c \<noteq> CHR ''+''"
      using char_of_digit_neq [of d] by auto
    with False strip s read_nat_digits [of "nat n"] show ?thesis
      unfolding int_str_def by (simp add: str_int_def)
  qed
qed

section \<open>Splitting and joining\<close>

fun split_comma :: "string \<Rightarrow> string list" where
  "split_comma [] = [[]]"
| "split_comma (c # s) =
     (if c = CHR '','' then [] # split_comma s
      else case split_comma s of [] \<Rightarrow> [[c]] | w # ws \<Rightarrow> (c # w) # ws)"

fun join_comma :: "string list \<Rightarrow> string" where
  "join_comma [] = []"
| "join_comma [w] = w"
| "join_comma (w # ws) = w @ CHR '','' # join_comma ws"

lemma split_comma_word: "CHR '','' \<notin> set w \<Longrightarrow> split_comma w = [w]"
  by (induction w) auto

lemma split_comma_append: "CHR '','' \<notin> set w \<Longrightarrow> split_comma (w @ CHR '','' # s) = w # split_comma s"
  by (induction w) auto

lemma split_join_comma:
  "ws \<noteq> [] \<Longrightarrow> (\<And>w. w \<in> set ws \<Longrightarrow> CHR '','' \<notin> set w) \<Longrightarrow> split_comma (join_comma ws) = ws"
  by (induction ws rule: join_comma.induct) (auto simp: split_comma_word split_comma_append)

section \<open>JSON values\<close>

datatype json =
    JNull
  | JBool bool
  | JInt int
  | JFloat string
  | JStr string
  | JList "json list"
  | JObj "(string \<times> json) list"

text \<open>\<open>d[key]\<close> and \<open>d.get(key)\<close>; a value that is no object cannot be indexed by a string.\<close>

fun j_index :: "json \<Rightarrow> string \<Rightarrow> json result" where
  "j_index (JObj kvs) k = (case map_of kvs k of None \<Rightarrow> raise PyKeyError | Some v \<Rightarrow> return v)"
| "j_index _ k = raise PyTypeError"

fun j_get :: "json \<Rightarrow> string \<Rightarrow> json result" where
  "j_get (JObj kvs) k = return (case map_of kvs k of None \<Rightarrow> JNull | Some v \<Rightarrow> v)"
| "j_get _ k = raise PyAttributeError"

text \<open>A number used as an integer (\<open>bool\<close> is a subclass of \<open>int\<close>), \<open>int(v)\<close>, \<open>bool(v)\<close>, the
  elements of \<open>tuple(v)\<close>, and a string.\<close>

fun j_number :: "json \<Rightarrow> int result" where
  "j_number (JInt n) = return n"
| "j_number (JBool b) = return (if b then 1 else 0)"
| "j_number (JFloat f) = raise OutsideModel"
| "j_number _ = raise PyTypeError"

fun j_int :: "json \<Rightarrow> int result" where
  "j_int (JStr s) = int_str s"
| "j_int v = j_number v"

fun j_truth :: "json \<Rightarrow> bool result" where
  "j_truth JNull = return False"
| "j_truth (JBool b) = return b"
| "j_truth (JInt n) = return (n \<noteq> 0)"
| "j_truth (JFloat f) = raise OutsideModel"
| "j_truth (JStr s) = return (s \<noteq> [])"
| "j_truth (JList l) = return (l \<noteq> [])"
| "j_truth (JObj kvs) = return (kvs \<noteq> [])"

fun j_elements :: "json \<Rightarrow> json list result" where
  "j_elements (JList l) = return l"
| "j_elements (JStr s) = return (map (\<lambda>c. JStr [c]) s)"
| "j_elements (JObj kvs) = return (map (\<lambda>(k, _). JStr k) kvs)"
| "j_elements _ = raise PyTypeError"

fun j_string :: "json \<Rightarrow> string result" where
  "j_string (JStr s) = return s"
| "j_string _ = raise PyTypeError"

lemma mapR_j_number [simp]: "mapR j_number (map JInt ns) = Inr ns"
  by (induction ns) simp_all

end
