(* ===== verification/Json_Text.thy ===== *)
theory Json_Text
  imports Py_Json Key_Stores
begin

text \<open>
  The text of JSON as Python's \<open>json.dumps\<close> writes it and \<open>json.loads\<close> reads it, and its UTF-8 bytes.
  The writer is the one of the standard library with \<open>ensure_ascii\<close>, on one line or indented; the
  reader takes every JSON text with any white space; a float is kept as its literal.  A text with a
  character above code 255 has no value in \<open>json\<close>: the reader stops there with \<open>OutsideModel\<close>, which is
  no exception of Python.  The recursion limit and the limit on the digits of an integer are left out.
\<close>

section \<open>Writing\<close>

definition QUOTE :: char where "QUOTE = CHR 0x22"
definition BACKSLASH :: char where "BACKSLASH = CHR 0x5C"

definition escape_char :: "char \<Rightarrow> string" where
  "escape_char c =
     (let n = of_char c :: nat
      in if c = QUOTE \<or> c = BACKSLASH then [BACKSLASH, c]
         else if 32 \<le> n \<and> n < 127 then [c]
         else if n = 8 then [BACKSLASH, CHR ''b'']
         else if n = 9 then [BACKSLASH, CHR ''t'']
         else if n = 10 then [BACKSLASH, CHR ''n'']
         else if n = 12 then [BACKSLASH, CHR ''f'']
         else if n = 13 then [BACKSLASH, CHR ''r'']
         else [BACKSLASH, CHR ''u'', CHR ''0'', CHR ''0'', hex_digit (n div 16), hex_digit (n mod 16)])"

definition quote_string :: "string \<Rightarrow> string" where
  "quote_string s = QUOTE # concat (map escape_char s) @ [QUOTE]"

text \<open>The line break of an indented text, and what stands between two entries.\<close>

fun line_break :: "nat option \<Rightarrow> nat \<Rightarrow> string" where
  "line_break None level = []"
| "line_break (Some indent) level = CHR 0x0A # replicate (indent * level) CHR 0x20"

fun entry_break :: "nat option \<Rightarrow> nat \<Rightarrow> string" where
  "entry_break None level = '', ''"
| "entry_break (Some indent) level = CHR '','' # line_break (Some indent) level"

fun join_entries :: "string \<Rightarrow> string list \<Rightarrow> string" where
  "join_entries sep [] = []"
| "join_entries sep [e] = e"
| "join_entries sep (e # es) = e @ sep @ join_entries sep es"

fun dumps_at :: "nat option \<Rightarrow> nat \<Rightarrow> json \<Rightarrow> string" where
  "dumps_at i l JNull = ''null''"
| "dumps_at i l (JBool b) = (if b then ''true'' else ''false'')"
| "dumps_at i l (JInt n) = str_int n"
| "dumps_at i l (JFloat f) = f"
| "dumps_at i l (JStr s) = quote_string s"
| "dumps_at i l (JList vs) =
     (if vs = [] then ''[]''
      else CHR ''['' # line_break i (Suc l) @
        join_entries (entry_break i (Suc l)) (map (dumps_at i (Suc l)) vs) @ line_break i l @ '']'')"
| "dumps_at i l (JObj kvs) =
     (if kvs = [] then ''{}''
      else CHR ''{'' # line_break i (Suc l) @
        join_entries (entry_break i (Suc l))
          (map (\<lambda>(k, v). quote_string k @ '': '' @ dumps_at i (Suc l) v) kvs) @ line_break i l @ ''}'')"

definition json_dumps :: "nat option \<Rightarrow> json \<Rightarrow> string" where
  "json_dumps indent v = dumps_at indent 0 v"

section \<open>Reading\<close>

definition json_space :: "char \<Rightarrow> bool" where
  "json_space c \<longleftrightarrow> c \<in> {CHR 0x20, CHR 0x09, CHR 0x0A, CHR 0x0D}"

definition skip_space :: "string \<Rightarrow> string" where
  "skip_space s = dropWhile json_space s"

fun hex_code :: "nat \<Rightarrow> string \<Rightarrow> nat option" where
  "hex_code acc [] = Some acc"
| "hex_code acc (c # s) = (case hex_value c of None \<Rightarrow> None | Some d \<Rightarrow> hex_code (16 * acc + d) s)"

definition unescape :: "char \<Rightarrow> char option" where
  "unescape c =
     (if c = QUOTE \<or> c = BACKSLASH \<or> c = CHR ''/'' then Some c
      else if c = CHR ''b'' then Some (CHR 0x08)
      else if c = CHR ''t'' then Some (CHR 0x09)
      else if c = CHR ''n'' then Some (CHR 0x0A)
      else if c = CHR ''f'' then Some (CHR 0x0C)
      else if c = CHR ''r'' then Some (CHR 0x0D)
      else None)"

text \<open>A string from behind its opening quote, with the rest of the text.\<close>

function read_string :: "string \<Rightarrow> (string \<times> string) result" where
  "read_string s =
     (case s of
        [] \<Rightarrow> raise PyJSONDecodeError
      | c # r \<Rightarrow>
          if c = QUOTE then return ([], r)
          else if c = BACKSLASH
          then (case r of
                  [] \<Rightarrow> raise PyJSONDecodeError
                | e # t \<Rightarrow>
                    if e = CHR ''u''
                    then if length t < 4 then raise PyJSONDecodeError
                      else (case hex_code 0 (take 4 t) of
                              None \<Rightarrow> raise PyJSONDecodeError
                            | Some n \<Rightarrow>
                                if 255 < n then raise OutsideModel
                                else bindR (read_string (drop 4 t)) (\<lambda>(w, rest). return (char_of n # w, rest)))
                    else (case unescape e of
                            None \<Rightarrow> raise PyJSONDecodeError
                          | Some u \<Rightarrow> bindR (read_string t) (\<lambda>(w, rest). return (u # w, rest))))
          else if (of_char c :: nat) < 32 then raise PyJSONDecodeError
          else bindR (read_string r) (\<lambda>(w, rest). return (c # w, rest)))"
  by pat_completeness auto
termination by (relation "measure length") auto

declare read_string.simps [simp del]

definition is_digit :: "char \<Rightarrow> bool" where
  "is_digit c \<longleftrightarrow> digit_value c \<noteq> None"

text \<open>A numeral is a float when a fraction or an exponent follows its integer part.\<close>

definition skip_fraction :: "string \<Rightarrow> string" where
  "skip_fraction s =
     (case s of
        c # d # r \<Rightarrow> if c = CHR ''.'' \<and> is_digit d then dropWhile is_digit r else s
      | _ \<Rightarrow> s)"

definition skip_sign :: "string \<Rightarrow> string" where
  "skip_sign s = (case s of c # r \<Rightarrow> if c = CHR ''+'' \<or> c = CHR ''-'' then r else s | [] \<Rightarrow> s)"

definition skip_exponent :: "string \<Rightarrow> string" where
  "skip_exponent s =
     (case s of
        c # r \<Rightarrow>
          if (c = CHR ''e'' \<or> c = CHR ''E'') \<and> (\<exists>d \<in> set (take 1 (skip_sign r)). is_digit d)
          then dropWhile is_digit (skip_sign r) else s
      | [] \<Rightarrow> s)"

definition read_magnitude :: "bool \<Rightarrow> string \<Rightarrow> (json \<times> string) result" where
  "read_magnitude negative s =
     (let sign = (if negative then ''-'' else [])
      in case s of
           [] \<Rightarrow> raise PyJSONDecodeError
         | c # t \<Rightarrow>
             if \<not> is_digit c
             then (if negative \<and> take 8 s = ''Infinity'' then return (JFloat ''-Infinity'', drop 8 s)
                   else raise PyJSONDecodeError)
             else let digits = (if c = CHR ''0'' then [c] else takeWhile is_digit s);
                      rest = drop (length digits) s;
                      behind = skip_exponent (skip_fraction rest)
                  in if behind \<noteq> rest then return (JFloat (sign @ take (length s - length behind) s), behind)
                     else bindR (read_nat digits) (\<lambda>n. return (JInt (if negative then - n else n), rest)))"

definition read_number :: "string \<Rightarrow> (json \<times> string) result" where
  "read_number s = (if take 1 s = ''-'' then read_magnitude True (drop 1 s) else read_magnitude False s)"

definition literals :: "(string \<times> json) list" where
  "literals = [(''null'', JNull), (''true'', JBool True), (''false'', JBool False),
     (''NaN'', JFloat ''NaN''), (''Infinity'', JFloat ''Infinity'')]"

definition read_literal :: "string \<Rightarrow> (json \<times> string) result" where
  "read_literal s =
     (case find (\<lambda>(w, _). take (length w) s = w) literals of
        Some (w, v) \<Rightarrow> return (v, drop (length w) s)
      | None \<Rightarrow> raise PyJSONDecodeError)"

text \<open>The scanner of the library: a value, the entries of an array from its first value on, the members of
  an object from the first quote on.  A repeated key keeps its place and takes the last value.\<close>

function read_value :: "string \<Rightarrow> (json \<times> string) result"
  and read_items :: "string \<Rightarrow> (json list \<times> string) result"
  and read_members :: "(string, json) pydict \<Rightarrow> string \<Rightarrow> ((string, json) pydict \<times> string) result" where
  "read_value s =
     (case s of
        [] \<Rightarrow> raise PyJSONDecodeError
      | c # r \<Rightarrow>
          if c = QUOTE then bindR (read_string r) (\<lambda>(w, r1). return (JStr w, r1))
          else if c = CHR ''{''
          then (if take 1 (skip_space r) = ''}'' then return (JObj [], drop 1 (skip_space r))
                else bindR (read_members [] (skip_space r)) (\<lambda>(kvs, r1). return (JObj kvs, r1)))
          else if c = CHR ''[''
          then (if take 1 (skip_space r) = '']'' then return (JList [], drop 1 (skip_space r))
                else bindR (read_items (skip_space r)) (\<lambda>(vs, r1). return (JList vs, r1)))
          else if c = CHR ''-'' \<or> is_digit c
          then read_number s
          else read_literal s)"
| "read_items s =
     bindR (read_value s) (\<lambda>(v, r1).
       case skip_space r1 of
         [] \<Rightarrow> raise PyJSONDecodeError
       | c # r2 \<Rightarrow>
           if c = CHR '']'' then return ([v], r2)
           else if c = CHR '',''
           then bindR (read_items (skip_space r2)) (\<lambda>(vs, r3). return (v # vs, r3))
           else raise PyJSONDecodeError)"
| "read_members kvs s =
     (if take 1 s \<noteq> [QUOTE] then raise PyJSONDecodeError
      else bindR (read_string (drop 1 s)) (\<lambda>(k, r1).
        if take 1 (skip_space r1) \<noteq> '':'' then raise PyJSONDecodeError
        else bindR (read_value (skip_space (drop 1 (skip_space r1)))) (\<lambda>(v, r2).
          case skip_space r2 of
            [] \<Rightarrow> raise PyJSONDecodeError
          | c # r3 \<Rightarrow>
              if c = CHR ''}'' then return (dict_put k v kvs, r3)
              else if c = CHR '','' then read_members (dict_put k v kvs) (skip_space r3)
              else raise PyJSONDecodeError)))"
  by pat_completeness auto

text \<open>Every part takes something off the text, so the reader ends.\<close>

lemma read_string_shorter: "read_string s = Inr (w, r) \<Longrightarrow> length r < length s"
proof (induction s arbitrary: w r rule: measure_induct_rule [of length])
  case (less s)
  have IH: "length r' < length t" if "read_string t = Inr (w', r')" "length t < length s" for t w' r'
    using less.IH that by blast
  obtain c t where s: "s = c # t"
    using less.prems by (cases s) (simp_all add: read_string.simps)
  from less.prems show ?case
    unfolding s read_string.simps [of "c # t"] using IH [unfolded s]
    by (fastforce split: if_splits list.splits option.splits simp: bindR_eq_Inr)
qed

lemma skip_space_le: "length (skip_space s) \<le> length s"
  by (simp add: skip_space_def length_dropWhile_le)

lemma skip_float_le: "length (skip_exponent s) \<le> length s" "length (skip_fraction s) \<le> length s"
proof -
  have drop: "length (dropWhile is_digit r) \<le> length r" for r by (rule length_dropWhile_le)
  have sign: "length (skip_sign r) \<le> length r" for r by (simp add: skip_sign_def split: list.split)
  show "length (skip_exponent s) \<le> length s"
    using drop [of "skip_sign (tl s)"] sign [of "tl s"] by (auto simp: skip_exponent_def split: list.split)
  show "length (skip_fraction s) \<le> length s"
    using drop [of "drop 2 s"] by (auto simp: skip_fraction_def split: list.split)
qed

lemma read_magnitude_shorter:
  assumes "read_magnitude negative s = Inr (v, r)"
  shows "length r < length s"
proof -
  obtain c t where s: "s = c # t" using assms by (cases s) (simp_all add: read_magnitude_def)
  define digits where "digits = (if c = CHR ''0'' then [c] else takeWhile is_digit s)"
  let ?rest = "drop (length digits) s"
  have "r = drop 8 s \<or> is_digit c \<and> (r = ?rest \<or> r = skip_exponent (skip_fraction ?rest))"
    using assms by (auto simp: read_magnitude_def s digits_def Let_def bindR_eq_Inr split: if_splits)
  moreover have "length (skip_exponent (skip_fraction ?rest)) \<le> length ?rest"
    using skip_float_le(1) [of "skip_fraction ?rest"] skip_float_le(2) [of ?rest] by simp
  moreover have "is_digit c \<Longrightarrow> length ?rest < length s" by (simp add: digits_def s)
  ultimately show ?thesis using s by auto
qed

lemma read_number_shorter: "read_number s = Inr (v, r) \<Longrightarrow> length r < length s"
  by (cases s) (auto simp: read_number_def dest: read_magnitude_shorter split: if_splits)

lemma read_literal_shorter: "read_literal s = Inr (v, r) \<Longrightarrow> s \<noteq> [] \<Longrightarrow> length r < length s"
  by (auto simp: read_literal_def literals_def split: if_splits option.splits)

lemma skip_space_Cons:
  assumes "skip_space s = c # t"
  shows "length t < length s" "length (skip_space t) < length s"
  using skip_space_le [of s] skip_space_le [of t] assms by simp_all

lemma behind_quote: "take 1 s = [QUOTE] \<Longrightarrow> read_string (drop 1 s) = Inr (k, r) \<Longrightarrow> length r < length s"
  using read_string_shorter [of "drop 1 s" k r] by (cases s) simp_all

lemma behind_colon: "take 1 (skip_space s) = '':'' \<Longrightarrow> length (skip_space (drop 1 (skip_space s))) < length s"
  using skip_space_le [of "drop 1 (skip_space s)"] skip_space_le [of s] by (cases "skip_space s") simp_all

lemma behind_key:
  assumes "take 1 s = [QUOTE]" and "read_string (drop 1 s) = Inr (k, r)" and "take 1 (skip_space r) = '':''"
  shows "length (skip_space (drop 1 (skip_space r))) < length s"
  using behind_quote [OF assms(1,2)] behind_colon [OF assms(3)] by simp

lemma next_charE:
  assumes "(case s of [] \<Rightarrow> raise e | c # t \<Rightarrow> f c t) = Inr y"
  obtains c t where "s = c # t" and "f c t = Inr y"
  using assms by (cases s) simp_all

lemma bindR_pairE:
  assumes "bindR m (\<lambda>(a, b). f a b) = Inr y"
  obtains a b where "m = Inr (a, b)" and "f a b = Inr y"
  using assms by (cases m) auto

lemma read_shorter:
  shows "read_value_read_items_read_members_dom (Inl s) \<Longrightarrow> read_value s = Inr (v, r) \<Longrightarrow> length r < length s"
    and "read_value_read_items_read_members_dom (Inr (Inl s)) \<Longrightarrow> read_items s = Inr (vs, r) \<Longrightarrow> length r < length s"
    and "read_value_read_items_read_members_dom (Inr (Inr (kvs, s))) \<Longrightarrow> read_members kvs s = Inr (kvs', r) \<Longrightarrow>
      length r < length s"
proof (induction s and s and kvs s arbitrary: v r and vs r and kvs' r
    rule: read_value_read_items_read_members.pinduct)
  case (1 s)
  obtain c t where s: "s = c # t"
    using 1(4) unfolding read_value.psimps [OF 1(1)] by (cases s) simp_all
  note step = 1(4) [unfolded read_value.psimps [OF 1(1)], unfolded s list.case]
  have drop: "length (drop 1 (skip_space t)) < length s" using skip_space_le [of t] s by simp
  consider "c = QUOTE" | "c \<noteq> QUOTE" "c = CHR ''{''" | "c \<noteq> QUOTE" "c = CHR ''[''" |
    "c \<notin> {QUOTE, CHR ''{'', CHR ''['' }" by blast
  then show ?case
  proof cases
    case 1
    with step obtain w where "read_string t = Inr (w, r)" by (auto simp: bindR_eq_Inr)
    then show ?thesis using read_string_shorter [of t] s by fastforce
  next
    case 2
    show ?thesis
    proof (cases "take 1 (skip_space t) = ''}''")
      case True
      with step 2 drop show ?thesis by auto
    next
      case False
      with step 2 obtain k where "read_members [] (skip_space t) = Inr (k, r)" by (auto simp: bindR_eq_Inr)
      from 1(2) [OF s 2 False this] show ?thesis using skip_space_le [of t] s by simp
    qed
  next
    case 3
    then have nb: "c \<noteq> CHR ''{''" by simp
    show ?thesis
    proof (cases "take 1 (skip_space t) = '']''")
      case True
      with step 3 drop show ?thesis by auto
    next
      case False
      with step 3 obtain k where "read_items (skip_space t) = Inr (k, r)" by (auto simp: bindR_eq_Inr)
      from 1(3) [OF s 3(1) nb 3(2) False this] show ?thesis using skip_space_le [of t] s by simp
    qed
  next
    case 4
    then have c: "c \<noteq> QUOTE" "c \<noteq> CHR ''{''" "c \<noteq> CHR ''[''" by simp_all
    show ?thesis
    proof (cases "c = CHR ''-'' \<or> is_digit c")
      case True
      have "read_number s = Inr (v, r)"
        using step c True unfolding s by (simp only: if_True if_False simp_thms)
      then show ?thesis by (rule read_number_shorter)
    next
      case False
      have "read_literal s = Inr (v, r)" using step c False unfolding s by (simp only: if_False)
      then show ?thesis by (rule read_literal_shorter) (simp add: s)
    qed
  qed
next
  case (2 s)
  from 2(4) obtain u r1 c r2 where v: "read_value s = Inr (u, r1)" and r1: "skip_space r1 = c # r2"
    and rest: "r = r2 \<or> (c = CHR '','' \<and> (\<exists>vs. read_items (skip_space r2) = Inr (vs, r)))"
    unfolding read_items.psimps [OF 2(1)]
    by (elim bindR_pairE next_charE) (auto split: if_splits elim!: bindR_pairE)
  have "length r2 < length s" using 2(2) [OF v] skip_space_Cons [OF r1] by simp
  moreover have "length r < length (skip_space r2)" if "c = CHR '',''" "read_items (skip_space r2) = Inr (vs, r)" for vs
    using 2(3) [OF v _ r1 _ that(1) that(2)] that(1) by simp
  ultimately show ?case using rest skip_space_le [of r2] by fastforce
next
  case (3 kvs s)
  from 3(4) obtain k r1 where k: "take 1 s = [QUOTE]" "read_string (drop 1 s) = Inr (k, r1)"
      "take 1 (skip_space r1) = '':''"
    and step: "bindR (read_value (skip_space (drop 1 (skip_space r1)))) (\<lambda>(v, r2).
          case skip_space r2 of
            [] \<Rightarrow> raise PyJSONDecodeError
          | c # r3 \<Rightarrow>
              if c = CHR ''}'' then return (dict_put k v kvs, r3)
              else if c = CHR '','' then read_members (dict_put k v kvs) (skip_space r3)
              else raise PyJSONDecodeError) = Inr (kvs', r)"
    unfolding read_members.psimps [OF 3(1)] by (auto simp: bindR_eq_Inr split: if_splits)
  let ?s = "skip_space (drop 1 (skip_space r1))"
  obtain u r2 c r3 where v: "read_value ?s = Inr (u, r2)" and r2: "skip_space r2 = c # r3"
    and rest: "r = r3 \<or> (c = CHR '','' \<and> read_members (dict_put k u kvs) (skip_space r3) = Inr (kvs', r))"
    using step by (elim bindR_pairE next_charE) (auto split: if_splits)
  have lt: "length r2 < length ?s" using 3(2) [OF _ k(2) _ _ v] k by simp
  then have "length r3 < length s" using skip_space_Cons [OF r2] behind_key [OF k] by simp
  moreover have "length r < length (skip_space r3)" if "c = CHR '',''" "read_members (dict_put k u kvs) (skip_space r3) = Inr (kvs', r)"
    using 3(3) [OF _ k(2) _ _ v _ r2 _ that(1) that(2)] k that(1) by simp
  ultimately show ?case using rest skip_space_le [of r3] by fastforce
qed

termination read_value
proof (relation "measures [\<lambda>x. case x of Inl s \<Rightarrow> length s | Inr (Inl s) \<Rightarrow> length s | Inr (Inr (_, s)) \<Rightarrow> length s,
    \<lambda>x. case x of Inl s \<Rightarrow> 0 | _ \<Rightarrow> 1]", goal_cases)
  case (5 s x xa y x21 x22)
  then show ?case using read_shorter(1) [of s xa y] skip_space_Cons [of y] by fastforce
next
  case (6 kvs s x xa y)
  then show ?case using behind_key [of s xa y] by (simp del: One_nat_def)
next
  case (7 kvs s x xa y xb xc ya x21 x22)
  then show ?case
    using behind_key [of s xa y] read_shorter(1) [of _ xc ya] skip_space_Cons [of ya]
    by (fastforce simp del: One_nat_def)
qed (use skip_space_le in \<open>simp_all add: less_Suc_eq_le\<close>)

declare read_value.simps [simp del] read_items.simps [simp del] read_members.simps [simp del]

definition json_loads :: "string \<Rightarrow> json result" where
  "json_loads s =
     bindR (read_value (skip_space s)) (\<lambda>(v, r).
       if skip_space r = [] then return v else raise PyJSONDecodeError)"

section \<open>Bytes\<close>

text \<open>\<open>s.encode("utf-8")\<close> and \<open>b.decode("utf-8")\<close>.\<close>

definition char_utf8 :: "char \<Rightarrow> bytes" where
  "char_utf8 c =
     (let n = of_char c :: nat
      in if n < 0x80 then [word_of_nat n] else [word_of_nat (0xC0 + n div 64), word_of_nat (0x80 + n mod 64)])"

definition text_utf8 :: "string \<Rightarrow> bytes" where
  "text_utf8 s = concat (map char_utf8 s)"

definition continues :: "byte \<Rightarrow> bool" where
  "continues b \<longleftrightarrow> 0x80 \<le> unat b \<and> unat b < 0xC0"

text \<open>A valid sequence of three or four bytes, from its first byte \<open>n\<close>.\<close>

definition long_sequence :: "nat \<Rightarrow> bytes \<Rightarrow> bool" where
  "long_sequence n bs \<longleftrightarrow>
     0xE0 \<le> n \<and> n < 0xF0 \<and> 2 \<le> length bs \<and> (\<forall>b \<in> set (take 2 bs). continues b) \<and>
       (n = 0xE0 \<longrightarrow> 0xA0 \<le> unat (hd bs)) \<and> (n = 0xED \<longrightarrow> unat (hd bs) < 0xA0) \<or>
     0xF0 \<le> n \<and> n < 0xF5 \<and> 3 \<le> length bs \<and> (\<forall>b \<in> set (take 3 bs). continues b) \<and>
       (n = 0xF0 \<longrightarrow> 0x90 \<le> unat (hd bs)) \<and> (n = 0xF4 \<longrightarrow> unat (hd bs) < 0x90)"

fun utf8_text :: "bytes \<Rightarrow> string result" where
  "utf8_text [] = return []"
| "utf8_text (b # bs) =
     (let n = unat b
      in if n < 0x80 then bindR (utf8_text bs) (\<lambda>t. return (char_of n # t))
         else if 0xC2 \<le> n \<and> n < 0xE0
         then (case bs of
                 [] \<Rightarrow> raise PyUnicodeDecodeError
               | c # r \<Rightarrow>
                   if \<not> continues c then raise PyUnicodeDecodeError
                   else if 0xC4 \<le> n then raise OutsideModel
                   else bindR (utf8_text r) (\<lambda>t. return (char_of (64 * (n - 0xC0) + (unat c - 0x80)) # t)))
         else if long_sequence n bs then raise OutsideModel
         else raise PyUnicodeDecodeError)"

text \<open>A JSON document as the bytes of a file or a line.\<close>

definition dump_bytes :: "nat option \<Rightarrow> json \<Rightarrow> bytes" where
  "dump_bytes i v = text_utf8 (json_dumps i v)"

definition load_bytes :: "bytes \<Rightarrow> json result" where
  "load_bytes b = bindR (utf8_text b) json_loads"

text \<open>The values that the package writes: no float, and a dictionary has no key twice.\<close>

fun json_ok :: "json \<Rightarrow> bool" where
  "json_ok (JList vs) = (\<forall>v \<in> set vs. json_ok v)"
| "json_ok (JObj kvs) = (distinct (map fst kvs) \<and> (\<forall>(k, v) \<in> set kvs. json_ok v))"
| "json_ok (JFloat f) = False"
| "json_ok _ = True"

text \<open>The reader on a text that no writer makes.\<close>

lemma loads_example:
  "json_loads '' { \"a\" : [1, -20 ,true], \"a\":\"x\" }'' = Inr (JObj [(''a'', JStr ''x'')])"
  by (code_simp)

lemma loads_errors:
  "json_loads ''[1,]'' = Inl PyJSONDecodeError" "json_loads ''01'' = Inl PyJSONDecodeError"
  "json_loads ''-1.5e+3 '' = Inr (JFloat ''-1.5e+3'')" "json_loads ''nul'' = Inl PyJSONDecodeError"
  by (code_simp)+

end
