(* ===== verification/Json_Facts.thy ===== *)
theory Json_Facts
  imports Json_Text
begin

text \<open>
  What is written as JSON is read back as it was: as text on one line or indented, with white space
  around it, and as bytes.  The documents of the package rely on this through the locale
  \<open>document_format\<close>.
\<close>

section \<open>Writing and reading\<close>

lemma escape_cases: "QUOTE \<noteq> BACKSLASH" "BACKSLASH \<noteq> QUOTE" "CHR ''u'' \<noteq> QUOTE"
  by (simp_all add: QUOTE_def BACKSLASH_def)

lemma hex_code_digit [simp]:
  "d < 16 \<Longrightarrow> hex_code acc (hex_digit d # s) = hex_code (16 * acc + d) s"
  by (simp add: hex_value_digit)

lemma hex_code_zero [simp]: "hex_code acc (CHR ''0'' # s) = hex_code (16 * acc) s"
  by (simp add: hex_value_def)

lemma char_code_less: "(of_char c :: nat) < 256"
  using of_char_mod_256 [of c, where ?'a = nat] by (metis mod_less_divisor zero_less_numeral)

text \<open>One character of a string, as it is written and read.\<close>

lemma read_string_quote: "read_string (QUOTE # s) = Inr ([], s)"
  by (simp add: read_string.simps)

lemma read_string_plain:
  "c \<noteq> QUOTE \<Longrightarrow> c \<noteq> BACKSLASH \<Longrightarrow> 32 \<le> (of_char c :: nat) \<Longrightarrow>
    read_string (c # s) = bindR (read_string s) (\<lambda>(w, r). return (c # w, r))"
  by (subst read_string.simps) simp

lemma read_string_escape:
  "e \<noteq> CHR ''u'' \<Longrightarrow> unescape e = Some u \<Longrightarrow>
    read_string (BACKSLASH # e # s) = bindR (read_string s) (\<lambda>(w, r). return (u # w, r))"
  by (subst read_string.simps) (simp add: escape_cases)

lemma read_string_unicode:
  "length h = 4 \<Longrightarrow> hex_code 0 h = Some n \<Longrightarrow> n < 256 \<Longrightarrow>
    read_string (BACKSLASH # CHR ''u'' # h @ s) = bindR (read_string s) (\<lambda>(w, r). return (char_of n # w, r))"
  by (subst read_string.simps) (simp add: escape_cases)

lemma named_escapes:
  "escape_char CHR 0x08 = [BACKSLASH, CHR ''b'']" "unescape CHR ''b'' = Some CHR 0x08"
  "escape_char CHR 0x09 = [BACKSLASH, CHR ''t'']" "unescape CHR ''t'' = Some CHR 0x09"
  "escape_char CHR 0x0A = [BACKSLASH, CHR ''n'']" "unescape CHR ''n'' = Some CHR 0x0A"
  "escape_char CHR 0x0C = [BACKSLASH, CHR ''f'']" "unescape CHR ''f'' = Some CHR 0x0C"
  "escape_char CHR 0x0D = [BACKSLASH, CHR ''r'']" "unescape CHR ''r'' = Some CHR 0x0D"
  by (simp_all add: escape_char_def unescape_def QUOTE_def BACKSLASH_def)

lemma read_escaped:
  "read_string (escape_char c @ s) = bindR (read_string s) (\<lambda>(w, r). return (c # w, r))"
proof -
  let ?n = "of_char c :: nat"
  have c: "char_of ?n = c" by simp
  consider "c = QUOTE \<or> c = BACKSLASH" | "c \<noteq> QUOTE" "c \<noteq> BACKSLASH" "32 \<le> ?n \<and> ?n < 127"
    | "c \<noteq> QUOTE" "c \<noteq> BACKSLASH" "\<not> (32 \<le> ?n \<and> ?n < 127)" "?n \<in> {8, 9, 10, 12, 13}"
    | "c \<noteq> QUOTE" "c \<noteq> BACKSLASH" "\<not> (32 \<le> ?n \<and> ?n < 127)" "?n \<notin> {8, 9, 10, 12, 13}" by blast
  then show ?thesis
  proof cases
    case 1
    then have u: "unescape c = Some c" "c \<noteq> CHR ''u''" by (auto simp: unescape_def QUOTE_def BACKSLASH_def)
    have "escape_char c @ s = BACKSLASH # c # s" using 1 by (auto simp: escape_char_def Let_def)
    then show ?thesis using u by (simp add: read_string_escape)
  next
    case 2
    then show ?thesis by (simp add: escape_char_def read_string_plain)
  next
    case 3
    have code: "c = d" if "?n = of_char d" for d using that by simp
    from 3(4) consider "?n = 8" | "?n = 9" | "?n = 10" | "?n = 12" | "?n = 13" by blast
    then have "c = CHR 0x08 \<or> c = CHR 0x09 \<or> c = CHR 0x0A \<or> c = CHR 0x0C \<or> c = CHR 0x0D"
    proof cases
      case 1
      then have "c = CHR 0x08" by (intro code) simp
      then show ?thesis by blast
    next
      case 2
      then have "c = CHR 0x09" by (intro code) simp
      then show ?thesis by blast
    next
      case 3
      then have "c = CHR 0x0A" by (intro code) simp
      then show ?thesis by blast
    next
      case 4
      then have "c = CHR 0x0C" by (intro code) simp
      then show ?thesis by blast
    next
      case 5
      then have "c = CHR 0x0D" by (intro code) simp
      then show ?thesis by blast
    qed
    then consider "c = CHR 0x08" | "c = CHR 0x09" | "c = CHR 0x0A" | "c = CHR 0x0C" | "c = CHR 0x0D" by blast
    then show ?thesis by cases (simp_all add: named_escapes read_string_escape)
  next
    case 4
    have n: "?n div 16 < 16" "?n mod 16 < 16" "?n < 256"
      using char_code_less [of c] less_mult_imp_div_less [of ?n 16 16] by simp_all
    have "hex_code 0 [CHR ''0'', CHR ''0'', hex_digit (?n div 16), hex_digit (?n mod 16)] = Some ?n"
      using n by (simp del: hex_code.simps(2))
    note unicode = read_string_unicode [OF _ this n(3), of s]
    have "escape_char c = [BACKSLASH, CHR ''u'', CHR ''0'', CHR ''0'', hex_digit (?n div 16), hex_digit (?n mod 16)]"
      using 4 by (auto simp: escape_char_def Let_def)
    with unicode show ?thesis by simp
  qed
qed

lemma read_quoted: "read_string (concat (map escape_char w) @ QUOTE # s) = Inr (w, s)"
  by (induction w) (simp_all add: read_escaped read_string_quote)

text \<open>What can stand behind a value in a written text.\<close>

definition value_end :: "string \<Rightarrow> bool" where
  "value_end s \<longleftrightarrow> s = [] \<or> hd s \<in> set '',]}'' \<or> json_space (hd s)"

lemma value_end_no_number:
  assumes "value_end s"
  shows "takeWhile is_digit s = []" "skip_exponent (skip_fraction s) = s"
  using assms
  by (cases s; auto simp: value_end_def skip_fraction_def skip_exponent_def is_digit_def digit_value_def
      json_space_def split: list.splits)+

lemma digits_are_digits: "c \<in> set (nat_digits n) \<Longrightarrow> is_digit c"
  by (elim nat_digits_set) (simp add: is_digit_def digit_value_char)

lemma nat_digits_first: "hd (nat_digits n) = CHR ''0'' \<Longrightarrow> n = 0"
proof (induction n rule: nat_digits.induct)
  case (1 n)
  show ?case
  proof (cases "n < 10")
    case True
    then have "char_of (48 + n) = CHR ''0''" using 1(2) by (simp add: nat_digits.simps [of n])
    from arg_cong [where f = "of_char :: char \<Rightarrow> nat", OF this] show ?thesis
      using char_of_digit [OF True] by simp
  next
    case False
    then have "hd (nat_digits (n div 10)) = CHR ''0''"
      using 1(2) nat_digits_nonempty [of "n div 10"] by (simp add: nat_digits.simps [of n])
    with 1(1) False show ?thesis by simp
  qed
qed

lemma read_magnitude_digits:
  assumes "value_end s"
  shows "read_magnitude negative (nat_digits n @ s) = Inr (JInt (if negative then - int n else int n), s)"
proof -
  obtain c r where d: "nat_digits n = c # r" using nat_digits_nonempty by (meson neq_Nil_conv)
  have digit: "is_digit c" using digits_are_digits [of c n] d by simp
  have "(if c = CHR ''0'' then [c] else takeWhile is_digit (nat_digits n @ s)) = nat_digits n"
  proof (cases "c = CHR ''0''")
    case True
    then have "n = 0" using nat_digits_first [of n] d by simp
    then show ?thesis using True d by (simp add: nat_digits.simps [of 0])
  next
    case False
    have "takeWhile is_digit (nat_digits n @ s) = nat_digits n @ takeWhile is_digit s"
      by (rule takeWhile_append2) (rule digits_are_digits)
    then show ?thesis using False value_end_no_number(1) [OF assms] by simp
  qed
  note eq = this [unfolded d append_Cons]
  show ?thesis
    unfolding d append_Cons read_magnitude_def list.case Let_def eq
    using value_end_no_number(2) [OF assms] digit read_nat_digits [of n] by (simp add: d)
qed

lemma read_number_str_int:
  assumes "value_end s"
  shows "read_number (str_int n @ s) = Inr (JInt n, s)"
proof (cases "n < 0")
  case True
  then show ?thesis using read_magnitude_digits [OF assms] by (simp add: read_number_def str_int_def)
next
  case False
  obtain c r where d: "nat_digits (nat n) = c # r" using nat_digits_nonempty by (meson neq_Nil_conv)
  obtain k :: nat where "k < 10" "c = char_of (48 + k)" using nat_digits_set [of c "nat n"] d by auto
  then have "c \<noteq> CHR ''-''" using char_of_digit_neq [of k "CHR ''-''"] by simp
  then show ?thesis
    using False d read_magnitude_digits [OF assms, of False "nat n"] by (simp add: read_number_def str_int_def)
qed

lemma str_int_first:
  obtains c r where "str_int n = c # r" and "c = CHR ''-'' \<or> is_digit c"
proof (cases "n < 0")
  case True
  then show ?thesis using that by (simp add: str_int_def)
next
  case False
  obtain c r where d: "nat_digits (nat n) = c # r" using nat_digits_nonempty by (meson neq_Nil_conv)
  then have "is_digit c" using digits_are_digits [of c "nat n"] by simp
  then show ?thesis using that False d by (simp add: str_int_def)
qed

lemma line_break_space: "c \<in> set (line_break i l) \<Longrightarrow> json_space c"
  by (cases i) (auto simp: json_space_def)

lemma entry_break_Cons: "\<exists>ws. entry_break i l = CHR '','' # ws \<and> (\<forall>c \<in> set ws. json_space c)"
  by (cases i) (auto simp: json_space_def)

lemma skip_space_append:
  "(\<And>c. c \<in> set ws \<Longrightarrow> json_space c) \<Longrightarrow> skip_space (ws @ s) = skip_space s"
  by (simp add: skip_space_def)

lemma skip_space_other: "\<not> json_space c \<Longrightarrow> skip_space (c # s) = c # s"
  by (simp add: skip_space_def)

lemma structural_no_space [simp]:
  "\<not> json_space (CHR '','')" "\<not> json_space (CHR '':'')" "\<not> json_space (CHR '']'')" "\<not> json_space (CHR ''}'')"
  "\<not> json_space QUOTE"
  by (simp_all add: json_space_def QUOTE_def)

lemma value_end_break [simp]:
  "value_end (entry_break i l @ s)" "value_end (line_break i l @ CHR '']'' # s)"
  "value_end (line_break i l @ CHR ''}'' # s)" "value_end []"
  by (cases i; simp add: value_end_def json_space_def)+

lemma dumps_first:
  assumes "json_ok v"
  obtains c r where "dumps_at i l v = c # r" and "\<not> json_space c" and "c \<noteq> CHR '']''" and "c \<noteq> CHR ''}''"
proof -
  have digit: "\<not> json_space c \<and> c \<noteq> CHR '']'' \<and> c \<noteq> CHR ''}''" if "c = CHR ''-'' \<or> is_digit c" for c
    using that by (auto simp: json_space_def is_digit_def digit_value_def)
  have "\<exists>c r. dumps_at i l v = c # r \<and> \<not> json_space c \<and> c \<noteq> CHR '']'' \<and> c \<noteq> CHR ''}''"
  proof (cases v)
    case (JInt n)
    then show ?thesis using digit str_int_first [of n] by (metis dumps_at.simps(3))
  qed (use assms in \<open>simp_all add: json_space_def quote_string_def QUOTE_def\<close>)
  then show ?thesis using that by blast
qed

lemma skip_space_dumps: "json_ok v \<Longrightarrow> skip_space (dumps_at i l v @ s) = dumps_at i l v @ s"
  by (rule dumps_first [of v i l]) (simp_all add: skip_space_def)

lemma read_items_written:
  assumes "vs \<noteq> []" and "\<forall>v \<in> set vs. json_ok v"
    and "\<And>v t. v \<in> set vs \<Longrightarrow> value_end t \<Longrightarrow> read_value (dumps_at i l v @ t) = Inr (v, t)"
  shows "read_items (join_entries (entry_break i l) (map (dumps_at i l) vs) @ line_break i l' @ CHR '']'' # s) = Inr (vs, s)"
  using assms
proof (induction vs rule: list_nonempty_induct)
  case (single v)
  then show ?case
    by (simp add: read_items.simps skip_space_append line_break_space skip_space_other)
next
  case (cons v vs)
  obtain ws where ws: "entry_break i l = CHR '','' # ws" "\<forall>c \<in> set ws. json_space c"
    using entry_break_Cons by blast
  obtain u us where vs: "vs = u # us" using cons(1) by (cases vs) simp_all
  let ?rest = "join_entries (entry_break i l) (map (dumps_at i l) vs) @ line_break i l' @ CHR '']'' # s"
  have first: "skip_space (ws @ ?rest) = ?rest"
  proof -
    obtain t where "?rest = dumps_at i l u @ t" unfolding vs by (cases us) simp_all
    moreover have "json_ok u" using cons(3) vs by simp
    ultimately show ?thesis using ws(2) skip_space_dumps by (simp add: skip_space_append)
  qed
  have "read_value (dumps_at i l v @ entry_break i l @ ?rest) = Inr (v, entry_break i l @ ?rest)"
    by (rule cons(4)) simp_all
  moreover have "read_items ?rest = Inr (vs, s)" by (rule cons(2)) (use cons(3,4) in simp_all)
  ultimately show ?case
    using first ws(1) vs by (simp add: read_items.simps [of "dumps_at i l v @ _"] skip_space_other)
qed

abbreviation member_text :: "nat option \<Rightarrow> nat \<Rightarrow> string \<times> json \<Rightarrow> string" where
  "member_text i l \<equiv> \<lambda>(k, v). quote_string k @ '': '' @ dumps_at i l v"

lemma read_member:
  assumes "json_ok v" and "read_value (dumps_at i l v @ t) = Inr (v, t)"
  shows "read_members kvs (member_text i l (k, v) @ t) =
    (case skip_space t of
       [] \<Rightarrow> raise PyJSONDecodeError
     | c # r \<Rightarrow> if c = CHR ''}'' then return (dict_put k v kvs, r)
         else if c = CHR '','' then read_members (dict_put k v kvs) (skip_space r)
         else raise PyJSONDecodeError)"
proof -
  have "skip_space (CHR '' '' # dumps_at i l v @ t) = dumps_at i l v @ t"
    using skip_space_append [of "'' ''" "dumps_at i l v @ t"] skip_space_dumps [OF assms(1)] by (simp add: json_space_def)
  then show ?thesis
    using assms by (subst read_members.simps) (simp add: quote_string_def read_quoted skip_space_other)
qed

lemma read_members_written:
  assumes "kvs \<noteq> []" and "\<forall>(k, v) \<in> set kvs. json_ok v"
    and "\<And>k v t. (k, v) \<in> set kvs \<Longrightarrow> value_end t \<Longrightarrow> read_value (dumps_at i l v @ t) = Inr (v, t)"
    and "distinct (map fst (acc @ kvs))"
  shows "read_members acc (join_entries (entry_break i l) (map (member_text i l) kvs) @ line_break i l' @ CHR ''}'' # s) =
    Inr (acc @ kvs, s)"
  using assms
proof (induction kvs arbitrary: acc rule: list_nonempty_induct)
  case (single kv)
  obtain k v where kv: "kv = (k, v)" by fastforce
  have fresh: "dict_put k v acc = acc @ [(k, v)]"
    using single(3) kv by (intro dict_put_fresh) (auto simp: dict_get_def map_of_eq_None_iff)
  show ?case
    using read_member [OF _ single(2) [of k v "line_break i l' @ CHR ''}'' # s"], of acc k] single(1) kv fresh
    by (simp add: skip_space_append line_break_space skip_space_other)
next
  case (cons kv kvs)
  obtain k v where kv: "kv = (k, v)" by fastforce
  have fresh: "dict_put k v acc = acc @ [(k, v)]"
    using cons(5) kv by (intro dict_put_fresh) (auto simp: dict_get_def map_of_eq_None_iff)
  obtain ws where ws: "entry_break i l = CHR '','' # ws" "\<forall>c \<in> set ws. json_space c"
    using entry_break_Cons by blast
  obtain u us where kvs: "kvs = u # us" using cons(1) by (cases kvs) simp_all
  let ?rest = "join_entries (entry_break i l) (map (member_text i l) kvs) @ line_break i l' @ CHR ''}'' # s"
  have first: "skip_space (ws @ ?rest) = ?rest"
  proof -
    obtain t where "?rest = QUOTE # t" unfolding kvs by (cases us; cases u) (simp_all add: quote_string_def)
    then show ?thesis using ws(2) by (simp add: skip_space_append skip_space_other)
  qed
  have "read_value (dumps_at i l v @ entry_break i l @ ?rest) = Inr (v, entry_break i l @ ?rest)"
    by (rule cons(4) [of k]) (simp_all add: kv)
  from read_member [OF _ this, of acc k] cons(3) kv
  have "read_members acc (member_text i l (k, v) @ entry_break i l @ ?rest) = read_members (acc @ [(k, v)]) ?rest"
    using first ws(1) fresh by (simp add: skip_space_other)
  moreover have "read_members (acc @ [(k, v)]) ?rest = Inr ((acc @ [(k, v)]) @ kvs, s)"
    by (rule cons(2)) (use cons(3-5) kv in auto)
  ultimately show ?case using kv kvs by simp
qed

lemma read_dumped: "json_ok v \<Longrightarrow> value_end s \<Longrightarrow> read_value (dumps_at i l v @ s) = Inr (v, s)"
proof (induction v arbitrary: l s)
  case (JInt n)
  obtain c r where c: "str_int n = c # r" "c = CHR ''-'' \<or> is_digit c" using str_int_first by blast
  then have "c \<noteq> QUOTE" "c \<noteq> CHR ''{''" "c \<noteq> CHR ''[''"
    by (auto simp: QUOTE_def is_digit_def digit_value_def)
  then show ?case
    using c read_number_str_int [OF JInt(2), of n] by (simp add: read_value.simps)
next
  case (JStr w)
  then show ?case by (simp add: read_value.simps quote_string_def read_quoted)
next
  case (JList vs)
  show ?case
  proof (cases "vs = []")
    case True
    then show ?thesis by (simp add: read_value.simps QUOTE_def skip_space_def json_space_def)
  next
    case False
    let ?t = "join_entries (entry_break i (Suc l)) (map (dumps_at i (Suc l)) vs) @ line_break i l @ CHR '']'' # s"
    have items: "read_items ?t = Inr (vs, s)"
      by (rule read_items_written [OF False]) (use JList in auto)
    obtain u us where vs: "vs = u # us" using False by (cases vs) simp_all
    obtain t where t: "?t = dumps_at i (Suc l) u @ t" unfolding vs by (cases us) simp_all
    obtain c r where c: "?t = c # r" "c \<noteq> CHR '']''" "\<not> json_space c"
      using dumps_first [of u i "Suc l"] t JList(2) vs by (metis append_Cons json_ok.simps(1) list.set_intros(1))
    then have "skip_space (line_break i (Suc l) @ ?t) = ?t"
      by (simp add: skip_space_append line_break_space skip_space_other)
    then show ?thesis using items False c by (simp add: read_value.simps QUOTE_def)
  qed
next
  case (JObj kvs)
  show ?case
  proof (cases "kvs = []")
    case True
    then show ?thesis by (simp add: read_value.simps QUOTE_def skip_space_def json_space_def)
  next
    case False
    let ?t = "join_entries (entry_break i (Suc l)) (map (member_text i (Suc l)) kvs) @ line_break i l @ CHR ''}'' # s"
    have members: "read_members [] ?t = Inr (kvs, s)"
      using read_members_written [OF False, of i "Suc l" "[]" l s] JObj by fastforce
    obtain u us where kvs: "kvs = u # us" using False by (cases kvs) simp_all
    obtain t where t: "?t = QUOTE # t" unfolding kvs by (cases us; cases u) (simp_all add: quote_string_def)
    then have "skip_space (line_break i (Suc l) @ ?t) = ?t"
      by (simp add: skip_space_append line_break_space skip_space_other)
    then show ?thesis using members False t by (simp add: read_value.simps QUOTE_def)
  qed
qed (simp_all add: read_value.simps QUOTE_def is_digit_def digit_value_def read_literal_def literals_def)

lemma json_loads_dumps:
  assumes "json_ok v" and "\<And>c. c \<in> set before \<Longrightarrow> json_space c" and "\<And>c. c \<in> set after \<Longrightarrow> json_space c"
  shows "json_loads (before @ json_dumps i v @ after) = Inr v"
proof -
  have "skip_space after = []" using assms(3) by (simp add: skip_space_def)
  moreover have "value_end after" using assms(3) by (cases after) (simp_all add: value_end_def)
  ultimately show ?thesis
    using read_dumped [OF assms(1), of after i 0]
    by (simp add: json_loads_def json_dumps_def skip_space_append assms(2) skip_space_dumps [OF assms(1)])
qed

lemma loads_dumps [simp]: "json_ok v \<Longrightarrow> json_loads (json_dumps i v) = Inr v"
  using json_loads_dumps [of v "[]" "[]" i] by simp

text \<open>The text is printable ASCII, on one line unless it is indented.\<close>

definition printable :: "char \<Rightarrow> bool" where
  "printable c \<longleftrightarrow> 32 \<le> (of_char c :: nat) \<and> (of_char c :: nat) < 127"

lemma printable_hex_digit: "n < 16 \<Longrightarrow> printable (hex_digit n)"
  by (auto simp: printable_def hex_digit_def of_char_of)

lemma printable_escape: "d \<in> set (escape_char c) \<Longrightarrow> printable d"
proof -
  assume d: "d \<in> set (escape_char c)"
  have "(of_char c :: nat) div 16 < 16" "(of_char c :: nat) mod 16 < 16"
    using char_code_less [of c] less_mult_imp_div_less [of "of_char c :: nat" 16 16] by simp_all
  then have "printable (hex_digit (of_char c div 16))" "printable (hex_digit (of_char c mod 16))"
    using printable_hex_digit by blast+
  moreover have "printable BACKSLASH" "printable QUOTE" by (simp_all add: printable_def BACKSLASH_def QUOTE_def)
  ultimately show "printable d"
    using d by (auto simp: escape_char_def Let_def printable_def split: if_splits)
qed

lemma printable_quote: "d \<in> set (quote_string s) \<Longrightarrow> printable d"
  by (auto simp: quote_string_def dest: printable_escape) (auto simp: QUOTE_def printable_def)

lemma printable_str_int: "d \<in> set (str_int n) \<Longrightarrow> printable d"
  by (auto simp: str_int_def printable_def of_char_of elim!: nat_digits_set split: if_splits)

lemma set_join_entries: "d \<in> set (join_entries sep es) \<Longrightarrow> d \<in> set sep \<or> (\<exists>e \<in> set es. d \<in> set e)"
  by (induction sep es rule: join_entries.induct) auto

lemma dumps_printable: "json_ok v \<Longrightarrow> d \<in> set (dumps_at i l v) \<Longrightarrow> printable d \<or> i \<noteq> None \<and> d = CHR 0x0A"
proof (induction v arbitrary: l)
  case (JList vs)
  have "d \<in> set (line_break i k) \<or> d \<in> set (entry_break i k) \<Longrightarrow> printable d \<or> i \<noteq> None \<and> d = CHR 0x0A" for k
    by (cases i) (auto simp: printable_def)
  with JList show ?case by (auto dest!: set_join_entries split: if_splits) (auto simp: printable_def)
next
  case (JObj kvs)
  have "d \<in> set (line_break i k) \<or> d \<in> set (entry_break i k) \<Longrightarrow> printable d \<or> i \<noteq> None \<and> d = CHR 0x0A" for k
    by (cases i) (auto simp: printable_def)
  with JObj show ?case
    by (auto dest!: set_join_entries printable_quote split: if_splits) (auto simp: printable_def)
qed (auto dest: printable_str_int printable_quote simp: printable_def split: if_splits)

section \<open>Bytes and back\<close>

lemma unat_small: "n < 256 \<Longrightarrow> unat (word_of_nat n :: byte) = n"
  by (simp add: unat_of_nat)

lemma utf8_text_char: "utf8_text (char_utf8 c @ bs) = bindR (utf8_text bs) (\<lambda>t. return (c # t))"
proof (cases "(of_char c :: nat) < 0x80")
  case True
  then show ?thesis by (simp add: char_utf8_def unat_small)
next
  case False
  let ?n = "of_char c :: nat"
  have n: "?n < 256" by (rule char_code_less)
  have m: "2 \<le> ?n div 64" "?n div 64 < 4" "?n mod 64 < 64" "64 * (?n div 64) + ?n mod 64 = ?n"
    using False n less_mult_imp_div_less [of ?n 4 64] by (simp_all add: div_le_mono [of 128 ?n 64, simplified])
  define u v where "u = (word_of_nat (0xC0 + ?n div 64) :: byte)" and "v = (word_of_nat (0x80 + ?n mod 64) :: byte)"
  have uv: "unat u = 0xC0 + ?n div 64" "unat v = 0x80 + ?n mod 64"
    unfolding u_def v_def using m by (simp_all add: unat_small del: of_nat_add)
  have c: "char_utf8 c = [u, v]" using False by (simp add: char_utf8_def Let_def u_def v_def del: of_nat_add)
  have "char_of (64 * (unat u - 0xC0) + (unat v - 0x80)) = c" using uv m(4) by simp
  then show ?thesis using uv m unfolding c by (simp add: continues_def Let_def)
qed

lemma utf8_text_utf8 [simp]: "utf8_text (text_utf8 s) = Inr s"
  by (induction s) (simp_all add: text_utf8_def utf8_text_char)

lemma text_utf8_append: "text_utf8 (s @ t) = text_utf8 s @ text_utf8 t"
  by (simp add: text_utf8_def)

lemma text_utf8_newline: "word_of_nat 10 \<in> set (text_utf8 s) \<Longrightarrow> CHR 0x0A \<in> set s"
proof -
  assume "word_of_nat 10 \<in> set (text_utf8 s)"
  then obtain c where c: "c \<in> set s" "(word_of_nat 10 :: byte) \<in> set (char_utf8 c)" by (auto simp: text_utf8_def)
  let ?n = "of_char c :: nat"
  have "?n div 64 < 4" using char_code_less [of c] less_mult_imp_div_less [of ?n 4 64] by simp
  moreover have "?n mod 64 < 64" by simp
  moreover have "k = 10" if "(word_of_nat k :: byte) = word_of_nat 10" "k < 256" for k
    using arg_cong [where f = unat, OF that(1)] unat_small [of k] unat_small [of 10] that(2) by simp
  moreover have "?n < 0x80 \<and> (word_of_nat 10 :: byte) = word_of_nat ?n \<or>
      (word_of_nat (0xC0 + ?n div 64) :: byte) = word_of_nat 10 \<or> (word_of_nat (0x80 + ?n mod 64) :: byte) = word_of_nat 10"
    using c(2) by (auto simp: char_utf8_def Let_def simp del: of_nat_add split: if_splits)
  ultimately have "?n = 10 \<or> 0xC0 + ?n div 64 = 10 \<or> 0x80 + ?n mod 64 = 10" by fastforce
  then have "?n = 10" by simp
  then have "?n = of_char (CHR 0x0A)" by simp
  then have "c = CHR 0x0A" by (simp only: of_char_eq_iff)
  then show ?thesis using c(1) by simp
qed

lemma load_dump_bytes [simp]: "json_ok v \<Longrightarrow> load_bytes (dump_bytes i v) = Inr v"
  by (simp add: load_bytes_def dump_bytes_def)

lemma load_dumped_line: "json_ok v \<Longrightarrow> load_bytes (dump_bytes None v @ [10]) = Inr v"
proof -
  assume v: "json_ok v"
  have "text_utf8 [CHR 0x0A] = [10]" by (simp add: text_utf8_def char_utf8_def)
  then have "dump_bytes None v @ [10] = text_utf8 (json_dumps None v @ [CHR 0x0A])"
    by (simp add: dump_bytes_def text_utf8_append)
  then show ?thesis
    using json_loads_dumps [OF v, of "[]" "[CHR 0x0A]" None] by (simp add: load_bytes_def json_space_def)
qed

lemma dump_bytes_one_line:
  assumes "json_ok v"
  shows "10 \<notin> set (dump_bytes None v)"
proof
  assume "10 \<in> set (dump_bytes None v)"
  then have "CHR 0x0A \<in> set (json_dumps None v)" using text_utf8_newline by (simp add: dump_bytes_def)
  then have "printable (CHR 0x0A)" using dumps_printable [OF assms] unfolding json_dumps_def by blast
  then show False by (simp add: printable_def)
qed

section \<open>Documents\<close>

text \<open>The interface of the stored documents: what is written is read.\<close>

locale document_format =
  fixes dump :: "'v \<Rightarrow> 't" and load :: "'t \<Rightarrow> 'v result" and valid :: "'v \<Rightarrow> bool"
  assumes load_dump: "valid v \<Longrightarrow> load (dump v) = Inr v"
begin

lemma load_then: "valid v \<Longrightarrow> bindR (load (dump v)) f = f v"
  by (simp add: load_dump)

lemma dump_injective: "valid v \<Longrightarrow> valid w \<Longrightarrow> dump v = dump w \<Longrightarrow> v = w"
  using load_dump by (metis sum.inject(2))

end

interpretation json_column: document_format "json_dumps None" json_loads json_ok
  by unfold_locales simp

interpretation json_file: document_format "dump_bytes (Some 2)" load_bytes json_ok
  by unfold_locales simp

interpretation json_line: document_format "\<lambda>v. dump_bytes None v @ [10]" load_bytes json_ok
  by unfold_locales (rule load_dumped_line)

end
