(* ===== verification/Persistence.thy ===== *)
theory Persistence
  imports Lifecycle_Facts Json_Facts
begin

text \<open>
  Persistence: the JSON document of one channel and its file (\<open>persistence.py\<close>), the durable system store
  (\<open>store/store.py\<close>) and persisting and recovering channels with it (\<open>store/recover.py\<close>).  The
  store's tables are those of \<open>Key_Stores\<close>; a transaction that raises leaves them unchanged.
\<close>

section \<open>The channel document\<close>

definition SCHEMA_VERSION :: int where "SCHEMA_VERSION = 1"

definition cfg_to_json :: "config \<Rightarrow> json" where
  "cfg_to_json c = JObj
     [(''n'', JInt (cfg_n c)), (''k'', JInt (cfg_k c)), (''S'', JInt (cfg_S c)),
      (''bonds'', JList (map JInt (cfg_bonds c))), (''L0'', JInt (cfg_L0 c)), (''delta'', JInt (cfg_delta c))]"

definition cfg_of_json :: "json \<Rightarrow> config result" where
  "cfg_of_json d =
     bindR (bindR (j_index d ''n'') j_number) (\<lambda>n.
     bindR (bindR (j_index d ''k'') j_number) (\<lambda>k.
     bindR (bindR (j_index d ''S'') j_number) (\<lambda>S.
     bindR (bindR (bindR (j_index d ''bonds'') j_elements) (mapR j_number)) (\<lambda>bonds.
     bindR (bindR (j_index d ''L0'') j_number) (\<lambda>L0.
     bindR (bindR (j_index d ''delta'') j_number) (\<lambda>delta.
       ChannelConfig n k S bonds L0 delta))))))"

definition state_to_json :: "state \<Rightarrow> json" where
  "state_to_json s = JObj [(''balances'', JList (map JInt (balances s))), (''version'', JInt (version s))]"

definition state_of_json :: "json \<Rightarrow> state result" where
  "state_of_json d =
     bindR (bindR (bindR (j_index d ''balances'') j_elements) (mapR j_number)) (\<lambda>bal.
     bindR (bindR (j_index d ''version'') j_number) (\<lambda>v. State bal v))"

definition key_hex :: "privkey \<Rightarrow> string" where
  "key_hex k = bytes_hex (sk_to_bytes k)"

definition key_of_hex :: "externals \<Rightarrow> string \<Rightarrow> privkey result" where
  "key_of_hex x h = bindR (bytes_fromhex h) (x_private_key x)"

definition parent_value_of :: "channel \<Rightarrow> int result" where
  "parent_value_of ch =
     (case ch_funding_utxos ch of [] \<Rightarrow> raise PyIndexError | u # _ \<Rightarrow> return (out_value u))"

definition channel_to_dict :: "externals \<Rightarrow> channel \<Rightarrow> json result" where
  "channel_to_dict x ch =
     bindR (parent_value_of ch) (\<lambda>v. return (JObj
       [(''schema_version'', JInt SCHEMA_VERSION),
        (''cfg'', cfg_to_json (ch_cfg ch)),
        (''keys'', JList (map (\<lambda>k. JStr (key_hex k)) (keys (ch_keybook ch)))),
        (''funding_tx_hex'', JStr (x_tx_to_hex x (ch_funding_tx ch))),
        (''funding_parent_value'', JInt v),
        (''funding_confirmed'', JBool (ch_funding_confirmed ch)),
        (''state'', state_to_json (ch_state ch))]))"

text \<open>The channel around a funding transaction that was read back: the parent is the \<open>OP_TRUE\<close>
  placeholder, the bonds are rebuilt, the state is set afterwards.\<close>

definition rebuild_channel ::
  "externals \<Rightarrow> config \<Rightarrow> keybook \<Rightarrow> tx \<Rightarrow> int \<Rightarrow> bool \<Rightarrow> state result \<Rightarrow> channel result" where
  "rebuild_channel x cfg kb funding_tx parent_value confirmed get_state =
     bindR (bond_descriptors x cfg kb funding_tx) (\<lambda>bonds.
     bindR get_state (\<lambda>st.
       return \<lparr>ch_cfg = cfg, ch_keybook = kb, ch_funding_tx = funding_tx,
               ch_funding_utxos = [TxOutput parent_value [Op OP_TRUE]],
               ch_funding_confirmed = confirmed, ch_state = st, ch_bonds = bonds\<rparr>))"

definition checked_state :: "config \<Rightarrow> json \<Rightarrow> state result" where
  "checked_state cfg d =
     bindR (state_of_json d) (\<lambda>st. bindR (conservation_check st cfg) (\<lambda>_. return st))"

definition is_schema :: "json \<Rightarrow> bool result" where
  "is_schema v =
     (case v of
        JInt n \<Rightarrow> return (n = SCHEMA_VERSION)
      | JBool b \<Rightarrow> return b
      | JFloat f \<Rightarrow> raise OutsideModel
      | _ \<Rightarrow> return False)"

definition dict_to_channel :: "externals \<Rightarrow> json \<Rightarrow> channel result" where
  "dict_to_channel x d =
     bindR (bindR (j_get d ''schema_version'') is_schema) (\<lambda>ok.
       if \<not> ok then raise PersistenceError
       else
         bindR (bindR (j_index d ''cfg'') cfg_of_json) (\<lambda>cfg.
         bindR (bindR (bindR (j_index d ''keys'') j_elements)
            (mapR (\<lambda>h. bindR (j_string h) (key_of_hex x)))) (\<lambda>ks.
         let kb = \<lparr>keys = ks\<rparr>
         in bindR (bindR (bindR (j_index d ''funding_tx_hex'') j_string) (x_tx_from_hex x)) (\<lambda>ftx.
            bindR (bindR (j_index d ''funding_parent_value'') j_int) (\<lambda>pv.
            bindR (bindR (j_index d ''funding_confirmed'') j_truth) (\<lambda>confirmed.
              rebuild_channel x cfg kb ftx pv confirmed
                (bindR (j_index d ''state'') (checked_state cfg))))))))"

text \<open>A file is its bytes, or does not exist; text is UTF-8.\<close>

type_synonym disk_file = "bytes option"

definition save_channel :: "externals \<Rightarrow> channel \<Rightarrow> disk_file result" where
  "save_channel x ch = bindR (channel_to_dict x ch) (\<lambda>d. return (Some (dump_bytes (Some 2) d)))"

definition load_channel :: "externals \<Rightarrow> disk_file \<Rightarrow> channel result" where
  "load_channel x f =
     (case f of
        None \<Rightarrow> raise PersistenceError
      | Some content \<Rightarrow>
          (case load_bytes content of
             Inl e \<Rightarrow> raise (if catches PyJSONDecodeError e then PersistenceError else e)
           | Inr d \<Rightarrow> dict_to_channel x d))"

section \<open>The system store\<close>

record meta_row =
  mr_cfg_json :: string
  mr_keys_hex :: string
  mr_funding_tx_hex :: string
  mr_funding_confirmed :: int
  mr_parent_value :: int

record system_store =
  ss_wallet :: "(int, bytes) sqltable"
  ss_channel_states :: "(bytes \<times> int, string) sqltable"
  ss_channel_meta :: "(bytes, meta_row) sqltable"

definition empty_system_store :: system_store where
  "empty_system_store = \<lparr>ss_wallet = [], ss_channel_states = [], ss_channel_meta = []\<rparr>"

text \<open>SQLite binds Python integers as 64-bit values.\<close>

definition sqlite_int :: "int \<Rightarrow> int result" where
  "sqlite_int n = (if - (2 ^ 63) \<le> n \<and> n < 2 ^ 63 then return n else raise PyOverflowError)"

text \<open>\<open>with self.transaction()\<close>: what the statement changed is kept when it succeeds and rolled back when it
  raises.\<close>

definition transaction :: "(system_store \<Rightarrow> system_store result) \<Rightarrow> system_store \<Rightarrow> unit result \<times> system_store" where
  "transaction stmt s = (case stmt s of Inl e \<Rightarrow> (raise e, s) | Inr s' \<Rightarrow> (return (), s'))"

definition put_wallet_seed :: "bytes \<Rightarrow> system_store \<Rightarrow> system_store" where
  "put_wallet_seed seed s = s\<lparr>ss_wallet := sql_replace 1 seed (ss_wallet s)\<rparr>"

definition get_wallet_seed :: "system_store \<Rightarrow> bytes option" where
  "get_wallet_seed s = sql_select (ss_wallet s) 1"

definition put_channel_meta ::
  "bytes \<Rightarrow> string \<Rightarrow> string \<Rightarrow> string \<Rightarrow> bool \<Rightarrow> int \<Rightarrow> system_store \<Rightarrow> system_store result" where
  "put_channel_meta channel_id cfg_json keys_hex funding_hex confirmed parent_value s =
     bindR (sqlite_int parent_value) (\<lambda>pv.
       return (s\<lparr>ss_channel_meta := sql_replace channel_id
         \<lparr>mr_cfg_json = cfg_json, mr_keys_hex = keys_hex, mr_funding_tx_hex = funding_hex,
          mr_funding_confirmed = (if confirmed then 1 else 0), mr_parent_value = pv\<rparr>
         (ss_channel_meta s)\<rparr>))"

definition get_channel_meta :: "system_store \<Rightarrow> bytes \<Rightarrow> meta_row option" where
  "get_channel_meta s channel_id = sql_select (ss_channel_meta s) channel_id"

definition put_channel_state :: "bytes \<Rightarrow> int \<Rightarrow> string \<Rightarrow> system_store \<Rightarrow> system_store result" where
  "put_channel_state channel_id v state_json s =
     bindR (sqlite_int v) (\<lambda>v.
       return (s\<lparr>ss_channel_states := sql_replace (channel_id, v) state_json (ss_channel_states s)\<rparr>))"

text \<open>\<open>ORDER BY version DESC LIMIT 1\<close>\<close>

definition get_latest_channel_state :: "system_store \<Rightarrow> bytes \<Rightarrow> (int \<times> string) option" where
  "get_latest_channel_state s channel_id =
     (case sort_key (\<lambda>(k, _). - snd k) (filter (\<lambda>(k, _). fst k = channel_id) (ss_channel_states s)) of
        [] \<Rightarrow> None
      | (k, state_json) # _ \<Rightarrow> Some (snd k, state_json))"

definition list_channels :: "system_store \<Rightarrow> bytes list" where
  "list_channels s = map fst (ss_channel_meta s)"

section \<open>Persisting and recovering\<close>

text \<open>The two writes are separate transactions: when the second is refused the first stays.\<close>

definition cfg_text :: "config \<Rightarrow> string" where
  "cfg_text c = json_dumps None (cfg_to_json c)"

definition state_text :: "state \<Rightarrow> string" where
  "state_text st = json_dumps None (state_to_json st)"

definition persist_channel ::
  "externals \<Rightarrow> system_store \<Rightarrow> channel \<Rightarrow> unit result \<times> system_store" where
  "persist_channel x s ch =
     (let keys_hex = join_comma (map key_hex (keys (ch_keybook ch)))
      in case parent_value_of ch of
           Inl e \<Rightarrow> (raise e, s)
         | Inr pv \<Rightarrow>
             (case transaction (put_channel_meta (funding_txid x ch) (cfg_text (ch_cfg ch)) keys_hex
                     (x_tx_to_hex x (ch_funding_tx ch)) (ch_funding_confirmed ch) pv) s of
                (Inl e, s1) \<Rightarrow> (raise e, s1)
              | (Inr _, s1) \<Rightarrow>
                  transaction (put_channel_state (funding_txid x ch) (version (ch_state ch))
                    (state_text (ch_state ch))) s1))"

definition recover_channel :: "externals \<Rightarrow> system_store \<Rightarrow> bytes \<Rightarrow> channel option result" where
  "recover_channel x s channel_id =
     (case get_channel_meta s channel_id of
        None \<Rightarrow> return None
      | Some m \<Rightarrow>
          bindR (bindR (json_loads (mr_cfg_json m)) cfg_of_json) (\<lambda>cfg.
          bindR (mapR (key_of_hex x) (split_comma (mr_keys_hex m))) (\<lambda>ks.
          bindR (x_tx_from_hex x (mr_funding_tx_hex m)) (\<lambda>ftx.
          bindR (rebuild_channel x cfg \<lparr>keys = ks\<rparr> ftx (mr_parent_value m) (mr_funding_confirmed m \<noteq> 0)
             (case get_latest_channel_state s channel_id of
                None \<Rightarrow> initial_state cfg 0
              | Some (_, sj) \<Rightarrow> bindR (json_loads sj) (checked_state cfg))) (\<lambda>ch. return (Some ch))))))"

section \<open>Round trips\<close>

lemma cfg_json_roundtrip: "valid_config c \<Longrightarrow> cfg_of_json (cfg_to_json c) = Inr c"
  by (simp add: cfg_of_json_def cfg_to_json_def ChannelConfig_Inr)

lemma checked_state_json: "valid_state cfg st \<Longrightarrow> checked_state cfg (state_to_json st) = Inr st"
  by (simp add: checked_state_def state_of_json_def state_to_json_def State_Inr valid_state_check
      bindR_eq_Inr valid_state_def)

lemma document_ok [simp]: "json_ok (cfg_to_json c)" "json_ok (state_to_json st)"
  by (simp_all add: cfg_to_json_def state_to_json_def)

lemma cfg_text_roundtrip: "valid_config c \<Longrightarrow> bindR (json_loads (cfg_text c)) cfg_of_json = Inr c"
  by (simp add: cfg_text_def json_column.load_then cfg_json_roundtrip)

lemma checked_state_text: "valid_state cfg st \<Longrightarrow> bindR (json_loads (state_text st)) (checked_state cfg) = Inr st"
  by (simp add: state_text_def json_column.load_then checked_state_json)

lemma key_hex_roundtrip: "x_private_key x (sk_to_bytes k) = Inr k \<Longrightarrow> key_of_hex x (key_hex k) = Inr k"
  by (simp add: key_of_hex_def key_hex_def fromhex_hex)

text \<open>What the wallet-independent part of a channel is after reading it back: everything but the
  parent outputs, which become the placeholder of the recorded value.\<close>

definition reloaded :: "channel \<Rightarrow> channel" where
  "reloaded ch = ch\<lparr>ch_funding_utxos := [TxOutput (out_value (hd (ch_funding_utxos ch))) [Op OP_TRUE]]\<rparr>"

definition readable :: "externals \<Rightarrow> channel \<Rightarrow> bool" where
  "readable x ch \<longleftrightarrow>
     x_tx_from_hex x (x_tx_to_hex x (ch_funding_tx ch)) = Inr (ch_funding_tx ch) \<and>
     (\<forall>k \<in> set (keys (ch_keybook ch)). x_private_key x (sk_to_bytes k) = Inr k) \<and>
     ch_funding_utxos ch \<noteq> []"

lemma rebuild_wf:
  assumes "channel_wf x ch" and "ch_funding_utxos ch \<noteq> []"
  shows "rebuild_channel x (ch_cfg ch) (ch_keybook ch) (ch_funding_tx ch)
      (out_value (hd (ch_funding_utxos ch))) (ch_funding_confirmed ch) (Inr st) = Inr (reloaded (ch\<lparr>ch_state := st\<rparr>))"
  using bond_descriptors_eq [OF channel_wfD(1,2) [OF assms(1)], of x "ch_funding_tx ch"] channel_wfD(5) [OF assms(1)]
  by (simp add: rebuild_channel_def reloaded_def)

lemma mapR_return_map: "(\<And>a. a \<in> set as \<Longrightarrow> f (g a) = Inr a) \<Longrightarrow> mapR f (map g as) = Inr as"
  by (induction as) auto

lemma dict_roundtrip:
  assumes "channel_wf x ch" and "readable x ch"
  shows "\<exists>d. channel_to_dict x ch = Inr d \<and> dict_to_channel x d = Inr (reloaded ch)"
proof -
  have ne: "ch_funding_utxos ch \<noteq> []" using assms(2) by (simp add: readable_def)
  then obtain u us where u: "ch_funding_utxos ch = u # us" by (auto simp: neq_Nil_conv)
  have ks: "mapR (\<lambda>h. bindR (j_string h) (key_of_hex x)) (map (\<lambda>k. JStr (key_hex k)) (keys (ch_keybook ch))) =
      Inr (keys (ch_keybook ch))"
    using assms(2) by (intro mapR_return_map) (auto simp: readable_def key_hex_roundtrip)
  have kb: "\<lparr>keys = keys (ch_keybook ch)\<rparr> = ch_keybook ch" by simp
  have cfg: "cfg_of_json (cfg_to_json (ch_cfg ch)) = Inr (ch_cfg ch)"
    by (rule cfg_json_roundtrip [OF channel_wfD(1) [OF assms(1)]])
  have st: "checked_state (ch_cfg ch) (state_to_json (ch_state ch)) = Inr (ch_state ch)"
    by (rule checked_state_json [OF channel_wfD(3) [OF assms(1)]])
  have tx: "x_tx_from_hex x (x_tx_to_hex x (ch_funding_tx ch)) = Inr (ch_funding_tx ch)"
    using assms(2) by (simp add: readable_def)
  have rb: "rebuild_channel x (ch_cfg ch) (ch_keybook ch) (ch_funding_tx ch) (out_value u)
      (ch_funding_confirmed ch) (Inr (ch_state ch)) = Inr (reloaded ch)"
    using rebuild_wf [OF assms(1) ne, of "ch_state ch"] by (simp add: u)
  show ?thesis
    unfolding channel_to_dict_def parent_value_of_def u
    by (simp add: dict_to_channel_def is_schema_def cfg ks tx kb st rb Let_def)
qed

text \<open>The file of a saved channel.\<close>

lemma channel_to_dict_ok: "channel_to_dict x ch = Inr d \<Longrightarrow> json_ok d"
  by (auto simp: channel_to_dict_def bindR_eq_Inr)

lemma load_saved_dict:
  assumes "channel_to_dict x ch = Inr d"
  shows "load_channel x (Some (dump_bytes (Some 2) d)) = dict_to_channel x d"
  by (simp add: load_channel_def json_file.load_dump [OF channel_to_dict_ok [OF assms]])

section \<open>The latest state\<close>

definition system_store_wf :: "system_store \<Rightarrow> bool" where
  "system_store_wf s \<longleftrightarrow> sql_wf (ss_wallet s) \<and> sql_wf (ss_channel_states s) \<and> sql_wf (ss_channel_meta s)"

lemma empty_system_store_wf: "system_store_wf empty_system_store"
  by (simp add: system_store_wf_def empty_system_store_def sql_wf_def)

text \<open>Nothing stored for the channel is newer than the version \<open>v\<close>.\<close>

definition newest :: "system_store \<Rightarrow> bytes \<Rightarrow> int \<Rightarrow> bool" where
  "newest s channel_id v \<longleftrightarrow> (\<forall>((c, w), _) \<in> set (ss_channel_states s). c = channel_id \<longrightarrow> w \<le> v)"

lemma latest_state_eq:
  assumes "sql_wf (ss_channel_states s)" and "sql_select (ss_channel_states s) (channel_id, v) = Some j"
    and "newest s channel_id v"
  shows "get_latest_channel_state s channel_id = Some (v, j)"
proof -
  let ?rows = "filter (\<lambda>(k, _). fst k = channel_id) (ss_channel_states s)"
  let ?sorted = "sort_key (\<lambda>(k, _). - snd k) ?rows"
  have row: "((channel_id, v), j) \<in> set ?rows"
    using assms(2) by (auto simp: sql_select_def dest: map_of_SomeD)
  then obtain k j' rest where sorted: "?sorted = (k, j') # rest"
    by (metis (no_types, lifting) neq_Nil_conv set_sort empty_iff list.set(1) surj_pair)
  then have first: "(k, j') \<in> set ?rows" by (metis list.set_intros(1) set_sort)
  have "sorted (map (\<lambda>(k, _). - snd k) ?sorted)" by (rule sorted_sort_key)
  then have "\<forall>r \<in> set ?sorted. snd (fst r) \<le> snd k" by (auto simp: sorted)
  with row have "v \<le> snd k" by fastforce
  moreover have "snd k \<le> v" using first assms(3) by (auto simp: newest_def)
  ultimately have "k = (channel_id, v)" using first by (auto simp: prod_eq_iff)
  moreover from this have "j' = j"
    using first assms(1,2) by (auto simp: sql_select_def sql_wf_def dest: map_of_is_SomeI)
  ultimately show ?thesis by (simp add: get_latest_channel_state_def sorted)
qed

lemma persist_channel_Inr:
  assumes "persist_channel x s ch = (Inr (), s')"
  obtains u us where "ch_funding_utxos ch = u # us"
    "s' = s\<lparr>ss_channel_meta := sql_replace (funding_txid x ch)
          \<lparr>mr_cfg_json = cfg_text (ch_cfg ch), mr_keys_hex = join_comma (map key_hex (keys (ch_keybook ch))),
           mr_funding_tx_hex = x_tx_to_hex x (ch_funding_tx ch),
           mr_funding_confirmed = (if ch_funding_confirmed ch then 1 else 0), mr_parent_value = out_value u\<rparr>
          (ss_channel_meta s),
        ss_channel_states := sql_replace (funding_txid x ch, version (ch_state ch)) (state_text (ch_state ch))
          (ss_channel_states s)\<rparr>"
  using assms
  by (auto simp: persist_channel_def transaction_def parent_value_of_def put_channel_meta_def put_channel_state_def
      sqlite_int_def bindR_eq_Inr bindR_eq_Inl Let_def split: list.splits if_splits sum.splits)

lemma persist_wf: "persist_channel x s ch = (Inr (), s') \<Longrightarrow> system_store_wf s \<Longrightarrow> system_store_wf s'"
  by (elim persist_channel_Inr) (auto simp: system_store_wf_def sql.wf_put)

text \<open>Persisting succeeds when the numbers fit SQLite's integers.\<close>

lemma persist_ok:
  assumes "ch_funding_utxos ch = u # us" and "- (2 ^ 63) \<le> out_value u" "out_value u < 2 ^ 63"
    and "- (2 ^ 63) \<le> version (ch_state ch)" "version (ch_state ch) < 2 ^ 63"
  shows "\<exists>s'. persist_channel x s ch = (Inr (), s')"
  using assms by (simp add: persist_channel_def transaction_def parent_value_of_def put_channel_meta_def put_channel_state_def
      sqlite_int_def Let_def)

text \<open>What is recovered: the configuration of the last persist, the newest state.\<close>

lemma recover_meta:
  assumes "persist_channel x s ch = (Inr (), s')" and "channel_wf x ch" and "readable x ch"
    and "get_latest_channel_state s' (funding_txid x ch) = Some (v, state_text st)"
    and "valid_state (ch_cfg ch) st"
  shows "recover_channel x s' (funding_txid x ch) = Inr (Some (reloaded (ch\<lparr>ch_state := st\<rparr>)))"
proof -
  let ?ks = "keys (ch_keybook ch)"
  obtain u us where u: "ch_funding_utxos ch = u # us"
    and s': "s' = s\<lparr>ss_channel_meta := sql_replace (funding_txid x ch)
          \<lparr>mr_cfg_json = cfg_text (ch_cfg ch), mr_keys_hex = join_comma (map key_hex ?ks),
           mr_funding_tx_hex = x_tx_to_hex x (ch_funding_tx ch),
           mr_funding_confirmed = (if ch_funding_confirmed ch then 1 else 0), mr_parent_value = out_value u\<rparr>
          (ss_channel_meta s),
        ss_channel_states := sql_replace (funding_txid x ch, version (ch_state ch)) (state_text (ch_state ch))
          (ss_channel_states s)\<rparr>"
    by (rule persist_channel_Inr [OF assms(1)])
  have "?ks \<noteq> []" using channel_wfD(2,6) [OF assms(2)] by (auto simp: kb_n_def)
  then have split: "split_comma (join_comma (map key_hex ?ks)) = map key_hex ?ks"
    by (intro split_join_comma) (auto simp: key_hex_def hex_no_comma)
  have ks: "mapR (key_of_hex x) (map key_hex ?ks) = Inr ?ks"
    using assms(3) by (intro mapR_return_map) (auto simp: readable_def key_hex_roundtrip)
  have kb: "\<lparr>keys = ?ks\<rparr> = ch_keybook ch" by simp
  have cfg: "bindR (json_loads (cfg_text (ch_cfg ch))) cfg_of_json = Inr (ch_cfg ch)"
    by (rule cfg_text_roundtrip [OF channel_wfD(1) [OF assms(2)]])
  have tx: "x_tx_from_hex x (x_tx_to_hex x (ch_funding_tx ch)) = Inr (ch_funding_tx ch)"
    using assms(3) by (simp add: readable_def)
  have rb: "rebuild_channel x (ch_cfg ch) (ch_keybook ch) (ch_funding_tx ch) (out_value u)
      (ch_funding_confirmed ch) (Inr st) = Inr (reloaded (ch\<lparr>ch_state := st\<rparr>))"
    using rebuild_wf [OF assms(2), of st] by (simp add: u)
  have "get_channel_meta s' (funding_txid x ch) = Some
      \<lparr>mr_cfg_json = cfg_text (ch_cfg ch), mr_keys_hex = join_comma (map key_hex ?ks),
       mr_funding_tx_hex = x_tx_to_hex x (ch_funding_tx ch),
       mr_funding_confirmed = (if ch_funding_confirmed ch then 1 else 0), mr_parent_value = out_value u\<rparr>"
    by (simp add: s' get_channel_meta_def)
  then show ?thesis
    using rb by (cases "ch_funding_confirmed ch")
      (simp_all add: recover_channel_def cfg split ks kb tx assms(4) checked_state_text [OF assms(5)])
qed

lemma newest_replace:
  assumes "newest s c v" and "w \<le> v"
  shows "newest (s\<lparr>ss_channel_meta := m, ss_channel_states := sql_replace (c, w) j (ss_channel_states s)\<rparr>) c v"
  using assms by (auto simp: newest_def sql_replace_def sql_delete_def)

lemma recover_persisted:
  assumes "persist_channel x s ch = (Inr (), s')" and "channel_wf x ch" and "readable x ch"
    and "system_store_wf s" and "newest s (funding_txid x ch) (version (ch_state ch))"
  shows "recover_channel x s' (funding_txid x ch) = Inr (Some (reloaded ch))"
proof -
  have "get_latest_channel_state s' (funding_txid x ch) =
      Some (version (ch_state ch), state_text (ch_state ch))"
  proof (rule latest_state_eq)
    show "sql_wf (ss_channel_states s')"
      using persist_wf [OF assms(1,4)] by (simp add: system_store_wf_def)
    show "sql_select (ss_channel_states s') (funding_txid x ch, version (ch_state ch)) =
        Some (state_text (ch_state ch))"
      by (rule persist_channel_Inr [OF assms(1)]) simp
    show "newest s' (funding_txid x ch) (version (ch_state ch))"
      by (rule persist_channel_Inr [OF assms(1)]) (simp add: newest_replace [OF assms(5)])
  qed
  from recover_meta [OF assms(1-3) this channel_wfD(3) [OF assms(2)]] show ?thesis by simp
qed

lemma recover_other:
  assumes "persist_channel x s ch = (Inr (), s')" and "c \<noteq> funding_txid x ch"
  shows "recover_channel x s' c = recover_channel x s c"
proof -
  have other: "filter (\<lambda>(k, _). fst k = c) (sql_replace (funding_txid x ch, w) j t) =
      filter (\<lambda>(k, _). fst k = c) t" for w and j :: string and t
    using assms(2) by (auto simp: sql_replace_def sql_delete_def filter_filter split_def intro: filter_cong)
  have latest: "get_latest_channel_state s' c = get_latest_channel_state s c"
    unfolding get_latest_channel_state_def
    by (rule persist_channel_Inr [OF assms(1)]) (simp add: other [unfolded split_def] split_def)
  have meta: "get_channel_meta s' c = get_channel_meta s c"
    unfolding get_channel_meta_def
    by (rule persist_channel_Inr [OF assms(1)]) (use assms(2) in \<open>simp add: sql.get_put\<close>)
  show ?thesis unfolding recover_channel_def latest meta ..
qed

end
