(* ===== verification/Watchtower.thy ===== *)
theory Watchtower
  imports Persistence Node_Network
begin

text \<open>
  The watchtower: the registry of watch records and its file (\<open>watchtower/registry.py\<close>), the tower
  that answers a stale state with the current one (\<open>tower.py\<close>), clusters of towers
  (\<open>cluster.py\<close>) and the fee ledger (\<open>incentive.py\<close>).  A world is the node with the towers that
  watch it and the list of those attached as mempool observers.  An observer submits transactions
  while the mempool is still notifying, so submission is recursive; its depth is bounded by fuel and
  running out of it is \<open>None\<close>.
\<close>

section \<open>The registry\<close>

record watch_record =
  wr_channel_id :: bytes
  current_state_tx_hex :: string
  forfeit_tx_hex_by_owner :: "(int, string) pydict"
  horizon :: int

definition current_state_tx :: "externals \<Rightarrow> watch_record \<Rightarrow> tx result" where
  "current_state_tx x r = x_tx_from_hex x (current_state_tx_hex r)"

definition forfeit_tx_for :: "externals \<Rightarrow> watch_record \<Rightarrow> int \<Rightarrow> tx result" where
  "forfeit_tx_for x r owner =
     (case dict_get (forfeit_tx_hex_by_owner r) owner of
        None \<Rightarrow> raise RegistryError
      | Some h \<Rightarrow> x_tx_from_hex x h)"

text \<open>The file is \<open>None\<close> for a registry without a path.\<close>

record registry =
  rg_records :: "(bytes, watch_record) pydict"
  rg_file :: "disk_file option"

definition record_to_json :: "watch_record \<Rightarrow> json" where
  "record_to_json r = JObj
     [(''channel_id'', JStr (bytes_hex (wr_channel_id r))),
      (''current_state_tx_hex'', JStr (current_state_tx_hex r)),
      (''forfeit_tx_hex_by_owner'',
         JObj (map (\<lambda>(k, v). (str_int k, JStr v)) (forfeit_tx_hex_by_owner r))),
      (''horizon'', JInt (horizon r))]"

definition registry_json :: "(bytes, watch_record) pydict \<Rightarrow> json" where
  "registry_json recs = JObj [(''records'', JList (map (\<lambda>(_, r). record_to_json r) recs))]"

definition registry_save :: "registry \<Rightarrow> registry" where
  "registry_save g =
     (case rg_file g of
        None \<Rightarrow> g
      | Some _ \<Rightarrow> g\<lparr>rg_file := Some (Some (dump_bytes (Some 2) (registry_json (rg_records g))))\<rparr>)"

fun j_items :: "json \<Rightarrow> (string \<times> json) list result" where
  "j_items (JObj kvs) = return kvs"
| "j_items _ = raise PyAttributeError"

text \<open>A stored transaction is text; a document with another value there is refused on loading, where
  the code fails when it first uses it.\<close>

definition forfeits_of_json :: "json \<Rightarrow> (int, string) pydict result" where
  "forfeits_of_json d =
     bindR (j_items d) (\<lambda>kvs.
       foldR (\<lambda>m (k, v). bindR (int_str k) (\<lambda>owner. bindR (j_string v) (\<lambda>h. return (dict_put owner h m)))) [] kvs)"

definition record_of_json :: "json \<Rightarrow> watch_record result" where
  "record_of_json d =
     bindR (bindR (bindR (j_index d ''channel_id'') j_string) bytes_fromhex) (\<lambda>c.
     bindR (bindR (j_index d ''current_state_tx_hex'') j_string) (\<lambda>h.
     bindR (bindR (j_index d ''forfeit_tx_hex_by_owner'') forfeits_of_json) (\<lambda>fs.
     bindR (bindR (j_index d ''horizon'') j_int) (\<lambda>hz.
       return \<lparr>wr_channel_id = c, current_state_tx_hex = h, forfeit_tx_hex_by_owner = fs, horizon = hz\<rparr>))))"

text \<open>\<open>data.get("records", [])\<close>: a document without the key has no records.\<close>

definition stored_records :: "json \<Rightarrow> json list result" where
  "stored_records data =
     (case data of
        JObj kvs \<Rightarrow> (case map_of kvs ''records'' of None \<Rightarrow> return [] | Some v \<Rightarrow> j_elements v)
      | _ \<Rightarrow> raise PyAttributeError)"

definition registry_load :: "json \<Rightarrow> (bytes, watch_record) pydict result" where
  "registry_load data =
     bindR (stored_records data) (\<lambda>raws.
       foldR (\<lambda>recs d. bindR (record_of_json d) (\<lambda>r. return (dict_put (wr_channel_id r) r recs))) [] raws)"

definition registry_open :: "disk_file option \<Rightarrow> registry result" where
  "registry_open path =
     (case path of
        None \<Rightarrow> return \<lparr>rg_records = [], rg_file = None\<rparr>
      | Some None \<Rightarrow> return \<lparr>rg_records = [], rg_file = path\<rparr>
      | Some (Some content) \<Rightarrow>
          bindR (bindR (load_bytes content) registry_load) (\<lambda>recs. return \<lparr>rg_records = recs, rg_file = path\<rparr>))"

definition registry_register :: "watch_record \<Rightarrow> registry \<Rightarrow> registry" where
  "registry_register r g = registry_save (g\<lparr>rg_records := dict_put (wr_channel_id r) r (rg_records g)\<rparr>)"

definition registry_get :: "registry \<Rightarrow> bytes \<Rightarrow> watch_record option" where
  "registry_get g channel_id = dict_get (rg_records g) channel_id"

definition registry_update :: "watch_record \<Rightarrow> registry \<Rightarrow> registry" where
  "registry_update r g = registry_save (g\<lparr>rg_records := dict_put (wr_channel_id r) r (rg_records g)\<rparr>)"

definition registry_all :: "registry \<Rightarrow> watch_record list" where
  "registry_all g = map snd (rg_records g)"

definition registry_len :: "registry \<Rightarrow> int" where
  "registry_len g = int (length (rg_records g))"

section \<open>Towers\<close>

record tower =
  tw_registry :: registry
  tw_pubkey :: "pubkey option"
  interventions :: int
  forfeits :: int

record watch_world =
  ww_node :: node
  ww_towers :: "tower list"
  ww_observers :: "nat list"

text \<open>Creating a tower attaches it to the mempool.\<close>

definition add_tower :: "registry \<Rightarrow> pubkey option \<Rightarrow> watch_world \<Rightarrow> watch_world" where
  "add_tower g pk W =
     W\<lparr>ww_towers := ww_towers W @ [\<lparr>tw_registry = g, tw_pubkey = pk, interventions = 0, forfeits = 0\<rparr>],
       ww_observers := ww_observers W @ [length (ww_towers W)]\<rparr>"

definition update_tower :: "nat \<Rightarrow> (tower \<Rightarrow> tower) \<Rightarrow> watch_world \<Rightarrow> watch_world" where
  "update_tower i f W = W\<lparr>ww_towers := (ww_towers W)[i := f (ww_towers W ! i)]\<rparr>"

definition tower_register :: "nat \<Rightarrow> watch_record \<Rightarrow> watch_world \<Rightarrow> watch_world" where
  "tower_register i r = update_tower i (\<lambda>tw. tw\<lparr>tw_registry := registry_register r (tw_registry tw)\<rparr>)"

definition count_intervention :: "nat \<Rightarrow> watch_world \<Rightarrow> watch_world" where
  "count_intervention i = update_tower i (\<lambda>tw. tw\<lparr>interventions := interventions tw + 1\<rparr>)"

type_synonym submission = "tx \<Rightarrow> watch_world \<Rightarrow> (validation_result \<times> watch_world) result option"

text \<open>\<open>_observe\<close> of tower \<open>i\<close> over the inputs of the transaction.  An exception ends the observer
  (the mempool logs it) and keeps what it did before.\<close>

fun observe_inputs :: "externals \<Rightarrow> submission \<Rightarrow> nat \<Rightarrow> txinput list \<Rightarrow> watch_world \<Rightarrow> watch_world option" where
  "observe_inputs x submit i [] W = Some W"
| "observe_inputs x submit i (tin # ins) W =
     (if prev_idx tin \<noteq> 0 then observe_inputs x submit i ins W
      else case registry_get (tw_registry (ww_towers W ! i)) (prev_hash tin) of
             None \<Rightarrow> observe_inputs x submit i ins W
           | Some r \<Rightarrow>
               (case current_state_tx x r of
                  Inl _ \<Rightarrow> Some W
                | Inr current \<Rightarrow>
                    (case tx_inputs current of
                       [] \<Rightarrow> Some W
                     | c # _ \<Rightarrow>
                         if sequence c \<le> sequence tin then observe_inputs x submit i ins W
                         else (case submit current W of
                                 None \<Rightarrow> None
                               | Some (Inl _) \<Rightarrow> Some W
                               | Some (Inr (res, W')) \<Rightarrow>
                                   observe_inputs x submit i ins
                                     (if vr_ok res then count_intervention i W' else W')))))"

fun notify_towers :: "externals \<Rightarrow> submission \<Rightarrow> nat list \<Rightarrow> txinput list \<Rightarrow> watch_world \<Rightarrow> watch_world option" where
  "notify_towers x submit [] ins W = Some W"
| "notify_towers x submit (i # is) ins W =
     (case observe_inputs x submit i ins W of
        None \<Rightarrow> None
      | Some W' \<Rightarrow> notify_towers x submit is ins W')"

text \<open>The events of an admission, in order; towers ignore evictions.\<close>

fun deliver :: "externals \<Rightarrow> submission \<Rightarrow> mp_event list \<Rightarrow> watch_world \<Rightarrow> watch_world option" where
  "deliver x submit [] W = Some W"
| "deliver x submit (MpEvict t # es) W = deliver x submit es W"
| "deliver x submit (MpAdmit t # es) W =
     (case notify_towers x submit (ww_observers W) (tx_inputs t) W of
        None \<Rightarrow> None | Some W' \<Rightarrow> deliver x submit es W')"
| "deliver x submit (MpReplace t # es) W =
     (case notify_towers x submit (ww_observers W) (tx_inputs t) W of
        None \<Rightarrow> None | Some W' \<Rightarrow> deliver x submit es W')"

definition new_events :: "node \<Rightarrow> node \<Rightarrow> mp_event list" where
  "new_events nd nd' = drop (length (mp_events (nd_mempool nd))) (mp_events (nd_mempool nd'))"

primrec submit_watched :: "nat \<Rightarrow> externals \<Rightarrow> submission" where
  "submit_watched 0 = (\<lambda>x t W. None)"
| "submit_watched (Suc fuel) = (\<lambda>x t W.
     case submit_tx x (ww_node W) t of
       Inl e \<Rightarrow> Some (raise e)
     | Inr (r, nd) \<Rightarrow>
         (case deliver x (submit_watched fuel x) (new_events (ww_node W) nd) (W\<lparr>ww_node := nd\<rparr>) of
            None \<Rightarrow> None
          | Some W' \<Rightarrow> Some (return (r, W'))))"

definition forfeit_offender_bond ::
  "nat \<Rightarrow> externals \<Rightarrow> nat \<Rightarrow> bytes \<Rightarrow> int \<Rightarrow> watch_world \<Rightarrow> (validation_result \<times> watch_world) result option" where
  "forfeit_offender_bond fuel x i channel_id offender W =
     (case registry_get (tw_registry (ww_towers W ! i)) channel_id of
        None \<Rightarrow> Some (raise TowerError)
      | Some r \<Rightarrow>
          (case forfeit_tx_for x r offender of
             Inl e \<Rightarrow> Some (raise e)
           | Inr t \<Rightarrow>
               (case submit_watched fuel x t W of
                  None \<Rightarrow> None
                | Some (Inl e) \<Rightarrow> Some (raise e)
                | Some (Inr (res, W')) \<Rightarrow> Some (return (res,
                    if vr_ok res then update_tower i (\<lambda>tw. tw\<lparr>forfeits := forfeits tw + 1\<rparr>) W' else W')))))"

section \<open>Clusters\<close>

record watcher_spec =
  spec_pubkey :: pubkey
  fee_per_intervention :: int

type_synonym cluster = "nat list"

definition cluster_size :: "cluster \<Rightarrow> int" where
  "cluster_size cl = int (length cl)"

definition cluster_of_size :: "watcher_spec list \<Rightarrow> watch_world \<Rightarrow> (cluster \<times> watch_world) result" where
  "cluster_of_size specs W =
     (if specs = [] then raise ClusterError
      else return ([length (ww_towers W) ..< length (ww_towers W) + length specs],
        fold (\<lambda>spec. add_tower \<lparr>rg_records = [], rg_file = None\<rparr> (Some (spec_pubkey spec))) specs W))"

definition cluster_record ::
  "externals \<Rightarrow> channel \<Rightarrow> tx \<Rightarrow> int list \<Rightarrow> watcher_spec \<Rightarrow> watch_record result" where
  "cluster_record x ch current_tx offenders spec =
     bindR (foldR (\<lambda>fs offender.
         bindR (forfeit_bond_tx x ch offender (Some (spec_pubkey spec)) (fee_per_intervention spec)) (\<lambda>(t, _).
           return (dict_put offender (x_tx_to_hex x t) fs))) [] offenders) (\<lambda>fs.
       return \<lparr>wr_channel_id = funding_txid x ch, current_state_tx_hex = x_tx_to_hex x current_tx,
               forfeit_tx_hex_by_owner = fs, horizon = cfg_L0 (ch_cfg ch)\<rparr>)"

text \<open>The towers are registered one by one; an exception keeps those already registered.\<close>

fun register_each ::
  "externals \<Rightarrow> channel \<Rightarrow> tx \<Rightarrow> int list \<Rightarrow> (watcher_spec \<times> nat) list \<Rightarrow> watch_world \<Rightarrow>
   unit result \<times> watch_world" where
  "register_each x ch cur offenders [] W = (return (), W)"
| "register_each x ch cur offenders ((spec, i) # rest) W =
     (case cluster_record x ch cur offenders spec of
        Inl e \<Rightarrow> (raise e, W)
      | Inr r \<Rightarrow> register_each x ch cur offenders rest (tower_register i r W))"

definition register_channel ::
  "externals \<Rightarrow> cluster \<Rightarrow> channel \<Rightarrow> watcher_spec list \<Rightarrow> int list \<Rightarrow> watch_world \<Rightarrow>
   unit result \<times> watch_world" where
  "register_channel x cl ch specs offenders W =
     (if int (length specs) \<noteq> cluster_size cl then (raise ClusterError, W)
      else case sign_state_tx x ch (ch_state ch) of
             Inl e \<Rightarrow> (raise e, W)
           | Inr (cur, _) \<Rightarrow> register_each x ch cur offenders (zip specs cl) W)"

definition total_interventions :: "cluster \<Rightarrow> watch_world \<Rightarrow> int" where
  "total_interventions cl W = sum_list (map (\<lambda>i. interventions (ww_towers W ! i)) cl)"

definition total_forfeits :: "cluster \<Rightarrow> watch_world \<Rightarrow> int" where
  "total_forfeits cl W = sum_list (map (\<lambda>i. forfeits (ww_towers W ! i)) cl)"

fun cluster_disable :: "cluster \<Rightarrow> int list \<Rightarrow> watch_world \<Rightarrow> unit result \<times> watch_world" where
  "cluster_disable cl [] W = (return (), W)"
| "cluster_disable cl (i # is) W =
     (if \<not> (0 \<le> i \<and> i < int (length cl)) then (raise ClusterError, W)
      else cluster_disable cl is (W\<lparr>ww_observers := remove1 (cl ! nat i) (ww_observers W)\<rparr>))"

fun cluster_enable :: "cluster \<Rightarrow> int list \<Rightarrow> watch_world \<Rightarrow> unit result \<times> watch_world" where
  "cluster_enable cl [] W = (return (), W)"
| "cluster_enable cl (i # is) W =
     (case py_nth cl i of
        Inl e \<Rightarrow> (raise e, W)
      | Inr w \<Rightarrow> cluster_enable cl is
          (if w \<in> set (ww_observers W) then W else W\<lparr>ww_observers := ww_observers W @ [w]\<rparr>))"

section \<open>The fee ledger\<close>

record incentive_ledger =
  ledger_fee :: int
  intervention_fees :: "int list"

definition ledger_record :: "int \<Rightarrow> incentive_ledger \<Rightarrow> (int \<times> incentive_ledger) result" where
  "ledger_record bond_val l =
     (if bond_val < 0 then raise IncentiveError
      else
        let fee = min (ledger_fee l) bond_val
        in return (fee, l\<lparr>intervention_fees := intervention_fees l @ [fee]\<rparr>))"

definition ledger_total :: "incentive_ledger \<Rightarrow> int" where
  "ledger_total l = sum_list (intervention_fees l)"

section \<open>The monitor\<close>

text \<open>The tick loop of \<open>monitor.py\<close> beside its thread: \<open>mo_thread\<close> is the thread object, with whether
  it is still alive.  \<open>stop\<close> sets the event and joins the thread, which the event wakes, so the thread
  has left its loop when \<open>stop\<close> returns.\<close>

record monitor =
  mo_ticks :: int
  mo_stop :: bool
  mo_thread :: "bool option"

definition new_monitor :: monitor where
  "new_monitor = \<lparr>mo_ticks = 0, mo_stop = False, mo_thread = None\<rparr>"

definition monitor_is_running :: "monitor \<Rightarrow> bool" where
  "monitor_is_running m \<longleftrightarrow> mo_thread m = Some True"

definition monitor_start :: "monitor \<Rightarrow> monitor" where
  "monitor_start m =
     (if monitor_is_running m then m
      else m\<lparr>mo_stop := False, mo_ticks := 0, mo_thread := Some True\<rparr>)"

text \<open>One round of the thread's loop.\<close>

definition monitor_round :: "monitor \<Rightarrow> monitor" where
  "monitor_round m =
     (if \<not> monitor_is_running m then m
      else if mo_stop m then m\<lparr>mo_thread := Some False\<rparr>
      else m\<lparr>mo_ticks := mo_ticks m + 1\<rparr>)"

definition monitor_stop :: "monitor \<Rightarrow> monitor" where
  "monitor_stop m = (monitor_round (m\<lparr>mo_stop := True\<rparr>))\<lparr>mo_thread := None\<rparr>"

lemma monitor_ticks_count:
  "\<not> monitor_is_running m \<Longrightarrow> mo_ticks ((monitor_round ^^ n) (monitor_start m)) = int n"
proof -
  assume "\<not> monitor_is_running m"
  then have "(monitor_round ^^ n) (monitor_start m) =
      m\<lparr>mo_stop := False, mo_ticks := int n, mo_thread := Some True\<rparr>"
    by (induction n) (simp_all add: monitor_start_def monitor_round_def monitor_is_running_def add.commute)
  then show ?thesis by simp
qed

lemma stopped_monitor_idle: "(monitor_round ^^ n) (monitor_stop m) = monitor_stop m"
  by (induction n) (simp_all add: monitor_stop_def monitor_round_def monitor_is_running_def)

end
