(* ===== verification/Watchtower_Facts.thy ===== *)
theory Watchtower_Facts
  imports Watchtower
begin

text \<open>
  Facts about the watchtower: the registry file reloads to the registry that wrote it, an admission
  tells the observers once, and a stale state that enters the mempool is answered by every attached
  tower that watches its channel.
\<close>

section \<open>The registry file\<close>

lemma registry_get_save [simp]: "rg_records (registry_save g) = rg_records g"
  by (simp add: registry_save_def split: option.splits)

lemma registry_get_register:
  "registry_get (registry_register r g) k = (if k = wr_channel_id r then Some r else registry_get g k)"
  by (simp add: registry_register_def registry_get_def dict.get_put)

text \<open>Every record is filed under its own channel, and its forfeits under distinct owners.\<close>

definition registry_wf :: "registry \<Rightarrow> bool" where
  "registry_wf g \<longleftrightarrow> dict_wf (rg_records g) \<and>
     (\<forall>(k, r) \<in> set (rg_records g). k = wr_channel_id r \<and> dict_wf (forfeit_tx_hex_by_owner r))"

lemma registry_wf_empty [simp]: "registry_wf \<lparr>rg_records = [], rg_file = f\<rparr>"
  by (simp add: registry_wf_def)

lemma registry_wf_register:
  assumes "registry_wf g" and "dict_wf (forfeit_tx_hex_by_owner r)"
  shows "registry_wf (registry_register r g)"
  using assms dict.items_put [of "rg_records g" "wr_channel_id r" r]
  by (auto simp: registry_wf_def registry_register_def dict.wf_put)

lemma foldR_rebuild:
  assumes "\<And>z. z \<in> set zs \<Longrightarrow> f z = Inr (dec z)"
    and "dict_wf (acc @ map dec zs)"
  shows "foldR (\<lambda>m z. bindR (f z) (\<lambda>(k, v). return (dict_put k v m))) acc zs = Inr (acc @ map dec zs)"
  using assms
proof (induction zs arbitrary: acc)
  case (Cons z zs)
  obtain k v where kv: "dec z = (k, v)" by (cases "dec z")
  have "dict_get acc k = None"
    using Cons.prems(2) by (auto simp: kv dict_wf_def dict_get_def map_of_eq_None_iff)
  then have put: "dict_put k v acc = acc @ [(k, v)]" by (rule dict_put_fresh)
  have rest: "foldR (\<lambda>m z. bindR (f z) (\<lambda>(k, v). return (dict_put k v m))) (acc @ [dec z]) zs =
      Inr ((acc @ [dec z]) @ map dec zs)"
    by (rule Cons.IH) (use Cons.prems in simp_all)
  have "f z = Inr (k, v)" using Cons.prems(1) [of z] kv by simp
  then show ?case using rest by (simp add: put kv)
qed simp

lemma forfeits_reload:
  assumes "dict_wf d"
  shows "forfeits_of_json (JObj (map (\<lambda>(k, v). (str_int k, JStr v)) d)) = Inr d"
proof -
  let ?f = "\<lambda>(k, v). bindR (int_str k) (\<lambda>owner. bindR (j_string v) (\<lambda>h. return (owner, h)))"
  let ?enc = "\<lambda>(k, v). (str_int k, JStr v)"
  let ?step = "\<lambda>m z. bindR (?f z) (\<lambda>(k, v). return (dict_put k v m))"
  have fold_map: "foldR ?step acc (map ?enc d) =
      foldR (\<lambda>m z. bindR (Inr z) (\<lambda>(k, v). return (dict_put k v m))) acc d" for acc
    by (induction d arbitrary: acc) (auto simp: bindR_assoc int_str_int)
  have "forfeits_of_json (JObj (map ?enc d)) = foldR ?step [] (map ?enc d)"
    by (simp add: forfeits_of_json_def bindR_assoc split_def)
  also have "\<dots> = Inr ([] @ map id d)"
    unfolding fold_map by (rule foldR_rebuild) (use assms in simp_all)
  finally show ?thesis by simp
qed

lemma record_reload:
  assumes "dict_wf (forfeit_tx_hex_by_owner r)"
  shows "record_of_json (record_to_json r) = Inr r"
  using forfeits_reload [OF assms] by (simp add: record_of_json_def record_to_json_def fromhex_hex)

lemma registry_load_json:
  assumes "registry_wf g"
  shows "registry_load (registry_json (rg_records g)) = Inr (rg_records g)"
proof -
  have keys: "wr_channel_id r = k" "dict_wf (forfeit_tx_hex_by_owner r)"
    if "(k, r) \<in> set (rg_records g)" for k r
    using assms that by (auto simp: registry_wf_def)
  let ?f = "\<lambda>d. bindR (record_of_json d) (\<lambda>r. return (wr_channel_id r, r))"
  have fold_map: "foldR (\<lambda>recs d. bindR (?f d) (\<lambda>(k, r). return (dict_put k r recs))) acc
        (map (\<lambda>(_, r). record_to_json r) kvs) =
      foldR (\<lambda>m z. bindR (Inr z) (\<lambda>(k, v). return (dict_put k v m))) acc kvs"
    if "set kvs \<subseteq> set (rg_records g)" for acc kvs
    using that by (induction kvs arbitrary: acc) (auto simp: record_reload keys)
  have "registry_load (registry_json (rg_records g)) =
      foldR (\<lambda>recs d. bindR (?f d) (\<lambda>(k, r). return (dict_put k r recs))) []
        (map (\<lambda>(_, r). record_to_json r) (rg_records g))"
    by (simp add: registry_load_def stored_records_def registry_json_def bindR_assoc)
  also have "\<dots> = Inr ([] @ map id (rg_records g))"
    unfolding fold_map [OF subset_refl]
    by (rule foldR_rebuild) (use assms in \<open>simp_all add: registry_wf_def\<close>)
  finally show ?thesis by simp
qed

text \<open>The document has no key twice, because numerals are read back.\<close>

lemma str_int_injective: "inj str_int"
  by (rule injI) (metis int_str_int sum.inject(2))

lemma registry_json_ok:
  assumes "registry_wf g"
  shows "json_ok (registry_json (rg_records g))"
proof -
  have "json_ok (record_to_json r)" if "dict_wf (forfeit_tx_hex_by_owner r)" for r
  proof -
    have "distinct (map fst (map (\<lambda>(k, v). (str_int k, JStr v)) kvs))" if "distinct (map fst kvs)"
      for kvs :: "(int \<times> string) list"
      using that by (induction kvs) (auto simp: inj_eq [OF str_int_injective], force)
    with that show ?thesis by (auto simp: record_to_json_def dict_wf_def)
  qed
  then show ?thesis using assms by (auto simp: registry_json_def registry_wf_def)
qed

lemma registry_reopen:
  assumes "registry_wf g" and "rg_file g = Some (Some (dump_bytes (Some 2) (registry_json (rg_records g))))"
  shows "registry_open (rg_file g) = Inr g"
proof -
  have "bindR (load_bytes (dump_bytes (Some 2) (registry_json (rg_records g)))) registry_load = Inr (rg_records g)"
    by (simp add: json_file.load_dump [OF registry_json_ok [OF assms(1)]] registry_load_json [OF assms(1)])
  then show ?thesis using assms(2) by (cases g) (simp add: registry_open_def)
qed

section \<open>Counting interventions\<close>

text \<open>The towers of \<open>is\<close> that hold a record of the channel count one intervention each.\<close>

definition bump :: "bytes \<Rightarrow> nat list \<Rightarrow> tower list \<Rightarrow> tower list" where
  "bump fid is tws = map (\<lambda>k. let tw = tws ! k
     in if k \<in> set is \<and> registry_get (tw_registry tw) fid \<noteq> None
        then tw\<lparr>interventions := interventions tw + 1\<rparr> else tw) [0..<length tws]"

lemma length_bump [simp]: "length (bump fid is tws) = length tws"
  by (simp add: bump_def)

lemma nth_bump:
  "k < length tws \<Longrightarrow> bump fid is tws ! k =
     (if k \<in> set is \<and> registry_get (tw_registry (tws ! k)) fid \<noteq> None
      then (tws ! k)\<lparr>interventions := interventions (tws ! k) + 1\<rparr> else tws ! k)"
  by (simp add: bump_def Let_def)

lemma bump_registry [simp]:
  "k < length tws \<Longrightarrow> tw_registry (bump fid is tws ! k) = tw_registry (tws ! k)"
  by (simp add: nth_bump)

lemma bump_Nil [simp]: "bump fid [] tws = tws"
  by (rule nth_equalityI) (simp_all add: nth_bump)

lemma bump_Cons:
  "i \<notin> set is \<Longrightarrow> bump fid (i # is) tws = bump fid is (bump fid [i] tws)"
  by (rule nth_equalityI) (auto simp: nth_bump)

lemma bump_one_idle:
  "i < length tws \<Longrightarrow> registry_get (tw_registry (tws ! i)) fid = None \<Longrightarrow> bump fid [i] tws = tws"
  by (rule nth_equalityI) (auto simp: nth_bump)

lemma count_intervention_bump:
  assumes "i < length (ww_towers W)" and "registry_get (tw_registry (ww_towers W ! i)) fid \<noteq> None"
  shows "count_intervention i W = W\<lparr>ww_towers := bump fid [i] (ww_towers W)\<rparr>"
proof -
  have "(ww_towers W)[i := (ww_towers W ! i)\<lparr>interventions := interventions (ww_towers W ! i) + 1\<rparr>] =
      bump fid [i] (ww_towers W)"
    using assms by (intro nth_equalityI) (auto simp: nth_bump nth_list_update)
  then show ?thesis by (simp add: count_intervention_def update_tower_def)
qed

section \<open>Answering a stale state\<close>

text \<open>A tower guards the channel \<open>fid\<close> with \<open>cur\<close> when that is what its record of \<open>fid\<close>, if any, holds.\<close>

definition guards :: "externals \<Rightarrow> bytes \<Rightarrow> tx \<Rightarrow> tower \<Rightarrow> bool" where
  "guards x fid cur tw \<longleftrightarrow>
     (\<forall>r. registry_get (tw_registry tw) fid = Some r \<longrightarrow> current_state_tx x r = Inr cur)"

lemma guards_bump [simp]:
  "k < length tws \<Longrightarrow> guards x fid cur (bump fid is tws ! k) = guards x fid cur (tws ! k)"
  by (simp add: guards_def)

text \<open>The transaction \<open>cur\<close> settles the output 0 of \<open>fid\<close> with the sequence number \<open>q\<close>.\<close>

definition settles :: "bytes \<Rightarrow> int \<Rightarrow> tx \<Rightarrow> bool" where
  "settles fid q t \<longleftrightarrow> (\<exists>i. tx_inputs t = [i] \<and> prev_hash i = fid \<and> prev_idx i = 0 \<and> sequence i = q)"

text \<open>The towers do not act on the current state itself.\<close>

lemma notify_current_idle:
  assumes "settles fid q cur" "settles fid p t" "q \<le> p" and "\<forall>k \<in> set is. guards x fid cur (ww_towers W ! k)"
  shows "notify_towers x submit is (tx_inputs t) W = Some W"
  using assms by (induction "is") (auto simp: settles_def guards_def split: option.splits)

text \<open>One tower that holds a record meets a stale state.\<close>

lemma observe_stale:
  assumes "settles fid q cur" "settles fid p t" "p < q"
    and "guards x fid cur (ww_towers W ! i)" "registry_get (tw_registry (ww_towers W ! i)) fid \<noteq> None"
    and "submit cur W = Some (Inr (r, W'))" "vr_ok r"
  shows "observe_inputs x submit i (tx_inputs t) W = Some (count_intervention i W')"
  using assms by (auto simp: settles_def guards_def)

lemma observe_unwatched:
  assumes "settles fid p t" and "registry_get (tw_registry (ww_towers W ! i)) fid = None"
  shows "observe_inputs x submit i (tx_inputs t) W = Some W"
  using assms by (auto simp: settles_def)

lemma submit_known:
  assumes "mp_contains (nd_mempool (ww_node W)) (x_txid x cur)"
  shows "submit_watched (Suc fuel) x cur W = Some (Inr (ValidationResult True AlreadyInMempool, W))"
  using assms by (simp add: submit_tx_def admit_def new_events_def)

text \<open>Once the current state is in the mempool the other towers find it there and count.\<close>

lemma notify_settled:
  assumes "settles fid q cur" "settles fid p t" "p < q"
    and "mp_contains (nd_mempool (ww_node W)) (x_txid x cur)"
    and "distinct is" "\<forall>k \<in> set is. k < length (ww_towers W) \<and> guards x fid cur (ww_towers W ! k)"
  shows "notify_towers x (submit_watched (Suc fuel) x) is (tx_inputs t) W =
    Some (W\<lparr>ww_towers := bump fid is (ww_towers W)\<rparr>)"
  using assms(4-6)
proof (induction "is" arbitrary: W)
  case (Cons i "is")
  have i: "i < length (ww_towers W)" "guards x fid cur (ww_towers W ! i)" "i \<notin> set is"
    using Cons.prems by simp_all
  have one: "observe_inputs x (submit_watched (Suc fuel) x) i (tx_inputs t) W =
      Some (W\<lparr>ww_towers := bump fid [i] (ww_towers W)\<rparr>)"
  proof (cases "registry_get (tw_registry (ww_towers W ! i)) fid")
    case None
    then show ?thesis
      by (simp add: observe_unwatched [OF assms(2) None] bump_one_idle [OF i(1) None] del: observe_inputs.simps)
  next
    case (Some rec)
    then have held: "registry_get (tw_registry (ww_towers W ! i)) fid \<noteq> None" by simp
    have "observe_inputs x (submit_watched (Suc fuel) x) i (tx_inputs t) W = Some (count_intervention i W)"
    proof (rule observe_stale [OF assms(1-3) i(2) held])
      show "submit_watched (Suc fuel) x cur W = Some (Inr (ValidationResult True AlreadyInMempool, W))"
        by (rule submit_known [OF Cons.prems(1)])
    qed simp
    then show ?thesis by (simp only: count_intervention_bump [OF i(1) held])
  qed
  let ?W1 = "W\<lparr>ww_towers := bump fid [i] (ww_towers W)\<rparr>"
  have "notify_towers x (submit_watched (Suc fuel) x) is (tx_inputs t) ?W1 =
      Some (?W1\<lparr>ww_towers := bump fid is (ww_towers ?W1)\<rparr>)"
    by (rule Cons.IH) (use Cons.prems in auto)
  then show ?case by (simp add: one bump_Cons [OF i(3)] del: submit_watched.simps)
qed simp

text \<open>The first holder's submission replaces the stale state, and its own notification is idle.\<close>

lemma submit_current:
  assumes "settles fid q cur"
    and "\<forall>k \<in> set (ww_observers W). guards x fid cur (ww_towers W ! k)"
    and "submit_tx x (ww_node W) cur = Inr (r, nd)"
    and "new_events (ww_node W) nd = [MpEvict old, MpReplace cur]"
  shows "submit_watched (Suc fuel) x cur W = Some (Inr (r, W\<lparr>ww_node := nd\<rparr>))"
  using notify_current_idle [OF assms(1,1) order_refl, of "ww_observers W" x "W\<lparr>ww_node := nd\<rparr>"
      "submit_watched fuel x"] assms(2-4)
  by simp

lemma notify_stale:
  assumes "settles fid q cur" "settles fid p t" "p < q"
    and "submit_tx x (ww_node W) cur = Inr (r, nd)" "vr_ok r"
    and "new_events (ww_node W) nd = [MpEvict old, MpReplace cur]"
    and "mp_contains (nd_mempool nd) (x_txid x cur)"
    and "distinct is" "set is \<subseteq> set (ww_observers W)"
    and "\<forall>k \<in> set (ww_observers W). k < length (ww_towers W) \<and> guards x fid cur (ww_towers W ! k)"
    and "\<exists>k \<in> set is. registry_get (tw_registry (ww_towers W ! k)) fid \<noteq> None"
  shows "notify_towers x (submit_watched (Suc fuel) x) is (tx_inputs t) W =
    Some (W\<lparr>ww_node := nd, ww_towers := bump fid is (ww_towers W)\<rparr>)"
  using assms(8,9,11)
proof (induction "is")
  case (Cons i "is")
  have i: "i < length (ww_towers W)" "guards x fid cur (ww_towers W ! i)" "i \<notin> set is"
    using Cons.prems assms(10) by auto
  show ?case
  proof (cases "registry_get (tw_registry (ww_towers W ! i)) fid")
    case None
    have "notify_towers x (submit_watched (Suc fuel) x) is (tx_inputs t) W =
        Some (W\<lparr>ww_node := nd, ww_towers := bump fid is (ww_towers W)\<rparr>)"
      by (rule Cons.IH) (use Cons.prems None in auto)
    then show ?thesis
      by (simp add: observe_unwatched [OF assms(2) None] bump_Cons [OF i(3)] bump_one_idle [OF i(1) None]
          del: submit_watched.simps)
  next
    case (Some rec)
    let ?W1 = "W\<lparr>ww_node := nd\<rparr>" and ?W2 = "W\<lparr>ww_node := nd, ww_towers := bump fid [i] (ww_towers W)\<rparr>"
    have held: "registry_get (tw_registry (ww_towers W ! i)) fid \<noteq> None" using Some by simp
    have "submit_watched (Suc fuel) x cur W = Some (Inr (r, ?W1))"
      by (rule submit_current [OF assms(1) _ assms(4,6)]) (use assms(10) in blast)
    from observe_stale [where submit = "submit_watched (Suc fuel) x", OF assms(1-3) i(2) held this assms(5)]
    have one: "observe_inputs x (submit_watched (Suc fuel) x) i (tx_inputs t) W = Some ?W2"
      using count_intervention_bump [of i ?W1 fid] i(1) held by simp
    have "notify_towers x (submit_watched (Suc fuel) x) is (tx_inputs t) ?W2 =
        Some (?W2\<lparr>ww_towers := bump fid is (ww_towers ?W2)\<rparr>)"
    proof (rule notify_settled [OF assms(1-3)])
      show "\<forall>k \<in> set is. k < length (ww_towers ?W2) \<and> guards x fid cur (ww_towers ?W2 ! k)"
        using Cons.prems assms(10) by auto
    qed (use Cons.prems assms(7) in simp_all)
    then show ?thesis by (simp add: one bump_Cons [OF i(3)] del: submit_watched.simps)
  qed
qed simp

text \<open>The successor of the one transaction that settles the channel output replaces it.\<close>

lemma admit_successor:
  assumes "mempool_wf x mp" and "dict_get (entries mp) k = Some e"
    and "settles fid p (me_tx e)" "settles fid q t" "p < q"
    and "\<not> mp_contains mp (x_txid x t)" and "vr_ok (validate_tx x t s False)"
  shows "admit x s mp t = Inr (validate_tx x t s False,
    notify (MpReplace t) (mp_insert x t (validate_tx x t s False) (snd (evict_internal k mp))))"
proof -
  obtain i where i: "tx_inputs (me_tx e) = [i]" "outpoint_of i = (fid, 0)" "sequence i = p"
    using assms(3) by (auto simp: settles_def outpoint_of_def)
  obtain j where j: "tx_inputs t = [j]" "outpoint_of j = (fid, 0)" "sequence j = q"
    using assms(4) by (auto simp: settles_def outpoint_of_def)
  have owner: "dict_get (spent_by mp) (fid, 0) = Some k"
    using mempool_wfD(4) [OF assms(1,2)] i by (simp add: tx_outpoints_def)
  have "k \<noteq> x_txid x t" using assms(2,6) by (auto simp: mp_contains_def)
  then have c: "conflicting_txids x mp t = {k}"
    by (simp add: conflicting_txids_def tx_outpoints_def j owner)
  have "sequence_violation (sequences_by_outpoint (me_tx e)) (tx_inputs t) = None"
    using assms(5) by (simp add: sequences_by_outpoint_def i j dict.get_put)
  then show ?thesis
    using assms(2,6,7) unfolding admit_def Let_def c by (simp add: dict_index_def)
qed

lemma submit_successor:
  assumes "mempool_wf x (nd_mempool nd)" and "dict_get (entries (nd_mempool nd)) (x_txid x t) = Some e"
    and "me_tx e = t" "settles fid p t" "settles fid q cur" "p < q"
    and "\<not> mp_contains (nd_mempool nd) (x_txid x cur)" and "vr_ok (validate_tx x cur (nd_blockstore nd) False)"
  obtains nd' where "submit_tx x nd cur = Inr (validate_tx x cur (nd_blockstore nd) False, nd')"
    "nd_blockstore nd' = nd_blockstore nd" "new_events nd nd' = [MpEvict t, MpReplace cur]"
    "mp_contains (nd_mempool nd') (x_txid x cur)" "\<not> mp_contains (nd_mempool nd') (x_txid x t)"
proof -
  let ?r = "validate_tx x cur (nd_blockstore nd) False"
  let ?mp1 = "snd (evict_internal (x_txid x t) (nd_mempool nd))"
  let ?mp = "notify (MpReplace cur) (mp_insert x cur ?r ?mp1)"
  have ad: "admit x (nd_blockstore nd) (nd_mempool nd) cur = Inr (?r, ?mp)"
    by (rule admit_successor [OF assms(1,2)]) (use assms in simp_all)
  have neq: "x_txid x t \<noteq> x_txid x cur" using assms(2,7) by (auto simp: mp_contains_def)
  have "new_events nd (nd\<lparr>nd_mempool := ?mp\<rparr>) = [MpEvict t, MpReplace cur]"
    using assms(2,3) by (simp add: new_events_def notify_def mp_insert_def Let_def evict_internal_def)
  moreover have "mp_contains ?mp (x_txid x cur)" by (simp add: mp_contains_def insert_entries)
  moreover have "\<not> mp_contains ?mp (x_txid x t)"
    using neq by (simp add: mp_contains_def insert_entries evict_entries [OF mempool_wfD(1) [OF assms(1)]])
  ultimately show ?thesis using ad by (intro that [of "nd\<lparr>nd_mempool := ?mp\<rparr>"]) (simp_all add: submit_tx_def)
qed

text \<open>What an admission of a new transaction puts into the node, and the events it causes.\<close>

lemma submit_admitted:
  assumes "submit_tx x nd t = Inr (r, nd1)" "vr_ok r" "\<not> mp_contains (nd_mempool nd) (x_txid x t)"
    and "mempool_wf x (nd_mempool nd)"
  obtains e es where "dict_get (entries (nd_mempool nd1)) (x_txid x t) = Some e" "me_tx e = t"
    "nd_blockstore nd1 = nd_blockstore nd" "mempool_wf x (nd_mempool nd1)"
    "\<And>k. mp_contains (nd_mempool nd1) k \<Longrightarrow> mp_contains (nd_mempool nd) k \<or> k = x_txid x t"
    "new_events nd nd1 = es" "es = [MpAdmit t] \<or> (\<exists>old. es = [MpEvict old, MpReplace t])"
proof -
  obtain mp where ad: "admit x (nd_blockstore nd) (nd_mempool nd) t = Inr (r, mp)"
    and nd1: "nd1 = nd\<lparr>nd_mempool := mp\<rparr>"
    using assms(1) by (auto simp: submit_tx_def bindR_eq_Inr)
  note wf = admit_wf [OF ad assms(4)] and dwf = mempool_wfD(1) [OF assms(4)]
  from ad show ?thesis
  proof (cases rule: admit_cases)
    case same
    with admit_verdict(1) [OF ad] assms(2,3) show ?thesis by simp
  next
    case plain
    show ?thesis
      by (rule that [of _ "[MpAdmit t]"])
         (use wf in \<open>auto simp: nd1 plain(1) insert_entries mp_contains_def new_events_def notify_def
            mp_insert_def Let_def dict.get_put split: if_splits\<close>)
  next
    case (replace k old)
    show ?thesis
      by (rule that [of _ "[MpEvict (me_tx old), MpReplace t]"])
         (use wf in \<open>auto simp: nd1 replace(1,6) insert_entries mp_contains_def new_events_def notify_def
            evict_internal_def mp_insert_def Let_def dict.get_put dict.get_del [OF dwf] split: if_splits\<close>)
  qed
qed

lemma deliver_admission:
  assumes "es = [MpAdmit t] \<or> (\<exists>old. es = [MpEvict old, MpReplace t])"
  shows "deliver x submit es W = notify_towers x submit (ww_observers W) (tx_inputs t) W"
  using assms by (auto split: option.splits)

text \<open>The watchtower's guarantee, for any set of attached towers.\<close>

lemma stale_state_answered:
  assumes "settles fid q cur" "settles fid p stale" "p < q"
    and "mempool_wf x (nd_mempool (ww_node W))"
    and "submit_tx x (ww_node W) stale = Inr (r, nd1)" "vr_ok r"
    and "\<not> mp_contains (nd_mempool (ww_node W)) (x_txid x stale)"
    and "\<not> mp_contains (nd_mempool (ww_node W)) (x_txid x cur)" "x_txid x cur \<noteq> x_txid x stale"
    and "vr_ok (validate_tx x cur (nd_blockstore (ww_node W)) False)"
    and "distinct (ww_observers W)"
    and "\<forall>k \<in> set (ww_observers W). k < length (ww_towers W) \<and> guards x fid cur (ww_towers W ! k)"
    and "\<exists>k \<in> set (ww_observers W). registry_get (tw_registry (ww_towers W ! k)) fid \<noteq> None"
  shows "\<exists>W'. submit_watched (Suc (Suc fuel)) x stale W = Some (Inr (r, W')) \<and>
    mp_contains (nd_mempool (ww_node W')) (x_txid x cur) \<and>
    \<not> mp_contains (nd_mempool (ww_node W')) (x_txid x stale) \<and>
    nd_blockstore (ww_node W') = nd_blockstore (ww_node W) \<and>
    ww_towers W' = bump fid (ww_observers W) (ww_towers W)"
proof -
  from submit_admitted [OF assms(5-7,4)] obtain e es where
    e: "dict_get (entries (nd_mempool nd1)) (x_txid x stale) = Some e" "me_tx e = stale"
    and bs: "nd_blockstore nd1 = nd_blockstore (ww_node W)" and wf1: "mempool_wf x (nd_mempool nd1)"
    and old: "\<And>k. mp_contains (nd_mempool nd1) k \<Longrightarrow>
      mp_contains (nd_mempool (ww_node W)) k \<or> k = x_txid x stale"
    and es: "new_events (ww_node W) nd1 = es" "es = [MpAdmit stale] \<or> (\<exists>old. es = [MpEvict old, MpReplace stale])"
    by metis
  have fresh: "\<not> mp_contains (nd_mempool nd1) (x_txid x cur)" using old assms(8,9) by blast
  have ok: "vr_ok (validate_tx x cur (nd_blockstore nd1) False)" using assms(10) bs by simp
  obtain nd2 where nd2: "submit_tx x nd1 cur = Inr (validate_tx x cur (nd_blockstore nd1) False, nd2)"
    "nd_blockstore nd2 = nd_blockstore nd1" "new_events nd1 nd2 = [MpEvict stale, MpReplace cur]"
    "mp_contains (nd_mempool nd2) (x_txid x cur)" "\<not> mp_contains (nd_mempool nd2) (x_txid x stale)"
    using submit_successor [OF wf1 e assms(2,1,3) fresh ok] .
  let ?W1 = "W\<lparr>ww_node := nd1\<rparr>"
  have "notify_towers x (submit_watched (Suc fuel) x) (ww_observers ?W1) (tx_inputs stale) ?W1 =
      Some (?W1\<lparr>ww_node := nd2, ww_towers := bump fid (ww_observers ?W1) (ww_towers ?W1)\<rparr>)"
    by (rule notify_stale [OF assms(1-3) _ ok _ nd2(4)]) (use nd2 assms(11-13) in simp_all)
  then have "submit_watched (Suc (Suc fuel)) x stale W =
      Some (Inr (r, W\<lparr>ww_node := nd2, ww_towers := bump fid (ww_observers W) (ww_towers W)\<rparr>))"
    by (simp add: assms(5) es(1) deliver_admission [OF es(2)] submit_watched.simps(2) [of "Suc fuel"]
        del: submit_watched.simps)
  with nd2 bs show ?thesis by simp
qed

section \<open>Clusters\<close>

text \<open>The tower a cluster creates for a specification.\<close>

definition fresh_tower :: "watcher_spec \<Rightarrow> tower" where
  "fresh_tower spec = \<lparr>tw_registry = \<lparr>rg_records = [], rg_file = None\<rparr>,
     tw_pubkey = Some (spec_pubkey spec), interventions = 0, forfeits = 0\<rparr>"

lemma fold_add_tower:
  "fold (\<lambda>spec. add_tower \<lparr>rg_records = [], rg_file = None\<rparr> (Some (spec_pubkey spec))) specs W =
    W\<lparr>ww_towers := ww_towers W @ map fresh_tower specs,
      ww_observers := ww_observers W @ [length (ww_towers W) ..< length (ww_towers W) + length specs]\<rparr>"
  by (induction specs arbitrary: W) (simp_all add: add_tower_def fresh_tower_def upt_rec)

lemma cluster_of_size_Inr:
  assumes "cluster_of_size specs W = Inr (cl, W')"
  shows "specs \<noteq> []" "cl = [length (ww_towers W) ..< length (ww_towers W) + length specs]"
    "W' = W\<lparr>ww_towers := ww_towers W @ map fresh_tower specs, ww_observers := ww_observers W @ cl\<rparr>"
  using assms by (auto simp: cluster_of_size_def fold_add_tower split: if_splits)

lemma cluster_record_Inr:
  assumes "cluster_record x ch cur offenders spec = Inr r"
  shows "wr_channel_id r = funding_txid x ch" "current_state_tx_hex r = x_tx_to_hex x cur"
    "horizon r = cfg_L0 (ch_cfg ch)"
  using assms by (auto simp: cluster_record_def bindR_eq_Inr)

text \<open>After registration every tower of the cluster holds a record of the channel with the current
  state; nothing else in the world changes.\<close>

definition watches :: "externals \<Rightarrow> channel \<Rightarrow> tx \<Rightarrow> tower \<Rightarrow> bool" where
  "watches x ch cur tw \<longleftrightarrow> (\<exists>r. registry_get (tw_registry tw) (funding_txid x ch) = Some r \<and>
     current_state_tx_hex r = x_tx_to_hex x cur)"

lemma tower_register_sel:
  assumes "i < length (ww_towers W)"
  shows "ww_node (tower_register i r W) = ww_node W" "ww_observers (tower_register i r W) = ww_observers W"
    "length (ww_towers (tower_register i r W)) = length (ww_towers W)"
    "k < length (ww_towers W) \<Longrightarrow> interventions (ww_towers (tower_register i r W) ! k) = interventions (ww_towers W ! k)"
    "k \<noteq> i \<Longrightarrow> ww_towers (tower_register i r W) ! k = ww_towers W ! k"
    "registry_get (tw_registry (ww_towers (tower_register i r W) ! i)) (wr_channel_id r) = Some r"
  using assms by (simp_all add: tower_register_def update_tower_def nth_list_update registry_get_register)

lemma register_each_Inr:
  assumes "register_each x ch cur offenders sis W = (Inr (), W')"
    and "distinct (map snd sis)" "\<forall>i \<in> snd ` set sis. i < length (ww_towers W)"
  shows "ww_node W' = ww_node W \<and> ww_observers W' = ww_observers W \<and>
    length (ww_towers W') = length (ww_towers W) \<and>
    (\<forall>k < length (ww_towers W). interventions (ww_towers W' ! k) = interventions (ww_towers W ! k) \<and>
       (if k \<in> snd ` set sis then watches x ch cur (ww_towers W' ! k)
        else ww_towers W' ! k = ww_towers W ! k))"
  using assms
proof (induction sis arbitrary: W)
  case (Cons si sis)
  obtain spec i where si: "si = (spec, i)" by (cases si)
  obtain r where r: "cluster_record x ch cur offenders spec = Inr r"
    and rest: "register_each x ch cur offenders sis (tower_register i r W) = (Inr (), W')"
    using Cons.prems(1) by (auto simp: si split: sum.splits)
  have i: "i < length (ww_towers W)" "i \<notin> snd ` set sis" using Cons.prems by (auto simp: si)
  note reg = tower_register_sel [where r = r, OF i(1)]
  have "\<forall>k \<in> snd ` set sis. k < length (ww_towers (tower_register i r W))"
    using Cons.prems(3) reg(3) by (simp add: si)
  note ih = Cons.IH [OF rest _ this]
  have held: "watches x ch cur (ww_towers (tower_register i r W) ! i)"
    using reg(6) cluster_record_Inr [OF r] by (auto simp: watches_def)
  show ?case
    using ih Cons.prems(2) reg(1-5) i held by (auto simp: si split: if_splits)
qed simp

lemma cluster_disable_Inr:
  assumes "cluster_disable cl is W = (Inr (), W')" and "distinct (ww_observers W)"
  shows "ww_node W' = ww_node W" "ww_towers W' = ww_towers W" "distinct (ww_observers W')"
    "set (ww_observers W') = set (ww_observers W) - (\<lambda>i. cl ! nat i) ` set is"
    "\<forall>i \<in> set is. 0 \<le> i \<and> i < int (length cl)"
  using assms by (induction "is" arbitrary: W) (auto simp: set_remove1_eq split: if_splits)

lemma total_interventions_bump:
  assumes "\<forall>i \<in> set cl. i < length (ww_towers W) \<and> interventions (ww_towers W ! i) = 0 \<and>
      registry_get (tw_registry (ww_towers W ! i)) fid \<noteq> None"
    and "distinct cl" "ww_towers W' = bump fid obs (ww_towers W)"
  shows "total_interventions cl W' = int (card (set cl \<inter> set obs))"
proof -
  have "map (\<lambda>i. interventions (ww_towers W' ! i)) cl = map (\<lambda>i. if i \<in> set obs then 1 else 0) cl"
    using assms(1,3) by (auto simp: nth_bump)
  then have "total_interventions cl W' = (\<Sum>i \<in> set cl. if i \<in> set obs then 1 else 0)"
    using assms(2) by (simp add: total_interventions_def sum_list_distinct_conv_sum_set)
  then show ?thesis by (simp add: sum.If_cases Int_def)
qed

end
