(* ===== verification/Watchtower_Properties.thy ===== *)
theory Watchtower_Properties
  imports Watchtower_Facts Channel_Properties Sample_Chain
begin

text \<open>
  The watchtower's properties: one attached tower of a cluster is enough to defend a channel, and a
  registry survives a restart.
\<close>

section \<open>Defending a channel\<close>

lemma signed_state_settles:
  assumes "channel_wf x ch" and "valid_state (ch_cfg ch) st" and "sign_state_tx x ch st = Inr (t, us)"
  shows "settles (funding_txid x ch) (version st) t"
proof -
  have conf: "ch_funding_confirmed ch"
    using assms(3) unconfirmed_refused [of ch] by (cases "ch_funding_confirmed ch") auto
  have v: "version st < 0xFFFFFFFF"
    using assms(3) build_state_tx_exhausted [OF assms(1,2)] conf
    by (cases "version st < 0xFFFFFFFF") (auto simp: sign_state_tx_def require_confirmed_def)
  from sign_state_tx_ok [OF assms(1,2) v conf] assms(3)
  have view: "unsigned_view t = unsigned_view (state_tx x ch st)" by auto
  from unsigned_viewD(5,6) [OF view] show ?thesis
    by (auto simp: state_tx_def settles_def outpoint_of_def)
qed

text \<open>What a cluster looks like once the channel is registered and some towers are offline.\<close>

lemma cluster_online:
  assumes "cluster_of_size specs W0 = Inr (cl, W1)"
    and "register_channel x cl ch specs offenders W1 = (Inr (), W2)"
    and "cluster_disable cl off W2 = (Inr (), W3)"
    and "distinct (ww_observers W0)" "\<forall>k \<in> set (ww_observers W0). k < length (ww_towers W0)"
    and "sign_state_tx x ch (ch_state ch) = Inr (cur, us)"
  shows "ww_node W3 = ww_node W0" "distinct cl" "distinct (ww_observers W3)"
    "\<forall>k \<in> set cl. k < length (ww_towers W3) \<and> interventions (ww_towers W3 ! k) = 0 \<and>
       watches x ch cur (ww_towers W3 ! k)"
    "\<forall>k \<in> set (ww_observers W3) - set cl. k \<in> set (ww_observers W0) \<and> k < length (ww_towers W3) \<and>
       ww_towers W3 ! k = ww_towers W0 ! k"
    "set cl \<inter> set (ww_observers W3) = (\<lambda>k. cl ! k) ` {k. k < length cl \<and> int k \<notin> set off}"
proof -
  let ?n = "length (ww_towers W0)"
  note c = cluster_of_size_Inr [OF assms(1)]
  have len: "length specs = length cl" using c(2) by simp
  have each: "register_each x ch cur offenders (zip specs cl) W1 = (Inr (), W2)"
    using assms(2,6) len by (simp add: register_channel_def cluster_size_def)
  have idx: "map snd (zip specs cl) = cl" "snd ` set (zip specs cl) = set cl"
    using len set_map [of snd "zip specs cl"] by simp_all
  have cl: "distinct cl" "\<And>k. k \<in> set cl \<longleftrightarrow> ?n \<le> k \<and> k < ?n + length cl" "\<And>k. k < length cl \<Longrightarrow> cl ! k = ?n + k"
    by (subst c(2); simp add: len)+
  have W1: "length (ww_towers W1) = ?n + length cl" "ww_node W1 = ww_node W0"
    "ww_observers W1 = ww_observers W0 @ cl" "\<And>k. k < ?n \<Longrightarrow> ww_towers W1 ! k = ww_towers W0 ! k"
    "\<And>k. k \<in> set cl \<Longrightarrow> interventions (ww_towers W1 ! k) = 0"
  proof -
    show "interventions (ww_towers W1 ! k) = 0" if "k \<in> set cl" for k
    proof -
      have "?n \<le> k" "k - ?n < length specs" using that cl(2) [of k] len by auto
      then show ?thesis unfolding c(3) by (simp add: nth_append fresh_tower_def)
    qed
  qed (use len in \<open>simp_all add: c(3) nth_append\<close>)
  have re: "ww_node W2 = ww_node W1 \<and> ww_observers W2 = ww_observers W1 \<and>
    length (ww_towers W2) = length (ww_towers W1) \<and>
    (\<forall>k < length (ww_towers W1). interventions (ww_towers W2 ! k) = interventions (ww_towers W1 ! k) \<and>
       (if k \<in> snd ` set (zip specs cl) then watches x ch cur (ww_towers W2 ! k)
        else ww_towers W2 ! k = ww_towers W1 ! k))"
  proof (rule register_each_Inr [OF each])
    show "distinct (map snd (zip specs cl))" unfolding idx(1) by (rule cl(1))
    show "\<forall>i \<in> snd ` set (zip specs cl). i < length (ww_towers W1)" unfolding idx(2) W1(1) using cl(2) by blast
  qed
  have reg: "ww_node W2 = ww_node W1" "ww_observers W2 = ww_observers W1"
    "length (ww_towers W2) = length (ww_towers W1)"
    "\<And>k. k < length (ww_towers W1) \<Longrightarrow> interventions (ww_towers W2 ! k) = interventions (ww_towers W1 ! k)"
    "\<And>k. k \<in> set cl \<Longrightarrow> watches x ch cur (ww_towers W2 ! k)"
    "\<And>k. k < length (ww_towers W1) \<Longrightarrow> k \<notin> set cl \<Longrightarrow> ww_towers W2 ! k = ww_towers W1 ! k"
  proof -
    show "watches x ch cur (ww_towers W2 ! k)" if "k \<in> set cl" for k
      using re that cl(2) [of k] unfolding idx(2) W1(1) by simp
    show "ww_towers W2 ! k = ww_towers W1 ! k" if "k < length (ww_towers W1)" "k \<notin> set cl" for k
      using re that unfolding idx(2) by simp
  qed (use re in simp_all)
  have d: "distinct (ww_observers W2)"
    using assms(4,5) cl reg(2) W1(3) by (auto dest: bspec)
  note off = cluster_disable_Inr [OF assms(3) d]
  show "ww_node W3 = ww_node W0" "distinct cl" "distinct (ww_observers W3)"
    using off reg W1 cl by simp_all
  show "\<forall>k \<in> set cl. k < length (ww_towers W3) \<and> interventions (ww_towers W3 ! k) = 0 \<and>
      watches x ch cur (ww_towers W3 ! k)"
    using off(2) reg W1 cl by simp
  show "\<forall>k \<in> set (ww_observers W3) - set cl. k \<in> set (ww_observers W0) \<and> k < length (ww_towers W3) \<and>
      ww_towers W3 ! k = ww_towers W0 ! k"
    using off(2,4) reg W1 assms(5) by auto
  have "cl ! k \<in> (\<lambda>i. cl ! nat i) ` set off \<longleftrightarrow> int k \<in> set off" if "k < length cl" for k
    using off(5) cl(3) that by (force simp: image_iff)
  then show "set cl \<inter> set (ww_observers W3) = (\<lambda>k. cl ! k) ` {k. k < length cl \<and> int k \<notin> set off}"
    using off(4) reg(2) W1(3) by (auto simp: in_set_conv_nth)
qed

text \<open>C1. One live watcher is enough.  A cluster of towers is created, the channel is registered with
  it, and some of the towers go offline, but not all.  When a superseded state of the channel then
  enters the mempool, the submission returns with the current state in the mempool and the superseded
  one gone; the chain state is untouched, and every tower still online has counted an intervention
  (the later ones, too, whose submission found the current state already there).\<close>

theorem one_live_watcher_defends:
  assumes "channel_wf x ch" and "cluster_of_size specs W0 = Inr (cl, W1)"
    and "register_channel x cl ch specs offenders W1 = (Inr (), W2)"
    and "cluster_disable cl off W2 = (Inr (), W3)" and "i < length cl" "int i \<notin> set off"
    and "distinct (ww_observers W0)"
    and "\<forall>k \<in> set (ww_observers W0). k < length (ww_towers W0) \<and>
      registry_get (tw_registry (ww_towers W0 ! k)) (funding_txid x ch) = None"
    and "sign_state_tx x ch (ch_state ch) = Inr (cur, us)" and "x_tx_from_hex x (x_tx_to_hex x cur) = Inr cur"
    and "valid_state (ch_cfg ch) old" "version old < version (ch_state ch)"
    and "sign_state_tx x ch old = Inr (stale, vs)" and "x_txid x cur \<noteq> x_txid x stale"
    and "mempool_wf x (nd_mempool (ww_node W0))" "submit_tx x (ww_node W0) stale = Inr (r, nd)" "vr_ok r"
    and "\<not> mp_contains (nd_mempool (ww_node W0)) (x_txid x stale)"
    and "\<not> mp_contains (nd_mempool (ww_node W0)) (x_txid x cur)"
    and "tx_valid x (nd_blockstore (ww_node W0)) cur"
  shows "\<exists>W'. submit_watched (Suc (Suc fuel)) x stale W3 = Some (Inr (r, W')) \<and>
    mp_contains (nd_mempool (ww_node W')) (x_txid x cur) \<and>
    \<not> mp_contains (nd_mempool (ww_node W')) (x_txid x stale) \<and>
    nd_blockstore (ww_node W') = nd_blockstore (ww_node W0) \<and>
    total_interventions cl W' = int (card {k. k < length cl \<and> int k \<notin> set off})"
proof -
  let ?fid = "funding_txid x ch"
  have obs0: "\<forall>k \<in> set (ww_observers W0). k < length (ww_towers W0)" using assms(8) by blast
  note cl = cluster_online [OF assms(2-4,7) obs0 assms(9)]
  have cur: "settles ?fid (version (ch_state ch)) cur"
    by (rule signed_state_settles [OF assms(1) channel_wfD(3) [OF assms(1)] assms(9)])
  have stale: "settles ?fid (version old) stale"
    by (rule signed_state_settles [OF assms(1,11,13)])
  have held: "guards x ?fid cur tw" "registry_get (tw_registry tw) ?fid \<noteq> None"
    if "watches x ch cur tw" for tw
    using that assms(10) by (auto simp: watches_def guards_def current_state_tx_def)
  have all: "\<forall>k \<in> set (ww_observers W3). k < length (ww_towers W3) \<and> guards x ?fid cur (ww_towers W3 ! k)"
  proof
    fix k assume "k \<in> set (ww_observers W3)"
    then show "k < length (ww_towers W3) \<and> guards x ?fid cur (ww_towers W3 ! k)"
      using cl(4,5) held(1) assms(8) by (cases "k \<in> set cl") (auto simp: guards_def)
  qed
  have "cl ! i \<in> set cl \<inter> set (ww_observers W3)" using cl(6) assms(5,6) by blast
  then have live: "\<exists>k \<in> set (ww_observers W3). registry_get (tw_registry (ww_towers W3 ! k)) ?fid \<noteq> None"
    using cl(4) held(2) by blast
  obtain W' where W': "submit_watched (Suc (Suc fuel)) x stale W3 = Some (Inr (r, W'))"
    "mp_contains (nd_mempool (ww_node W')) (x_txid x cur)"
    "\<not> mp_contains (nd_mempool (ww_node W')) (x_txid x stale)"
    "nd_blockstore (ww_node W') = nd_blockstore (ww_node W3)"
    "ww_towers W' = bump ?fid (ww_observers W3) (ww_towers W3)"
    using stale_state_answered [where W = W3 and fuel = fuel, OF cur stale assms(12) _ _ assms(17) _ _ assms(14) _ cl(3) all live]
      assms(15,16,18,19,20) cl(1) by (auto simp: validate_tx_ok_iff)
  have "\<forall>k \<in> set cl. k < length (ww_towers W3) \<and> interventions (ww_towers W3 ! k) = 0 \<and>
      registry_get (tw_registry (ww_towers W3 ! k)) ?fid \<noteq> None"
    using cl(4) held(2) by blast
  from total_interventions_bump [OF this cl(2) W'(5)]
  have "total_interventions cl W' = int (card {k. k < length cl \<and> int k \<notin> set off})"
    unfolding cl(6) using cl(2) by (subst (asm) card_image) (auto simp: inj_on_def nth_eq_iff_index_eq)
  with W' cl(1) show ?thesis by auto
qed

section \<open>The sample channel under watch\<close>

definition sample_fid :: bytes where
  "sample_fid = 0 # 3 # replicate 30 0"

lemma sample_funding_tx:
  "ch_funding_tx sample_open = Tx 1 [TxInput [1] 3 [] FINAL_SEQUENCE]
     (TxOutput (cfg_S sample_cfg) (funding_lock sample sample_keys) #
      map (\<lambda>i. TxOutput (cfg_bonds sample_cfg ! nat i) (bond_lock sample sample_keys (cfg_n sample_cfg) i))
        (py_range (cfg_n sample_cfg))) 0"
proof -
  let ?ftx = "Tx 1 [TxInput [1] 3 [] FINAL_SEQUENCE]
      (TxOutput (cfg_S sample_cfg) (funding_lock sample sample_keys) #
       map (\<lambda>i. TxOutput (cfg_bonds sample_cfg ! nat i) (bond_lock sample sample_keys (cfg_n sample_cfg) i))
         (py_range (cfg_n sample_cfg))) 0"
  have canon: "canonical_funding sample sample_cfg sample_keys ?ftx"
    by (rule open_canonical [OF sample_cfg_valid])
  obtain us where us: "wrap_funding sample sample_cfg sample_keys ?ftx us = Inr sample_open"
    using sample_open_Inr unfolding channel_open_eq [OF sample_cfg_valid sample_keys_n] fst_conv snd_conv
    by blast
  show ?thesis
    using wrap_funding_wf [OF sample_cfg_valid sample_keys_n canon, of us] unfolding us by auto
qed

lemma sample_fid_eq: "funding_txid sample sample_channel = sample_fid"
proof -
  have "word_of_int (FINAL_SEQUENCE + 1) = (0 :: byte)" by (simp add: sequence_constants)
  then show ?thesis
    by (simp add: funding_txid_def sample_txid_def sample_funding_tx sample_fid_def take_Cons')
      (simp add: numeral_eq_Suc)
qed

definition sample_funds :: blockstore where
  "sample_funds = add_utxo \<lparr>ue_txid = sample_fid, ue_vout = 0, ue_value = 7, ue_script = [], ue_height = 1\<rparr>
     empty_blockstore"

lemma sample_signed:
  assumes "sign_state_tx sample sample_channel st = Inr (t, us)" and "valid_state sample_cfg st"
  shows "sample_txid t = 0 # 0 # word_of_int (version st + 1) # replicate 29 0"
    and "get_utxo store (sample_fid, 0) = Some e \<Longrightarrow> ue_value e = 7 \<Longrightarrow> tx_valid sample store t"
proof -
  have v: "version st < 0xFFFFFFFF"
    using assms build_state_tx_exhausted [OF sample_channel_wf, of st]
    by (cases "version st < 0xFFFFFFFF") (auto simp: sign_state_tx_def require_confirmed_def)
  obtain s where b: "build_state_tx sample sample_channel st =
      Inr (state_tx sample sample_channel st, [TxOutput 7 s])"
    using build_state_tx_eq [OF sample_channel_wf _ v] assms(2) by (auto simp: sample_cfg_def)
  obtain sigs where t: "t = set_script_sig (state_tx sample sample_channel st) 0 (Op OP_0 # map Push sigs)"
    using assms(1) b by (auto simp: sign_state_tx_def require_confirmed_def bindR_eq_Inr
        channel_funding_unlock_def push_sigs_eq split: if_splits)
  have ins: "tx_inputs t = [TxInput sample_fid 0 (Op OP_0 # map Push sigs) (version st)]"
    by (simp add: t set_script_sig_def state_tx_def sample_fid_eq)
  have outs: "tx_outputs t = payouts sample sample_channel
      (map (netting_payout st sample_cfg) (py_range (cfg_n sample_cfg)))" "tx_locktime t = 0"
    by (simp_all add: t state_tx_def)
  show "sample_txid t = 0 # 0 # word_of_int (version st + 1) # replicate 29 0"
    by (simp add: sample_txid_def ins outs numeral_eq_Suc)
  have coin: "sample_fid \<noteq> replicate 32 0"
  proof
    assume "sample_fid = replicate 32 0"
    then have "sample_fid ! 1 = replicate 32 0 ! 1" by simp
    then show False by (simp add: sample_fid_def)
  qed
  have total: "outputs_total (tx_outputs t) = 7"
    using state_tx_total [of sample_channel st sample] sample_cfg_valid assms(2)
    by (simp add: t) (simp add: sample_cfg_def)
  show "tx_valid sample store t" if "get_utxo store (sample_fid, 0) = Some e" "ue_value e = 7"
    using coin total
    by (simp add: tx_valid_def ins input_ok_def input_value_def outpoint_of_def that spend_verifies_iff)
      (simp add: outs payouts_def)
qed

lemma sample_funds_get:
  "get_utxo sample_funds (sample_fid, 0) =
     Some \<lparr>ue_txid = sample_fid, ue_vout = 0, ue_value = 7, ue_script = [], ue_height = 1\<rparr>"
  by (simp add: get_utxo_def sample_funds_def add_utxo_def empty_blockstore_def sql_replace_def
      sql_delete_def sql_select_def entry_of_row_def row_of_entry_def)

text \<open>Two towers watch the sample channel, the first is offline, and a state that the current one
  supersedes is broadcast.\<close>

definition sample_world :: watch_world where
  "sample_world = \<lparr>ww_node = sample_node\<lparr>nd_blockstore := sample_funds\<rparr>, ww_towers = [], ww_observers = []\<rparr>"

definition sample_specs :: "watcher_spec list" where
  "sample_specs = [\<lparr>spec_pubkey = PublicKey [9], fee_per_intervention = 1\<rparr>,
     \<lparr>spec_pubkey = PublicKey [9], fee_per_intervention = 1\<rparr>]"

definition sample_old_state :: state where
  "sample_old_state = \<lparr>balances = [35, 10, 25], version = 3\<rparr>"

theorem one_live_watcher_defends_witness:
  "\<exists>cl W1 W2 W3 cur stale us r W'.
     cluster_of_size sample_specs sample_world = Inr (cl, W1) \<and>
     register_channel sample cl sample_channel sample_specs [2] W1 = (Inr (), W2) \<and>
     cluster_disable cl [0] W2 = (Inr (), W3) \<and>
     sign_state_tx sample sample_channel sample_state = Inr (cur, us) \<and>
     submit_watched 2 sample stale W3 = Some (Inr (r, W')) \<and>
     mp_contains (nd_mempool (ww_node W')) (x_txid sample cur) \<and>
     \<not> mp_contains (nd_mempool (ww_node W')) (x_txid sample stale) \<and>
     total_interventions cl W' = 1"
proof -
  have old: "valid_state sample_cfg sample_old_state"
    by (simp add: valid_state_def sample_cfg_def sample_old_state_def)
  obtain cur us where cur: "sign_state_tx sample sample_channel sample_state = Inr (cur, us)"
    using sign_state_tx_ok [OF sample_channel_wf, of sample_state] sample_state_valid
    by (auto simp: sample_state_def)
  obtain stale vs where stale: "sign_state_tx sample sample_channel sample_old_state = Inr (stale, vs)"
    using sign_state_tx_ok [OF sample_channel_wf, of sample_old_state] old
    by (auto simp: sample_old_state_def)
  note cur' = sample_signed(1) [OF cur sample_state_valid] sample_signed(2) [OF cur sample_state_valid sample_funds_get, simplified]
  note stale' = sample_signed(1) [OF stale old] sample_signed(2) [OF stale old sample_funds_get, simplified]
  obtain W1 where W1: "cluster_of_size sample_specs sample_world = Inr ([0, 1], W1)"
    and obs: "ww_observers W1 = [0, 1]" "length (ww_towers W1) = 2"
    by (simp add: cluster_of_size_def sample_specs_def sample_world_def add_tower_def upt_rec)
  obtain ft fus where f: "forfeit_bond_tx sample sample_channel 2 (Some (PublicKey [9])) 1 = Inr (ft, fus)"
    using sample_forfeit by blast
  then have spec: "cluster_record sample sample_channel cur [2]
      \<lparr>spec_pubkey = PublicKey [9], fee_per_intervention = 1\<rparr> =
      Inr \<lparr>wr_channel_id = funding_txid sample sample_channel, current_state_tx_hex = x_tx_to_hex sample cur,
        forfeit_tx_hex_by_owner = dict_put 2 (x_tx_to_hex sample ft) [], horizon = cfg_L0 (ch_cfg sample_channel)\<rparr>"
    by (simp add: cluster_record_def)
  obtain W2 where W2: "register_channel sample [0, 1] sample_channel sample_specs [2] W1 = (Inr (), W2)"
    using cur by (simp add: register_channel_def cluster_size_def sample_specs_def spec)
  obtain W3 where W3: "cluster_disable [0, 1] [0] W2 = (Inr (), W3)" by simp
  have empty: "nd_mempool (ww_node sample_world) = empty_mempool"
    "nd_blockstore (ww_node sample_world) = sample_funds" "ww_observers sample_world = []"
    by (simp_all add: sample_world_def sample_node_eq(2))
  obtain r nd where sub: "submit_tx sample (ww_node sample_world) stale = Inr (r, nd)" "vr_ok r"
    using stale'(2) by (auto simp: submit_tx_def empty admit_def empty_mempool_def mp_contains_def
        conflicting_txids_def validate_tx_ok_iff Let_def)
  have ids: "x_txid sample cur \<noteq> x_txid sample stale"
    by (simp add: cur'(1) stale'(1) sample_state_def sample_old_state_def)
  have "{k. k < length [0 :: nat, 1] \<and> int k \<notin> set [0]} = {1}" by auto
  then have one: "int (card {k. k < length [0 :: nat, 1] \<and> int k \<notin> set [0]}) = 1" by simp
  have run: "\<exists>W'. submit_watched (Suc (Suc 0)) sample stale W3 = Some (Inr (r, W')) \<and>
    mp_contains (nd_mempool (ww_node W')) (x_txid sample cur) \<and>
    \<not> mp_contains (nd_mempool (ww_node W')) (x_txid sample stale) \<and>
    nd_blockstore (ww_node W') = nd_blockstore (ww_node sample_world) \<and>
    total_interventions [0, 1] W' = int (card {k. k < length [0 :: nat, 1] \<and> int k \<notin> set [0]})"
  proof (rule one_live_watcher_defends [OF sample_channel_wf W1 W2 W3, of 1])
    show "sign_state_tx sample sample_channel (ch_state sample_channel) = Inr (cur, us)"
      using cur by simp
    show "valid_state (ch_cfg sample_channel) sample_old_state" using old by simp
    show "sign_state_tx sample sample_channel sample_old_state = Inr (stale, vs)" by (rule stale)
    show "version sample_old_state < version (ch_state sample_channel)"
      by (simp add: sample_old_state_def) (simp add: sample_state_def)
  qed (use ids sub cur'(2) in \<open>simp_all add: empty empty_mempool_wf\<close>, simp_all add: mp_contains_def empty_mempool_def)
  show ?thesis
    using run W1 W2 W3 cur unfolding one numeral_2_eq_2 by blast
qed

section \<open>Restarting a tower\<close>

text \<open>A registry with a file survives a restart: what is opened from the file after a
  registration is the registry that wrote it, with the new record under its channel and every other
  record as it was.\<close>

theorem registry_survives_restart:
  assumes "registry_wf g" and "dict_wf (forfeit_tx_hex_by_owner rec)" and "rg_file g = Some fl"
  shows "\<exists>g'. registry_open (rg_file (registry_register rec g)) = Inr g' \<and>
    g' = registry_register rec g \<and> registry_wf g' \<and>
    (\<forall>k. registry_get g' k = (if k = wr_channel_id rec then Some rec else registry_get g k))"
proof -
  let ?g = "registry_register rec g"
  have wf: "registry_wf ?g" by (rule registry_wf_register [OF assms(1,2)])
  have "rg_file ?g = Some (Some (dump_bytes (Some 2) (registry_json (rg_records ?g))))"
    using assms(3) by (simp add: registry_register_def registry_save_def)
  then have "registry_open (rg_file ?g) = Inr ?g" by (rule registry_reopen [OF wf])
  with wf show ?thesis by (simp add: registry_get_register)
qed

theorem registry_survives_restart_witness:
  "\<exists>g. registry_open (rg_file (registry_register
      \<lparr>wr_channel_id = [1, 2], current_state_tx_hex = ''ab'', forfeit_tx_hex_by_owner = [(0, ''cd'')], horizon = 9\<rparr>
      \<lparr>rg_records = [], rg_file = Some None\<rparr>)) = Inr g \<and>
    map_option horizon (registry_get g [1, 2]) = Some 9"
  using registry_survives_restart [of "\<lparr>rg_records = [], rg_file = Some None\<rparr>"
      "\<lparr>wr_channel_id = [1, 2], current_state_tx_hex = ''ab'', forfeit_tx_hex_by_owner = [(0, ''cd'')], horizon = 9\<rparr>"
      None]
  by (auto simp: dict_wf_def)

end
