(* ===== verification/Channel_Manager.thy ===== *)
theory Channel_Manager
  imports Persistence
begin

text \<open>
  \<open>runtime/manager.py\<close>: the registry of channels with its durable store.  An operation returns its
  result together with the manager, which an exception may leave changed.  Threads are modelled by a
  step relation: what a thread does while it holds a channel's lock is one step, what it does before
  it takes the lock is a step of its own.
\<close>

section \<open>Operations\<close>

record manager =
  mg_store :: system_store
  mg_channels :: "(bytes, channel) pydict"
  mg_locks :: "bytes set"
  mg_closed :: "bytes set"

definition new_manager :: "system_store \<Rightarrow> manager" where
  "new_manager s = \<lparr>mg_store = s, mg_channels = [], mg_locks = {}, mg_closed = {}\<rparr>"

text \<open>Persist a channel and return \<open>r\<close> when that succeeds.\<close>

definition persist_then :: "externals \<Rightarrow> channel \<Rightarrow> 'a \<Rightarrow> manager \<Rightarrow> 'a result \<times> manager" where
  "persist_then x ch r mg =
     (let (u, s) = persist_channel x (mg_store mg) ch
      in (bindR u (\<lambda>_. return r), mg\<lparr>mg_store := s\<rparr>))"

definition mg_add :: "externals \<Rightarrow> channel \<Rightarrow> manager \<Rightarrow> bytes result \<times> manager" where
  "mg_add x ch mg =
     (let channel_id = funding_txid x ch
      in if dict_get (mg_channels mg) channel_id \<noteq> None then (raise ManagerError, mg)
         else persist_then x ch channel_id
           (mg\<lparr>mg_channels := dict_put channel_id ch (mg_channels mg),
               mg_locks := insert channel_id (mg_locks mg)\<rparr>))"

definition mg_get :: "manager \<Rightarrow> bytes \<Rightarrow> channel result" where
  "mg_get mg channel_id =
     (case dict_get (mg_channels mg) channel_id of None \<Rightarrow> raise ManagerError | Some ch \<Rightarrow> return ch)"

text \<open>\<open>with self.locked(channel_id) as ch\<close>\<close>

definition mg_locked ::
  "bytes \<Rightarrow> (channel \<Rightarrow> manager \<Rightarrow> 'a result \<times> manager) \<Rightarrow> manager \<Rightarrow> 'a result \<times> manager" where
  "mg_locked channel_id body mg =
     (if channel_id \<notin> mg_locks mg then (raise ManagerError, mg)
      else case dict_get (mg_channels mg) channel_id of
             None \<Rightarrow> (raise PyKeyError, mg)
           | Some ch \<Rightarrow> body ch mg)"

definition transfer_locked ::
  "externals \<Rightarrow> bytes \<Rightarrow> int \<Rightarrow> int \<Rightarrow> int \<Rightarrow> manager \<Rightarrow> int result \<times> manager" where
  "transfer_locked x channel_id s r d =
     mg_locked channel_id (\<lambda>ch mg.
       case apply_transfer ch s r d of
         Inl e \<Rightarrow> (raise e, mg)
       | Inr ch' \<Rightarrow> persist_then x ch' (version (ch_state ch'))
           (mg\<lparr>mg_channels := dict_put channel_id ch' (mg_channels mg)\<rparr>))"

definition mg_apply_transfer ::
  "externals \<Rightarrow> bytes \<Rightarrow> int \<Rightarrow> int \<Rightarrow> int \<Rightarrow> manager \<Rightarrow> int result \<times> manager" where
  "mg_apply_transfer x channel_id s r d mg =
     (if channel_id \<in> mg_closed mg then (raise StateError, mg)
      else transfer_locked x channel_id s r d mg)"

definition mg_cooperative_close ::
  "externals \<Rightarrow> bytes \<Rightarrow> manager \<Rightarrow> (tx \<times> txoutput list) result \<times> manager" where
  "mg_cooperative_close x channel_id =
     mg_locked channel_id (\<lambda>ch mg.
       if channel_id \<in> mg_closed mg then (raise StateError, mg)
       else case cooperative_close x ch None of
              Inl e \<Rightarrow> (raise e, mg)
            | Inr txu \<Rightarrow> persist_then x ch txu (mg\<lparr>mg_closed := insert channel_id (mg_closed mg)\<rparr>))"

section \<open>Threads\<close>

text \<open>A transfer looks at the closed channels before it takes the lock, a close does so while it
  holds it.  A thread waits to start, has passed the look, or is done.\<close>

datatype job = TransferJob bytes int int int | CloseJob bytes

datatype thread = Waiting job | Looked job | Done "exn option"

definition outcome :: "'a result \<Rightarrow> thread" where
  "outcome r = Done (case r of Inl e \<Rightarrow> Some e | Inr _ \<Rightarrow> None)"

inductive mstep :: "externals \<Rightarrow> manager \<times> thread list \<Rightarrow> manager \<times> thread list \<Rightarrow> bool" for x where
  refuse: "i < length ts \<Longrightarrow> ts ! i = Waiting (TransferJob c s r d) \<Longrightarrow> c \<in> mg_closed mg \<Longrightarrow>
    mstep x (mg, ts) (mg, ts[i := Done (Some StateError)])"
| look: "i < length ts \<Longrightarrow> ts ! i = Waiting (TransferJob c s r d) \<Longrightarrow> c \<notin> mg_closed mg \<Longrightarrow>
    mstep x (mg, ts) (mg, ts[i := Looked (TransferJob c s r d)])"
| transfer: "i < length ts \<Longrightarrow> ts ! i = Looked (TransferJob c s r d) \<Longrightarrow>
    transfer_locked x c s r d mg = (res, mg') \<Longrightarrow>
    mstep x (mg, ts) (mg', ts[i := outcome res])"
| close: "i < length ts \<Longrightarrow> ts ! i = Waiting (CloseJob c) \<Longrightarrow>
    mg_cooperative_close x c mg = (res, mg') \<Longrightarrow>
    mstep x (mg, ts) (mg', ts[i := outcome res])"

inductive_cases mstepE: "mstep x (mg, ts) (mg', ts')"

inductive mrun :: "externals \<Rightarrow> manager \<times> thread list \<Rightarrow> manager \<times> thread list \<Rightarrow> bool" for x where
  stop: "mrun x st st"
| run: "mstep x st st1 \<Longrightarrow> mrun x st1 st2 \<Longrightarrow> mrun x st st2"

section \<open>Progress\<close>

text \<open>A thread takes at most two steps, and one that is not done can take a step; \<open>proper\<close> excludes a
  close that has passed a look it does not make.\<close>

fun steps_left :: "thread \<Rightarrow> nat" where
  "steps_left (Waiting j) = 2"
| "steps_left (Looked j) = 1"
| "steps_left (Done r) = 0"

definition run_left :: "thread list \<Rightarrow> nat" where
  "run_left ts = sum_list (map steps_left ts)"

fun proper :: "thread \<Rightarrow> bool" where
  "proper (Looked (CloseJob c)) = False"
| "proper t = True"

lemma steps_left_outcome [simp]: "steps_left (outcome r) = 0" "proper (outcome r)"
  by (simp_all add: outcome_def)

lemma run_left_update:
  "i < length ts \<Longrightarrow> steps_left t < steps_left (ts ! i) \<Longrightarrow> run_left (ts[i := t]) < run_left ts"
  by (induction ts arbitrary: i) (auto simp: run_left_def split: nat.splits)

lemma mstep_progress:
  "mstep x (mg, ts) (mg', ts') \<Longrightarrow>
     run_left ts' < run_left ts \<and> length ts' = length ts \<and> (list_all proper ts \<longrightarrow> list_all proper ts')"
  by (elim mstepE) (auto simp: list_all_length nth_list_update intro!: run_left_update)

lemma not_stuck:
  assumes "list_all proper ts" and "t \<in> set ts" "\<And>r. t \<noteq> Done r"
  shows "\<exists>st'. mstep x (mg, ts) st'"
proof -
  obtain i where i: "i < length ts" "ts ! i = t" using assms(2) by (auto simp: in_set_conv_nth)
  have "proper t" using assms(1,2) by (simp add: list_all_iff)
  then consider c s r d where "t = Waiting (TransferJob c s r d)" | c where "t = Waiting (CloseJob c)"
    | c s r d where "t = Looked (TransferJob c s r d)"
    using assms(3) by (cases t rule: proper.cases) (auto, metis job.exhaust)
  then show ?thesis
  proof cases
    case (1 c s r d)
    then show ?thesis using mstep.look [of i ts c s r d mg x] mstep.refuse [of i ts c s r d mg x] i
      by (cases "c \<in> mg_closed mg") blast+
  next
    case (2 c)
    obtain res mg' where "mg_cooperative_close x c mg = (res, mg')" by fastforce
    from mstep.close [OF i(1) _ this] i 2 show ?thesis by blast
  next
    case (3 c s r d)
    obtain res mg' where "transfer_locked x c s r d mg = (res, mg')" by fastforce
    from mstep.transfer [OF i(1) _ this] i 3 show ?thesis by blast
  qed
qed

lemma msteps_progress:
  "(mstep x ^^ n) (mg, ts) (mg', ts') \<Longrightarrow> list_all proper ts \<Longrightarrow>
     run_left ts' + n \<le> run_left ts \<and> length ts' = length ts \<and> list_all proper ts'"
proof (induction n arbitrary: mg ts)
  case (Suc n)
  then obtain mg1 ts1 where s: "mstep x (mg, ts) (mg1, ts1)" and r: "(mstep x ^^ n) (mg1, ts1) (mg', ts')"
    by (metis relpowp_Suc_E2 surj_pair)
  from mstep_progress [OF s] Suc.IH [OF r] Suc.prems(2) show ?case by fastforce
qed simp

lemma run_finishes:
  "list_all proper ts \<Longrightarrow> \<exists>mg' rs. mrun x (mg, ts) (mg', map Done rs)"
proof (induction "run_left ts" arbitrary: mg ts rule: less_induct)
  case less
  show ?case
  proof (cases "\<exists>t \<in> set ts. \<forall>r. t \<noteq> Done r")
    case True
    then obtain mg1 ts1 where s: "mstep x (mg, ts) (mg1, ts1)"
      using not_stuck [OF less.prems, of _ x mg] by fastforce
    from mstep_progress [OF s] less.hyps [of ts1 mg1] less.prems s show ?thesis
      by (blast intro: mrun.run)
  next
    case False
    then have "\<forall>t \<in> set ts. \<exists>r. t = Done r" by blast
    then have "\<exists>rs. ts = map Done rs" by (metis ex_map_conv)
    then show ?thesis by (blast intro: mrun.stop)
  qed
qed

lemma run_left_waiting [simp]: "run_left (map Waiting jobs) = 2 * length jobs"
  by (induction jobs) (simp_all add: run_left_def)

lemma proper_waiting [simp]: "list_all proper (map Waiting jobs)"
  by (simp add: list_all_iff)

section \<open>The invariant\<close>

definition manager_wf :: "externals \<Rightarrow> manager \<Rightarrow> bool" where
  "manager_wf x mg \<longleftrightarrow>
     dict_wf (mg_channels mg) \<and> system_store_wf (mg_store mg) \<and>
     (\<forall>c. c \<in> mg_locks mg \<longleftrightarrow> dict_get (mg_channels mg) c \<noteq> None) \<and>
     mg_closed mg \<subseteq> mg_locks mg \<and>
     (\<forall>c ch. dict_get (mg_channels mg) c = Some ch \<longrightarrow> channel_wf x ch \<and> funding_txid x ch = c)"

lemma manager_wfD:
  assumes "manager_wf x mg"
  shows "dict_wf (mg_channels mg)" "system_store_wf (mg_store mg)"
    "\<And>c. c \<in> mg_locks mg \<longleftrightarrow> dict_get (mg_channels mg) c \<noteq> None" "mg_closed mg \<subseteq> mg_locks mg"
    "\<And>c ch. dict_get (mg_channels mg) c = Some ch \<Longrightarrow> channel_wf x ch \<and> funding_txid x ch = c"
  using assms by (auto simp: manager_wf_def)

lemma new_manager_wf: "system_store_wf s \<Longrightarrow> manager_wf x (new_manager s)"
  by (simp add: manager_wf_def new_manager_def dict_wf_def dict_get_def)

lemma persist_store_wf: "system_store_wf s \<Longrightarrow> system_store_wf (snd (persist_channel x s ch))"
  by (auto simp: persist_channel_def transaction_def put_channel_meta_def put_channel_state_def bindR_def Let_def
      system_store_wf_def sql.wf_put split: sum.splits)

lemma persist_then_sel [simp]:
  "mg_channels (snd (persist_then x ch r mg)) = mg_channels mg"
  "mg_locks (snd (persist_then x ch r mg)) = mg_locks mg"
  "mg_closed (snd (persist_then x ch r mg)) = mg_closed mg"
  "mg_store (snd (persist_then x ch r mg)) = snd (persist_channel x (mg_store mg) ch)"
  by (simp_all add: persist_then_def split_def Let_def)

lemma persist_then_wf: "manager_wf x mg \<Longrightarrow> manager_wf x (snd (persist_then x ch r mg))"
  by (simp add: manager_wf_def persist_store_wf)

lemma apply_transfer_sel:
  assumes "apply_transfer ch s r d = Inr ch'"
  shows "funding_txid x ch' = funding_txid x ch" "version (ch_state ch') = version (ch_state ch) + 1"
    "ch_funding_tx ch' = ch_funding_tx ch" "ch_keybook ch' = ch_keybook ch"
    "ch_funding_utxos ch' = ch_funding_utxos ch"
  using assms
  by (auto simp: apply_transfer_def bindR_eq_Inr funding_txid_def transfer_def State_Inr Let_def split: if_splits)

lemma put_channel_wf:
  assumes "manager_wf x mg" and "channel_wf x ch" and "funding_txid x ch = c" and "c \<in> mg_locks mg"
  shows "manager_wf x (mg\<lparr>mg_channels := dict_put c ch (mg_channels mg)\<rparr>)"
  using assms by (auto simp: manager_wf_def dict.get_put dict.wf_put)

lemma transfer_locked_cases:
  assumes "transfer_locked x c s r d mg = (res, mg')" and "manager_wf x mg"
  obtains (refused) e where "res = Inl e" "mg' = mg"
  | (changed) ch ch' where "dict_get (mg_channels mg) c = Some ch" "apply_transfer ch s r d = Inr ch'"
      "(res, mg') = persist_then x ch' (version (ch_state ch'))
         (mg\<lparr>mg_channels := dict_put c ch' (mg_channels mg)\<rparr>)"
  using assms by (auto simp: transfer_locked_def mg_locked_def split: if_splits option.splits sum.splits)

lemma transfer_locked_wf:
  assumes "transfer_locked x c s r d mg = (res, mg')" and "manager_wf x mg"
  shows "manager_wf x mg'"
using assms
proof (cases rule: transfer_locked_cases)
  case (changed ch ch')
  have "channel_wf x ch'" "funding_txid x ch' = c"
    using manager_wfD(5) [OF assms(2) changed(1)] apply_transfer_wf [OF changed(2)] apply_transfer_sel(1) [OF changed(2), of x]
    by simp_all
  moreover have "c \<in> mg_locks mg" using manager_wfD(3) [OF assms(2)] changed(1) by simp
  ultimately have "manager_wf x (snd (persist_then x ch' (version (ch_state ch'))
      (mg\<lparr>mg_channels := dict_put c ch' (mg_channels mg)\<rparr>)))"
    by (intro persist_then_wf put_channel_wf assms(2))
  then show ?thesis by (simp flip: changed(3))
qed (simp add: assms(2))

lemma close_cases:
  assumes "mg_cooperative_close x c mg = (res, mg')"
  obtains (refused) e where "res = Inl e" "mg' = mg"
  | (changed) ch txu where "dict_get (mg_channels mg) c = Some ch" "c \<notin> mg_closed mg" "c \<in> mg_locks mg"
      "cooperative_close x ch None = Inr txu"
      "(res, mg') = persist_then x ch txu (mg\<lparr>mg_closed := insert c (mg_closed mg)\<rparr>)"
proof (cases "c \<in> mg_locks mg \<and> c \<notin> mg_closed mg \<and>
    (\<exists>ch txu. dict_get (mg_channels mg) c = Some ch \<and> cooperative_close x ch None = Inr txu)")
  case True
  then obtain ch txu where ch: "dict_get (mg_channels mg) c = Some ch" "c \<notin> mg_closed mg" "c \<in> mg_locks mg"
    "cooperative_close x ch None = Inr txu" by blast
  then have "(res, mg') = persist_then x ch txu (mg\<lparr>mg_closed := insert c (mg_closed mg)\<rparr>)"
    using assms by (simp add: mg_cooperative_close_def mg_locked_def)
  with ch changed show ?thesis by blast
next
  case False
  then have "\<exists>e. (res, mg') = (Inl e, mg)"
    using assms unfolding mg_cooperative_close_def mg_locked_def
    by (simp del: split_paired_Ex split_paired_All split: if_splits option.splits sum.splits) metis+
  then show ?thesis using refused by blast
qed

lemma close_wf:
  assumes "mg_cooperative_close x c mg = (res, mg')" and "manager_wf x mg"
  shows "manager_wf x mg'"
using assms(1)
proof (cases rule: close_cases)
  case (changed ch txu)
  have "manager_wf x (mg\<lparr>mg_closed := insert c (mg_closed mg)\<rparr>)"
    using assms(2) changed(3) by (simp add: manager_wf_def)
  then have "manager_wf x (snd (persist_then x ch txu (mg\<lparr>mg_closed := insert c (mg_closed mg)\<rparr>)))"
    by (rule persist_then_wf)
  then show ?thesis by (simp flip: changed(5))
qed (simp add: assms(2))

lemma mg_add_wf:
  assumes "mg_add x ch mg = (res, mg')" and "manager_wf x mg" and "channel_wf x ch"
  shows "manager_wf x mg'"
proof (cases "dict_get (mg_channels mg) (funding_txid x ch)")
  case None
  have "manager_wf x (mg\<lparr>mg_channels := dict_put (funding_txid x ch) ch (mg_channels mg),
      mg_locks := insert (funding_txid x ch) (mg_locks mg)\<rparr>)" (is "manager_wf x ?mg")
    using assms(2,3) by (auto simp: manager_wf_def dict.get_put dict.wf_put)
  then have "manager_wf x (snd (persist_then x ch (funding_txid x ch) ?mg))" by (rule persist_then_wf)
  with None assms(1) show ?thesis by (auto simp: mg_add_def Let_def dest: arg_cong [where f = snd])
qed (use assms in \<open>simp add: mg_add_def\<close>)

text \<open>What a run can do to one channel: its version grows, its transaction, keys and configuration
  stay, and a closed channel stays closed.\<close>

definition later :: "manager \<Rightarrow> manager \<Rightarrow> bool" where
  "later mg mg' \<longleftrightarrow>
     mg_closed mg \<subseteq> mg_closed mg' \<and>
     (\<forall>c ch. dict_get (mg_channels mg) c = Some ch \<longrightarrow>
        (\<exists>ch'. dict_get (mg_channels mg') c = Some ch' \<and> version (ch_state ch) \<le> version (ch_state ch') \<and>
           ch_funding_tx ch' = ch_funding_tx ch \<and> ch_keybook ch' = ch_keybook ch))"

lemma later_refl: "later mg mg" by (simp add: later_def)

lemma later_trans:
  assumes "later a b" and "later b c"
  shows "later a c"
  unfolding later_def
proof (intro conjI allI impI)
  show "mg_closed a \<subseteq> mg_closed c" using assms by (auto simp: later_def)
next
  fix k ch
  assume "dict_get (mg_channels a) k = Some ch"
  with assms(1) obtain ch1 where b: "dict_get (mg_channels b) k = Some ch1"
    and 1: "version (ch_state ch) \<le> version (ch_state ch1)" "ch_funding_tx ch1 = ch_funding_tx ch"
      "ch_keybook ch1 = ch_keybook ch"
    unfolding later_def by blast
  from b assms(2) obtain ch2 where "dict_get (mg_channels c) k = Some ch2"
    and "version (ch_state ch1) \<le> version (ch_state ch2)" "ch_funding_tx ch2 = ch_funding_tx ch1"
      "ch_keybook ch2 = ch_keybook ch1"
    unfolding later_def by blast
  with 1 show "\<exists>ch'. dict_get (mg_channels c) k = Some ch' \<and> version (ch_state ch) \<le> version (ch_state ch') \<and>
      ch_funding_tx ch' = ch_funding_tx ch \<and> ch_keybook ch' = ch_keybook ch" by auto
qed

lemma transfer_locked_later:
  assumes "transfer_locked x c s r d mg = (res, mg')" and "manager_wf x mg"
  shows "later mg mg'"
using assms
proof (cases rule: transfer_locked_cases)
  case (changed ch ch')
  have "mg' = snd (persist_then x ch' (version (ch_state ch')) (mg\<lparr>mg_channels := dict_put c ch' (mg_channels mg)\<rparr>))"
    by (simp flip: changed(3))
  then have "mg_channels mg' = dict_put c ch' (mg_channels mg)" "mg_closed mg' = mg_closed mg" by simp_all
  then show ?thesis using changed(1) apply_transfer_sel [OF changed(2)] by (auto simp: later_def dict.get_put)
qed (simp add: later_refl)

lemma close_later:
  assumes "mg_cooperative_close x c mg = (res, mg')"
  shows "later mg mg'"
using assms
proof (cases rule: close_cases)
  case (changed ch txu)
  have "mg' = snd (persist_then x ch txu (mg\<lparr>mg_closed := insert c (mg_closed mg)\<rparr>))"
    by (simp flip: changed(5))
  then show ?thesis by (auto simp: later_def)
qed (simp add: later_refl)

lemma mstep_invariant:
  "mstep x (mg, ts) (mg', ts') \<Longrightarrow> manager_wf x mg \<Longrightarrow> manager_wf x mg' \<and> later mg mg'"
  by (elim mstepE) (auto simp: later_refl intro: transfer_locked_wf transfer_locked_later close_wf close_later)

lemma mrun_invariant:
  "mrun x st st' \<Longrightarrow> manager_wf x (fst st) \<Longrightarrow> manager_wf x (fst st') \<and> later (fst st) (fst st')"
proof (induction rule: mrun.induct)
  case (run st st1 st2)
  from mstep_invariant [of x "fst st" "snd st" "fst st1" "snd st1"] run(1,4)
  have "manager_wf x (fst st1)" "later (fst st) (fst st1)" by simp_all
  with run.IH show ?case by (blast intro: later_trans)
qed (simp add: later_refl)

section \<open>Durability\<close>

text \<open>The store refines the manager: recovering a registered channel gives the channel in memory,
  and no newer state is stored.\<close>

definition durable :: "externals \<Rightarrow> manager \<Rightarrow> bool" where
  "durable x mg \<longleftrightarrow>
     (\<forall>c ch. dict_get (mg_channels mg) c = Some ch \<longrightarrow>
        recover_channel x (mg_store mg) c = Inr (Some (reloaded ch)) \<and>
        newest (mg_store mg) c (version (ch_state ch)))"

lemma durableD:
  assumes "durable x mg" and "dict_get (mg_channels mg) c = Some ch"
  shows "recover_channel x (mg_store mg) c = Inr (Some (reloaded ch))"
    "newest (mg_store mg) c (version (ch_state ch))"
  using assms by (auto simp: durable_def)

lemma newest_mono: "newest s c v \<Longrightarrow> v \<le> w \<Longrightarrow> newest s c w"
  by (fastforce simp: newest_def)

lemma persist_newest:
  assumes "persist_channel x s ch = (Inr (), s')" and "newest s c v"
    and "c = funding_txid x ch \<Longrightarrow> version (ch_state ch) \<le> v"
  shows "newest s' c v"
  by (rule persist_channel_Inr [OF assms(1)])
    (use assms(2,3) in \<open>auto simp: newest_def sql_replace_def sql_delete_def\<close>)

text \<open>Persisting the registered version of one channel keeps the others.\<close>

lemma durable_persist:
  assumes persist: "persist_channel x (mg_store mg) ch = (Inr (), s')"
    and wf: "system_store_wf (mg_store mg)" "channel_wf x ch" "readable x ch" "funding_txid x ch = c"
    and new: "newest (mg_store mg) c (version (ch_state ch))"
    and get: "\<And>k. dict_get (mg_channels mg') k = (if k = c then Some ch else dict_get (mg_channels mg) k)"
    and store: "mg_store mg' = s'"
    and others: "\<And>k ch'. k \<noteq> c \<Longrightarrow> dict_get (mg_channels mg) k = Some ch' \<Longrightarrow>
      recover_channel x (mg_store mg) k = Inr (Some (reloaded ch')) \<and>
      newest (mg_store mg) k (version (ch_state ch'))"
  shows "durable x mg'"
  unfolding durable_def store
proof (intro allI impI)
  fix k ch'
  assume k: "dict_get (mg_channels mg') k = Some ch'"
  show "recover_channel x s' k = Inr (Some (reloaded ch')) \<and> newest s' k (version (ch_state ch'))"
  proof (cases "k = c")
    case True
    with k get have "ch' = ch" by simp
    with recover_persisted [OF persist wf(2,3,1)] new wf(4) True persist_newest [OF persist new] show ?thesis
      by simp
  next
    case False
    with k get others [of k ch'] recover_other [OF persist, of k] wf(4)
      persist_newest [OF persist, of k "version (ch_state ch')"]
    show ?thesis by simp
  qed
qed

lemma persist_then_Inr:
  assumes "(Inr v, mg') = persist_then x ch r mg"
  shows "persist_channel x (mg_store mg) ch = (Inr (), mg_store mg') \<and> v = r \<and>
    mg_channels mg' = mg_channels mg \<and> mg_closed mg' = mg_closed mg"
  using assms by (cases "persist_channel x (mg_store mg) ch") (auto simp: persist_then_def bindR_eq_Inr dest: sym)

lemma transfer_durable:
  assumes "transfer_locked x c s r d mg = (Inr v, mg')" and "manager_wf x mg" and "durable x mg"
    and "\<And>ch. dict_get (mg_channels mg) c = Some ch \<Longrightarrow> readable x ch"
  shows "durable x mg'"
  using assms(1,2)
proof (cases rule: transfer_locked_cases)
  case (changed ch ch')
  note p = persist_then_Inr [OF changed(3)]
  note sel = apply_transfer_sel [OF changed(2)]
  have wf: "channel_wf x ch'" "funding_txid x ch' = c"
    using manager_wfD(5) [OF assms(2) changed(1)] apply_transfer_wf [OF changed(2)] sel(1) [of x] by simp_all
  have "readable x ch'" using assms(4) [OF changed(1)] sel(3-5) by (simp add: readable_def)
  moreover have "newest (mg_store mg) c (version (ch_state ch'))"
    using newest_mono [OF durableD(2) [OF assms(3) changed(1)]] sel(2) by simp
  ultimately show ?thesis
    using p wf manager_wfD(2) [OF assms(2)] durableD [OF assms(3)]
    by (intro durable_persist [of x mg ch' "mg_store mg'" c mg']) (simp_all add: dict.get_put)
qed simp

lemma close_durable:
  assumes "mg_cooperative_close x c mg = (Inr txu, mg')" and "manager_wf x mg" and "durable x mg"
    and "\<And>ch. dict_get (mg_channels mg) c = Some ch \<Longrightarrow> readable x ch"
  shows "durable x mg'"
  using assms(1)
proof (cases rule: close_cases)
  case (changed ch txu')
  note p = persist_then_Inr [OF changed(5)]
  show ?thesis
    using p manager_wfD(5) [OF assms(2) changed(1)] manager_wfD(2) [OF assms(2)] durableD [OF assms(3)]
      durableD(2) [OF assms(3) changed(1)] assms(4) [OF changed(1)] changed(1)
    by (intro durable_persist [of x mg ch "mg_store mg'" c mg']) simp_all
qed simp

lemma add_durable:
  assumes "mg_add x ch mg = (Inr c, mg')" and "manager_wf x mg" and "durable x mg"
    and "channel_wf x ch" and "readable x ch"
    and "newest (mg_store mg) (funding_txid x ch) (version (ch_state ch))"
  shows "durable x mg' \<and> c = funding_txid x ch \<and> dict_get (mg_channels mg') c = Some ch"
proof -
  let ?id = "funding_txid x ch"
  have fresh: "dict_get (mg_channels mg) ?id = None"
    and eq: "(Inr c, mg') = persist_then x ch ?id
           (mg\<lparr>mg_channels := dict_put ?id ch (mg_channels mg), mg_locks := insert ?id (mg_locks mg)\<rparr>)"
    using assms(1) by (auto simp: mg_add_def Let_def split: if_splits)
  note p = persist_then_Inr [OF eq]
  have "durable x mg'"
    using p manager_wfD(2) [OF assms(2)] durableD [OF assms(3)] assms(4-6) fresh
    by (intro durable_persist [of x mg ch "mg_store mg'" ?id mg']) (simp_all add: dict.get_put)
  then show ?thesis using p by simp
qed

end
