(* ===== verification/Store_Properties.thy ===== *)
theory Store_Properties
  imports Channel_Manager Channel_Properties
begin

text \<open>
  The properties of persistence and of the channel manager: what is recovered after a persist, what
  a recovery can lose, and what any interleaving of transfers and closes keeps.
\<close>

section \<open>The sample channel is storable\<close>

lemma sample_readable:
  assumes "ch_keybook ch = sample_keys" "ch_funding_utxos ch = u # us"
  shows "readable sample ch"
  using assms by (simp add: readable_def sample_keys_def sample_def sample_tx_decode_code)

lemma sample_parent: "ch_funding_utxos sample_channel = [TxOutput 16 [Op OP_TRUE]]"
proof -
  obtain us where us: "us = [TxOutput (16 :: int) [Op OP_TRUE]]" by blast
  let ?ftx = "Tx 1 [TxInput [1] 3 [] FINAL_SEQUENCE]
      (TxOutput (cfg_S sample_cfg) (funding_lock sample sample_keys) #
       map (\<lambda>i. TxOutput (cfg_bonds sample_cfg ! nat i) (bond_lock sample sample_keys (cfg_n sample_cfg) i))
         (py_range (cfg_n sample_cfg))) 0"
  have total: "cfg_S sample_cfg + sum_list (cfg_bonds sample_cfg) = 16" by (simp add: sample_cfg_def)
  have "wrap_funding sample sample_cfg sample_keys ?ftx us = Inr sample_open"
    using sample_open_Inr us
    unfolding channel_open_eq [OF sample_cfg_valid sample_keys_n] fst_conv snd_conv option.case total by simp
  moreover have "canonical_funding sample sample_cfg sample_keys ?ftx"
    by (rule open_canonical [OF sample_cfg_valid])
  ultimately have "ch_funding_utxos sample_open = us"
    using wrap_funding_wf [OF sample_cfg_valid sample_keys_n, of sample ?ftx us] by auto
  then show ?thesis by (simp add: us sample_channel_def mark_confirmed_def)
qed

section \<open>Recovery\<close>

text \<open>C16. Persist and recover: persisting a channel whose parent value and version fit SQLite's
  integers succeeds, and recovering it afterwards gives the channel with its latest state, up to the
  parent output's script, which is not stored; the other channels are recovered as before.\<close>

theorem recover_after_persist:
  assumes "channel_wf x ch" and "readable x ch" and "system_store_wf s"
    and "newest s (funding_txid x ch) (version (ch_state ch))"
    and "- (2 ^ 63) \<le> out_value (hd (ch_funding_utxos ch))" "out_value (hd (ch_funding_utxos ch)) < 2 ^ 63"
    and "version (ch_state ch) < 2 ^ 63"
  shows "\<exists>s'. persist_channel x s ch = (Inr (), s') \<and> system_store_wf s' \<and>
    recover_channel x s' (funding_txid x ch) = Inr (Some (reloaded ch)) \<and>
    newest s' (funding_txid x ch) (version (ch_state ch)) \<and>
    (\<forall>c. c \<noteq> funding_txid x ch \<longrightarrow> recover_channel x s' c = recover_channel x s c)"
proof -
  obtain u us where u: "ch_funding_utxos ch = u # us"
    using assms(2) by (auto simp: readable_def neq_Nil_conv)
  have "0 \<le> version (ch_state ch)" using channel_wfD(3) [OF assms(1)] by (simp add: valid_state_def)
  then obtain s' where p: "persist_channel x s ch = (Inr (), s')"
    using persist_ok [OF u, of x s] assms(5-7) by (auto simp: u)
  show ?thesis
    using p persist_wf [OF p assms(3)] recover_persisted [OF p assms(1-4)] recover_other [OF p]
      persist_newest [OF p assms(4)] by blast
qed

theorem recover_after_persist_witness:
  "\<exists>s'. persist_channel sample empty_system_store sample_channel = (Inr (), s') \<and>
     recover_channel sample s' (funding_txid sample sample_channel) = Inr (Some sample_channel)"
proof -
  have "[TxOutput (out_value (hd (ch_funding_utxos sample_channel))) [Op OP_TRUE]] = ch_funding_utxos sample_channel"
    using sample_parent by simp
  then have "reloaded sample_channel = sample_channel" unfolding reloaded_def by (simp only:) simp
  moreover have "newest empty_system_store c v" for c v
    by (simp add: newest_def empty_system_store_def)
  ultimately have "\<exists>s'. persist_channel sample empty_system_store sample_channel = (Inr (), s') \<and>
      system_store_wf s' \<and>
      recover_channel sample s' (funding_txid sample sample_channel) = Inr (Some sample_channel) \<and>
      newest s' (funding_txid sample sample_channel) (version (ch_state sample_channel)) \<and>
      (\<forall>c. c \<noteq> funding_txid sample sample_channel \<longrightarrow>
        recover_channel sample s' c = recover_channel sample empty_system_store c)"
    using recover_after_persist [OF sample_channel_wf sample_readable empty_system_store_wf]
      sample_parent by (simp add: sample_state_def)
  then show ?thesis by blast
qed


lemma sample_persist:
  assumes "ch_funding_utxos ch = [TxOutput 16 [Op OP_TRUE]]" and "0 \<le> version (ch_state ch)"
    and "version (ch_state ch) \<le> 100"
  shows "\<exists>s'. persist_channel x s ch = (Inr (), s')"
  using persist_ok [OF assms(1), of x s] assms(2,3) by simp


section \<open>The manager\<close>

text \<open>A manager with the sample channel registered.\<close>

definition sample_manager :: manager where
  "sample_manager = snd (mg_add sample sample_channel (new_manager empty_system_store))"

abbreviation sample_id :: bytes where
  "sample_id \<equiv> funding_txid sample sample_channel"

lemma sample_manager_add:
  "mg_add sample sample_channel (new_manager empty_system_store) = (Inr sample_id, sample_manager)"
  "mg_channels sample_manager = [(sample_id, sample_channel)]" "mg_locks sample_manager = {sample_id}"
  "mg_closed sample_manager = {}"
proof -
  obtain s' where "persist_channel sample empty_system_store sample_channel = (Inr (), s')"
    using sample_persist [OF sample_parent, of sample empty_system_store] by (auto simp: sample_state_def)
  then show "mg_add sample sample_channel (new_manager empty_system_store) = (Inr sample_id, sample_manager)"
    "mg_channels sample_manager = [(sample_id, sample_channel)]" "mg_locks sample_manager = {sample_id}"
    "mg_closed sample_manager = {}"
    by (simp_all add: sample_manager_def mg_add_def new_manager_def persist_then_def dict_put_def Let_def)
qed

lemma sample_manager_wf: "manager_wf sample sample_manager"
  by (rule mg_add_wf [OF sample_manager_add(1) new_manager_wf [OF empty_system_store_wf] sample_channel_wf])

lemma sample_manager_get: "dict_get (mg_channels sample_manager) c = (if c = sample_id then Some sample_channel else None)"
  by (simp add: sample_manager_add dict_get_def)

lemma sample_manager_readable: "dict_get (mg_channels sample_manager) c = Some ch \<Longrightarrow> readable sample ch"
  using sample_readable [OF sample_channel_sel(2) sample_parent] by (simp add: sample_manager_get split: if_splits)

lemma sample_manager_durable: "durable sample sample_manager"
proof -
  have "durable sample (new_manager empty_system_store)" by (simp add: durable_def new_manager_def dict_get_def)
  moreover have "newest (mg_store (new_manager empty_system_store)) c v" for c v
    by (simp add: newest_def empty_system_store_def new_manager_def)
  ultimately show ?thesis
    using add_durable [OF sample_manager_add(1) new_manager_wf [OF empty_system_store_wf] _ sample_channel_wf
        sample_readable [OF sample_channel_sel(2) sample_parent]] by blast
qed

text \<open>A transfer of five micro-units goes through in any manager that has the sample channel.\<close>

lemma sample_transfer:
  assumes "dict_get (mg_channels mg) sample_id = Some sample_channel" and "sample_id \<in> mg_locks mg"
  shows "\<exists>mg'. transfer_locked sample sample_id 0 1 5 mg = (Inr 5, mg')"
proof -
  let ?ch = "sample_channel\<lparr>ch_state := \<lparr>balances = [28, 17, 25], version = 5\<rparr>\<rparr>"
  have "transfer sample_state 0 1 5 sample_cfg = Inr \<lparr>balances = [28, 17, 25], version = 5\<rparr>"
    using transfer_step [OF sample_state_valid, of 0 1 5]
    by (simp add: transfer_allowed_def sample_cfg_def sample_state_def)
  then have "apply_transfer sample_channel 0 1 5 = Inr ?ch" by (simp add: apply_transfer_def)
  moreover have "\<exists>s'. persist_channel sample s ?ch = (Inr (), s')" for s
    by (rule sample_persist) (simp_all add: sample_parent)
  then obtain s' where "persist_channel sample (mg_store mg) ?ch = (Inr (), s')" by blast
  ultimately show ?thesis
    using assms by (simp add: transfer_locked_def mg_locked_def persist_then_def)
qed

lemma sample_close_manager:
  "\<exists>txu mg. mg_cooperative_close sample sample_id sample_manager = (Inr txu, mg) \<and>
     mg_channels mg = mg_channels sample_manager \<and> sample_id \<in> mg_locks mg \<and> sample_id \<in> mg_closed mg"
proof -
  obtain txu where "cooperative_close sample sample_channel None = Inr txu" using sample_close by auto
  moreover obtain s' where "persist_channel sample (mg_store sample_manager) sample_channel = (Inr (), s')"
    using sample_persist [OF sample_parent, of sample "mg_store sample_manager"] by (auto simp: sample_state_def)
  ultimately show ?thesis
    by (simp add: mg_cooperative_close_def mg_locked_def sample_manager_add(2-4) dict_get_def persist_then_def)
qed

text \<open>C17. Every interleaving of transfers and closes keeps the manager well formed: each registered
  channel conserves its funds, is filed under its own funding id and has a lock.  No channel is lost
  or rolled back, its version only grows, and a channel that was closed stays sealed: a transfer or a
  second close that starts afterwards is refused and changes nothing.\<close>

theorem manager_run_invariant:
  assumes "mrun x (mg, ts) (mg', ts')" and "manager_wf x mg"
  shows "manager_wf x mg' \<and>
    (\<forall>c ch. dict_get (mg_channels mg) c = Some ch \<longrightarrow>
       (\<exists>ch'. dict_get (mg_channels mg') c = Some ch' \<and> version (ch_state ch) \<le> version (ch_state ch') \<and>
          ch_funding_tx ch' = ch_funding_tx ch \<and> ch_keybook ch' = ch_keybook ch)) \<and>
    (\<forall>c \<in> mg_closed mg. mg_apply_transfer x c s r d mg' = (Inl StateError, mg') \<and>
       mg_cooperative_close x c mg' = (Inl StateError, mg'))"
proof -
  from mrun_invariant [OF assms(1)] assms(2) have wf: "manager_wf x mg'" and later: "later mg mg'"
    by simp_all
  have "mg_apply_transfer x c s r d mg' = (Inl StateError, mg') \<and>
      mg_cooperative_close x c mg' = (Inl StateError, mg')" if "c \<in> mg_closed mg" for c
  proof -
    have c: "c \<in> mg_closed mg'" using later that by (auto simp: later_def)
    then have "c \<in> mg_locks mg'" using manager_wfD(4) [OF wf] by auto
    then obtain ch where "dict_get (mg_channels mg') c = Some ch"
      using manager_wfD(3) [OF wf, of c] by auto
    with c show ?thesis
      using manager_wfD(4) [OF wf] by (auto simp: mg_apply_transfer_def mg_cooperative_close_def mg_locked_def)
  qed
  with wf later show ?thesis unfolding later_def by blast
qed

theorem manager_run_invariant_witness:
  "\<exists>mg. mrun sample (sample_manager, [Waiting (CloseJob sample_id)]) (mg, [Done None]) \<and>
     manager_wf sample mg \<and> (\<exists>mg'. mrun sample (mg, [Waiting (TransferJob sample_id 0 1 5)]) (mg', [Done (Some StateError)]) \<and>
       mg_apply_transfer sample sample_id 0 1 5 mg' = (Inl StateError, mg'))"
proof -
  obtain txu mg where mg: "mg_cooperative_close sample sample_id sample_manager = (Inr txu, mg)"
    "sample_id \<in> mg_closed mg"
    using sample_close_manager by blast
  have run: "mrun sample (sample_manager, [Waiting (CloseJob sample_id)]) (mg, [Done None])"
    using mstep.close [of 0 "[Waiting (CloseJob sample_id)]" sample_id sample sample_manager "Inr txu" mg] mg(1)
    by (auto simp: outcome_def intro: mrun.intros)
  have wf: "manager_wf sample mg" by (rule close_wf [OF mg(1) sample_manager_wf])
  have late: "mrun sample (mg, [Waiting (TransferJob sample_id 0 1 5)]) (mg, [Done (Some StateError)])"
    using mstep.refuse [of 0 "[Waiting (TransferJob sample_id 0 1 5)]" sample_id 0 1 5 mg sample] mg(2)
    by (auto intro: mrun.intros)
  from manager_run_invariant [OF late wf, of 0 1 5] mg(2) run wf late show ?thesis by blast
qed





text \<open>C21. The check of the closed channels in \<open>apply_transfer\<close> comes before the lock: a transfer that
  has passed it can commit after another thread has closed the channel, and moves the channel to a
  version the close did not settle.\<close>

theorem transfer_slips_past_close:
  assumes "c \<notin> mg_closed mg" and "mg_cooperative_close x c mg = (Inr txu, mg1)"
    and "transfer_locked x c s r d mg1 = (Inr v, mg2)" and "manager_wf x mg"
  shows "mrun x (mg, [Waiting (TransferJob c s r d), Waiting (CloseJob c)]) (mg2, [Done None, Done None]) \<and>
    c \<in> mg_closed mg2 \<and>
    (\<exists>ch ch'. dict_get (mg_channels mg1) c = Some ch \<and> dict_get (mg_channels mg2) c = Some ch' \<and>
       version (ch_state ch') = version (ch_state ch) + 1)"
proof -
  let ?t = "TransferJob c s r d" and ?k = "CloseJob c"
  have s1: "mstep x (mg, [Waiting ?t, Waiting ?k]) (mg, [Looked ?t, Waiting ?k])"
    using mstep.look [of 0 "[Waiting ?t, Waiting ?k]" c s r d mg x] assms(1) by simp
  have s2: "mstep x (mg, [Looked ?t, Waiting ?k]) (mg1, [Looked ?t, Done None])"
    using mstep.close [of 1 "[Looked ?t, Waiting ?k]" c x mg "Inr txu" mg1] assms(2) by (simp add: outcome_def)
  have s3: "mstep x (mg1, [Looked ?t, Done None]) (mg2, [Done None, Done None])"
    using mstep.transfer [of 0 "[Looked ?t, Done None]" c s r d x mg1 "Inr v" mg2] assms(3)
    by (simp add: outcome_def)
  have run: "mrun x (mg, [Waiting ?t, Waiting ?k]) (mg2, [Done None, Done None])"
    by (rule mrun.run [OF s1 mrun.run [OF s2 mrun.run [OF s3 mrun.stop]]])
  have wf1: "manager_wf x mg1" by (rule close_wf [OF assms(2,4)])
  have closed: "c \<in> mg_closed mg1"
    using assms(2)
  proof (cases rule: close_cases)
    case (changed ch t)
    then show ?thesis using persist_then_Inr [of txu mg1 x ch t] by simp
  qed simp
  then have "c \<in> mg_closed mg2" using transfer_locked_later [OF assms(3) wf1] by (auto simp: later_def)
  moreover have "\<exists>ch ch'. dict_get (mg_channels mg1) c = Some ch \<and> dict_get (mg_channels mg2) c = Some ch' \<and>
      version (ch_state ch') = version (ch_state ch) + 1"
    using assms(3) wf1
  proof (cases rule: transfer_locked_cases)
    case (changed ch ch')
    then show ?thesis using persist_then_Inr [OF changed(3)] apply_transfer_sel(2) [OF changed(2)]
      by (simp add: dict.get_put)
  qed simp
  ultimately show ?thesis using run by blast
qed

theorem transfer_slips_past_close_witness:
  "\<exists>mg. mrun sample (sample_manager, [Waiting (TransferJob sample_id 0 1 5), Waiting (CloseJob sample_id)])
     (mg, [Done None, Done None]) \<and> sample_id \<in> mg_closed mg"
proof -
  obtain txu mg1 where c: "mg_cooperative_close sample sample_id sample_manager = (Inr txu, mg1)"
    "mg_channels mg1 = mg_channels sample_manager" "sample_id \<in> mg_locks mg1"
    using sample_close_manager by blast
  obtain mg2 where t: "transfer_locked sample sample_id 0 1 5 mg1 = (Inr 5, mg2)"
    using sample_transfer [of mg1] c(2,3) by (auto simp: sample_manager_get)
  from transfer_slips_past_close [OF _ c(1) t sample_manager_wf] show ?thesis
    by (auto simp: sample_manager_add)
qed

end
