(* ===== verification/Settlement_Facts.thy ===== *)
theory Settlement_Facts
  imports Watchtower_Facts Lifecycle_Facts Node_Supply
begin

text \<open>
  Between the channel and the chain: what a block leaves of a transaction's outputs in the UTXO table,
  that the cooperative close is a valid transaction where the funding's outputs are unspent, and that
  a transaction in final sequence takes the place of a pooled state of the channel.
\<close>

section \<open>Outputs in the UTXO table\<close>

definition outputs_unspent :: "externals \<Rightarrow> blockstore \<Rightarrow> tx \<Rightarrow> bool" where
  "outputs_unspent x s t \<longleftrightarrow>
     (\<forall>k < length (tx_outputs t). \<exists>h. sql_select (bs_utxos s) (x_txid x t, int k) =
        Some (out_value (tx_outputs t ! k), x_script_bytes x (script_pubkey (tx_outputs t ! k)), h))"

lemma created_row:
  assumes "k < length (tx_outputs t)"
  shows "map_of (created_rows x h t) (x_txid x t, int k) =
    Some (out_value (tx_outputs t ! k), x_script_bytes x (script_pubkey (tx_outputs t ! k)), h)"
proof (rule map_of_is_SomeI)
  show "distinct (map fst (created_rows x h t))" by (simp add: map_fst_created_rows distinct_created)
  have "(k, tx_outputs t ! k) \<in> set (List.enumerate 0 (tx_outputs t))"
    using assms by (simp add: in_set_enumerate_eq)
  then show "((x_txid x t, int k), out_value (tx_outputs t ! k),
      x_script_bytes x (script_pubkey (tx_outputs t ! k)), h) \<in> set (created_rows x h t)"
    by (force simp: created_rows_def)
qed

text \<open>A block leaves the outputs of its transactions in the table, when no later transaction of it
  has the same id or spends them.\<close>

lemma connected_outputs_unspent:
  assumes "sql_wf (bs_utxos s)" and "bs_utxos s' = fold (connect_tx_rows x h) txs (bs_utxos s)"
    and "distinct (map (x_txid x) txs)" and "t \<in> set txs"
    and "block_spent x txs \<inter> set (created_outpoints x t) = {}"
  shows "outputs_unspent x s' t"
  unfolding outputs_unspent_def
proof (intro allI impI)
  fix k assume k: "k < length (tx_outputs t)"
  let ?op = "(x_txid x t, int k)"
  obtain as bs where txs: "txs = as @ t # bs" using split_list [OF assms(4)] by blast
  have "?op \<in> set (created_outpoints x t)" using k by (simp add: created_outpoints_def)
  then have "?op \<notin> block_spent x bs" using assms(5) by (auto simp: txs block_spent_def)
  moreover have "?op \<notin> block_created x bs"
    using assms(3) by (auto simp: txs block_created_def created_outpoints_def)
  moreover have "sql_wf (fold (connect_tx_rows x h) (as @ [t]) (bs_utxos s))"
    by (rule connect_fold_wf [OF assms(1)])
  ultimately have "sql_select (bs_utxos s') ?op =
      sql_select (fold (connect_tx_rows x h) (as @ [t]) (bs_utxos s)) ?op"
    using connect_fold_outside [of _ ?op x bs h] by (simp add: assms(2) txs)
  also have "\<dots> = map_of (created_rows x h t) ?op"
    using connect_fold_wf [OF assms(1)] by (simp add: connect_tx_select created_row [OF k])
  finally show "\<exists>h. sql_select (bs_utxos s') ?op = Some (out_value (tx_outputs t ! k),
      x_script_bytes x (script_pubkey (tx_outputs t ! k)), h)"
    by (auto simp: created_row [OF k])
qed

section \<open>The close is valid where the funding is unspent\<close>

text \<open>The outputs the close says it spends are those of the funding transaction, up to the form of
  their scripts.\<close>

lemma close_utxos_nth:
  assumes "channel_wf x ch" and "channel_locking_script ch = Inr s"
    and "k < nat (1 + cfg_n (ch_cfg ch))"
  shows "k < length (tx_outputs (ch_funding_tx ch))"
    and "out_value (close_utxos x ch s ! k) = out_value (tx_outputs (ch_funding_tx ch) ! k)"
    and "x_script_bytes x (script_pubkey (close_utxos x ch s ! k)) =
      x_script_bytes x (script_pubkey (tx_outputs (ch_funding_tx ch) ! k))"
proof -
  note wf = channel_wfD [OF assms(1)] and canon = channel_wfD(4) [OF assms(1), unfolded canonical_funding_def]
  show len: "k < length (tx_outputs (ch_funding_tx ch))" using canon assms(3) by linarith
  have "out_value (close_utxos x ch s ! k) = out_value (tx_outputs (ch_funding_tx ch) ! k) \<and>
    x_script_bytes x (script_pubkey (close_utxos x ch s ! k)) =
      x_script_bytes x (script_pubkey (tx_outputs (ch_funding_tx ch) ! k))"
  proof (cases k)
    case 0
    have "s = script_pubkey (tx_outputs (ch_funding_tx ch) ! 0)"
      using assms(2) len 0 by (auto simp: channel_locking_script_def)
    then show ?thesis using canon by (simp add: 0 close_utxos_def)
  next
    case (Suc j)
    then have j: "j < nat (cfg_n (ch_cfg ch))" using assms(3) wf(6) by linarith
    then show ?thesis
      using canon by (simp add: Suc close_utxos_def wf(5) bond_utxo_def bond_of_def)
  qed
  then show "out_value (close_utxos x ch s ! k) = out_value (tx_outputs (ch_funding_tx ch) ! k)"
    and "x_script_bytes x (script_pubkey (close_utxos x ch s ! k)) =
      x_script_bytes x (script_pubkey (tx_outputs (ch_funding_tx ch) ! k))" by blast+
qed

lemma close_tx_valid:
  assumes "channel_wf x ch" and "cooperative_close x ch None = Inr (t, us)" and "\<not> x_is_coinbase x t"
    and "\<And>b. x_script_bytes x (x_script_of_bytes x b) = b"
    and "\<And>i v r r'. x_script_bytes x r = x_script_bytes x r' \<Longrightarrow>
      x_verify_input x t i (TxOutput v r) = x_verify_input x t i (TxOutput v r')"
    and "outputs_unspent x s (ch_funding_tx ch)"
  shows "tx_valid x s t" and "sum_list (map (input_value s) (tx_inputs t)) = outputs_total (tx_outputs t)"
proof -
  note wf = channel_wfD [OF assms(1)]
  have state: "valid_state (ch_cfg ch) (case None of Some s \<Rightarrow> s | None \<Rightarrow> ch_state ch)"
    using wf(3) by simp
  note close = cooperative_close_Inr [OF assms(1,2) state]
  note d = unsigned_viewD [OF close(2)]
  obtain t' r where "channel_locking_script ch = Inr r" and c: "cooperative_close x ch None =
      bindR (verify_all_inputs x t' (close_utxos x ch r)) (\<lambda>_. Inr (t', close_utxos x ch r))"
    using cooperative_close_eq [OF assms(1) close(1) state] by blast
  then have r: "channel_locking_script ch = Inr r" and
    "bindR (verify_all_inputs x t' (close_utxos x ch r)) (\<lambda>_. Inr (t', close_utxos x ch r)) = Inr (t, us)"
    using assms(2) by simp_all
  then have us: "us = close_utxos x ch r" by (simp add: bindR_eq_Inr)
  let ?outs = "tx_outputs (ch_funding_tx ch)"
  have len: "length (tx_inputs t) = nat (1 + cfg_n (ch_cfg ch))" using d(4) by (simp add: close_tx_def)
  have op: "outpoint_of (tx_inputs t ! i) = (x_txid x (ch_funding_tx ch), int i)" if i: "i < length (tx_inputs t)" for i
  proof -
    have "outpoint_of (tx_inputs t ! i) = map outpoint_of (tx_inputs t) ! i" using i by simp
    also have "\<dots> = (funding_txid x ch, int i)" using i len unfolding d(5) by (simp add: close_tx_def)
    finally show ?thesis by (simp add: funding_txid_def)
  qed
  have entry: "\<exists>e. get_utxo s (outpoint_of (tx_inputs t ! i)) = Some e \<and> ue_value e = out_value (us ! i) \<and>
      ue_script e = x_script_bytes x (script_pubkey (us ! i))" if i: "i < length (tx_inputs t)" for i
    using assms(6) close_utxos_nth [OF assms(1) r i [unfolded len]]
    by (auto simp: outputs_unspent_def op [OF i] get_utxo_def entry_of_row_def us)
  have "input_ok x s t i (tx_inputs t ! i)" if i: "i < length (tx_inputs t)" for i
  proof -
    obtain e where e: "get_utxo s (outpoint_of (tx_inputs t ! i)) = Some e"
      "ue_value e = out_value (us ! i)" "ue_script e = x_script_bytes x (script_pubkey (us ! i))"
      using entry [OF i] by blast
    have "x_verify_input x t i (as_txoutput x e) =
        x_verify_input x t i (TxOutput (out_value (us ! i)) (script_pubkey (us ! i)))"
      unfolding as_txoutput_def e(2) by (rule assms(5)) (simp add: assms(4) e(3))
    also have "TxOutput (out_value (us ! i)) (script_pubkey (us ! i)) = us ! i"
      by (simp add: TxOutput_def)
    also have "x_verify_input x t i (us ! i) = Inr True" using close(4,5) i by simp
    finally show ?thesis by (simp add: input_ok_def e(1) spend_verifies_iff)
  qed
  moreover have "0 \<le> out_value out" if "out \<in> set (tx_outputs t)" for out
    using that quantise_payout_nonneg [OF wf(1,3)] valid_configD(7) [OF wf(1)]
    unfolding d(2) by (fastforce simp: close_tx_def intro: add_nonneg_nonneg)
  moreover show "sum_list (map (input_value s) (tx_inputs t)) = outputs_total (tx_outputs t)"
  proof -
    have "map (input_value s) (tx_inputs t) = map out_value us"
      using entry close(4) by (intro nth_equalityI) (fastforce simp: input_value_def)+
    then show ?thesis
      using close(3) close_tx_total [OF wf(1,3), of x] d(2) by (simp add: outputs_total_def)
  qed
  ultimately show "tx_valid x s t" using assms(3) by (simp add: tx_valid_def)
qed

section \<open>The close and the pool\<close>

lemma all_txs_iff:
  assumes "mempool_wf x mp"
  shows "u \<in> set (all_txs mp) \<longleftrightarrow> (\<exists>e. dict_get (entries mp) (x_txid x u) = Some e \<and> me_tx e = u)"
proof
  assume "u \<in> set (all_txs mp)"
  then obtain k e where ke: "(k, e) \<in> set (entries mp)" "u = me_tx e" using all_txs_entry by blast
  then have "dict_get (entries mp) k = Some e" using dict.items_get [OF mempool_wfD(1) [OF assms]] by blast
  with mempool_wfD(3) [OF assms this] ke(2) show "\<exists>e. dict_get (entries mp) (x_txid x u) = Some e \<and> me_tx e = u"
    by auto
next
  assume "\<exists>e. dict_get (entries mp) (x_txid x u) = Some e \<and> me_tx e = u"
  then obtain e where "(x_txid x u, e) \<in> set (entries mp)" "me_tx e = u" using dict_get_mem by fastforce
  then show "u \<in> set (all_txs mp)" by (force simp: all_txs_def)
qed

text \<open>After an admission that is not refused the pool holds the transaction and, besides, only what it
  held before.\<close>

lemma admitted_pool:
  assumes "admit x s mp t = Inr (r, mp')" and "vr_ok r" and "mempool_wf x mp"
    and "\<not> mp_contains mp (x_txid x t)"
  shows "t \<in> set (all_txs mp')" and "set (all_txs mp') \<subseteq> insert t (set (all_txs mp))"
    and "r = validate_tx x t s False"
proof -
  show "r = validate_tx x t s False"
    by (rule admit_cases [OF assms(1)]) (use admit_verdict(1) [OF assms(1)] assms(2,4) in auto)
  note wf = admit_wf [OF assms(1,3)]
  have sub: "(\<exists>e. dict_get (entries mp') (x_txid x t) = Some e \<and> me_tx e = t) \<and>
      (\<forall>k e. k \<noteq> x_txid x t \<and> dict_get (entries mp') k = Some e \<longrightarrow> dict_get (entries mp) k = Some e)"
    using assms(1)
  proof (cases rule: admit_cases)
    case same
    then show ?thesis using admit_verdict(1) [OF assms(1)] assms(2,4) by simp
  qed (use evict_entries [OF mempool_wfD(1) [OF assms(3)]] in \<open>simp_all add: insert_entries\<close>)
  from sub show "t \<in> set (all_txs mp')" by (simp add: all_txs_iff [OF wf])
  have "u = t \<or> u \<in> set (all_txs mp)" if "u \<in> set (all_txs mp')" for u
  proof (cases "x_txid x u = x_txid x t")
    case True
    with that sub show ?thesis unfolding all_txs_iff [OF wf] by (metis option.inject)
  next
    case False
    with that sub show ?thesis unfolding all_txs_iff [OF wf] all_txs_iff [OF assms(3)] by blast
  qed
  then show "set (all_txs mp') \<subseteq> insert t (set (all_txs mp))" by blast
qed

lemma signed_state_below_final:
  assumes "channel_wf x ch" and "valid_state (ch_cfg ch) st" and "sign_state_tx x ch st = Inr (t, us)"
  shows "version st < FINAL_SEQUENCE"
  using assms(3) build_state_tx_exhausted [OF assms(1,2)]
  by (cases "version st < 0xFFFFFFFF") (auto simp: sign_state_tx_def require_confirmed_def sequence_constants
      split: if_splits)

text \<open>The transactions that spend outputs of the funding \<open>fid\<close> are settlements of its channel output
  in a sequence that is not final.\<close>

definition only_states_pending :: "bytes \<Rightarrow> tx list \<Rightarrow> bool" where
  "only_states_pending fid txs \<longleftrightarrow>
     (\<forall>u \<in> set txs. (\<exists>op \<in> set (tx_outpoints u). fst op = fid) \<longrightarrow>
        (\<exists>q < FINAL_SEQUENCE. settles fid q u))"

lemma settles_outpoints: "settles fid q u \<Longrightarrow> tx_outpoints u = [(fid, 0)]"
  by (auto simp: settles_def tx_outpoints_def outpoint_of_def)

lemma admit_final:
  assumes "mempool_wf x mp" and "tx_valid x s t" and "\<not> mp_contains mp (x_txid x t)"
    and "\<forall>op \<in> set (tx_outpoints t). fst op = fid" and "(fid, 0) \<in> set (tx_outpoints t)"
    and "\<forall>i \<in> set (tx_inputs t). sequence i = FINAL_SEQUENCE"
    and "only_states_pending fid (all_txs mp)"
  obtains r mp' where "admit x s mp t = Inr (r, mp')" "vr_ok r" "mempool_wf x mp'" "r = validate_tx x t s False"
    "t \<in> set (all_txs mp')" "set (all_txs mp') \<subseteq> insert t (set (all_txs mp))"
    "\<forall>u \<in> set (all_txs mp'). (\<exists>op \<in> set (tx_outpoints u). fst op = fid) \<longrightarrow> u = t"
proof -
  obtain r mp' where ad: "admit x s mp t = Inr (r, mp')" using admit_total [OF assms(1)] by blast
  have pooled: "\<exists>q e. dict_get (entries mp) k = Some e \<and> settles fid q (me_tx e) \<and> q < FINAL_SEQUENCE \<and>
      dict_get (spent_by mp) (fid, 0) = Some k" if k: "k \<in> conflicting_txids x mp t" for k
  proof -
    obtain op where op: "op \<in> set (tx_outpoints t)" "dict_get (spent_by mp) op = Some k"
      using k by (auto simp: conflicting_txids_iff)
    obtain e where e: "dict_get (entries mp) k = Some e" "op \<in> set (tx_outpoints (me_tx e))"
      using mempool_wfD(5) [OF assms(1) op(2)] by blast
    then have "me_tx e \<in> set (all_txs mp)" using dict_get_mem [OF e(1)] by (force simp: all_txs_def)
    then obtain q where q: "q < FINAL_SEQUENCE" "settles fid q (me_tx e)"
      using assms(4,7) op(1) e(2) by (auto simp: only_states_pending_def)
    then show ?thesis
      using mempool_wfD(4) [OF assms(1) e(1), of "(fid, 0)"] e(1) by (auto simp: settles_outpoints)
  qed
  have ok: "vr_ok r"
  proof (cases "conflicting_txids x mp t = {}")
    case True
    then show ?thesis
      using ad assms(2,3) validate_tx_ok_iff [of x t s] by (auto simp: admit_def Let_def)
  next
    case False
    then obtain k where k: "k \<in> conflicting_txids x mp t" by blast
    obtain q e where e: "dict_get (entries mp) k = Some e" "settles fid q (me_tx e)" "q < FINAL_SEQUENCE"
      "dict_get (spent_by mp) (fid, 0) = Some k" using pooled [OF k] by blast
    have c: "conflicting_txids x mp t = {k}" using k pooled e(4) by force
    have "sequence_violation (sequences_by_outpoint (me_tx e)) (tx_inputs t) = None"
      unfolding sequence_violation_None using e(2,3) assms(6)
      by (auto simp: sequences_by_outpoint_def settles_def dict.get_put split: if_splits)
    then show ?thesis
      using ad assms(2,3) e(1) unfolding admit_def Let_def c
      using validate_tx_ok_iff [of x t s] by (auto simp: dict_index_def)
  qed
  note wf = admit_wf [OF ad assms(1)] and pool = admitted_pool [OF ad ok assms(1,3)]
  have "u = t" if u: "u \<in> set (all_txs mp')" "op \<in> set (tx_outpoints u)" "fst op = fid" for u op
  proof (rule ccontr)
    assume "u \<noteq> t"
    then have old: "u \<in> set (all_txs mp)" using pool(2) u(1) by blast
    then obtain q where "settles fid q u" using assms(7) u(2,3) by (auto simp: only_states_pending_def)
    then have "x_txid x u = x_txid x t"
      using all_txs_disjoint [OF wf u(1) pool(1), of "(fid, 0)"] assms(5) by (simp add: settles_outpoints)
    with old assms(3) show False by (auto simp: all_txs_iff [OF assms(1)] mp_contains_def)
  qed
  then show ?thesis using that [OF ad ok wf pool(3,1,2)] by blast
qed

section \<open>The block that takes the close in\<close>

lemma generate_spends:
  assumes "generate_block x script True extra ts nd = Inr ((h, txs), nd')"
    and "sql_wf (bs_utxos (nd_blockstore nd))" and "mempool_wf x (nd_mempool nd)"
    and "\<forall>u \<in> set (all_txs (nd_mempool nd)). tx_valid x (nd_blockstore nd) u"
    and "x_is_coinbase x (hd txs)" and "x_txid x (hd txs) \<notin> x_txid x ` set (tl txs)"
    and "block_fresh x txs (bs_utxos (nd_blockstore nd))" and "t \<in> set (all_txs (nd_mempool nd))"
  shows "outputs_unspent x (nd_blockstore nd') t"
    and "op \<in> set (tx_outpoints t) \<Longrightarrow> get_utxo (nd_blockstore nd') op = None"
proof -
  let ?ts = "all_txs (nd_mempool nd)" and ?tbl = "bs_utxos (nd_blockstore nd)"
  obtain n where txs: "tl txs = ?ts" "txs \<noteq> []"
    and tbl: "bs_utxos (nd_blockstore nd') = fold (connect_tx_rows x n) txs ?tbl"
    by (rule generate_block_Inr [OF assms(1)]) auto
  have split: "txs = hd txs # ?ts" using txs by (metis list.collapse)
  have spent: "spent_outpoints x u = tx_outpoints u" if "u \<in> set ?ts" for u
    using assms(4) that by (auto simp: spent_outpoints_def tx_valid_def tx_outpoints_def)
  have all_spent: "block_spent x txs = (\<Union>u \<in> set ?ts. set (tx_outpoints u))"
    using spent assms(5) by (subst split) (auto simp: block_sets_Cons block_spent_def spent_outpoints_def)
  have present: "sql_select ?tbl k \<noteq> None" if "k \<in> block_spent x txs" for k
    using that assms(4) tx_valid_inputs_present unfolding all_spent by blast
  have disjoint: "block_spent x txs \<inter> block_created x txs = {}"
    using present block_freshD [OF assms(7)] by blast
  have t: "t \<in> set txs" using assms(8) by (subst split) simp
  have "distinct (map (x_txid x) txs)"
    using assms(6) all_txs_distinct_ids [OF assms(3)] txs(1) by (subst split) simp
  then show "outputs_unspent x (nd_blockstore nd') t"
    using disjoint t by (intro connected_outputs_unspent [OF assms(2) tbl]) (auto simp: block_created_def)
  show "get_utxo (nd_blockstore nd') op = None" if "op \<in> set (tx_outpoints t)"
  proof -
    have op: "op \<in> block_spent x txs" using that assms(8) by (auto simp: all_spent)
    then have "op \<notin> block_created x txs" using disjoint by blast
    with op show ?thesis by (simp add: get_utxo_def tbl connect_fold_outside [OF assms(2)])
  qed
qed

end
