(* ===== verification/Settlement_Properties.thy ===== *)
theory Settlement_Properties
  imports Settlement_Facts Watchtower_Properties
begin

text \<open>
  From the channel to the chain: the cooperative close goes through the mempool of the node into a
  block, and what it pays is in the UTXO table.
\<close>

section \<open>Settling on the chain\<close>

text \<open>C15. A cooperative close settles on the chain.  On a node whose UTXO table holds the outputs of
  the channel's funding transaction, and whose pool holds no spends of them but signed states of the
  channel, the close is admitted: it takes the place of the pooled state and is then the only pooled
  spend of the funding.  Every block generated from this pool leaves the outputs of the close in the
  UTXO table, and the channel output and all the bonds are gone.  The hypotheses on scripts say that a
  script is its bytes, and that the interpreter judges an output by its value and its script bytes;
  those on the block say that its coinbase is one and that its outputs are new.\<close>

theorem cooperative_close_settles_on_chain:
  assumes "channel_wf x ch" and "cooperative_close x ch None = Inr (t, us)" and "\<not> x_is_coinbase x t"
    and "\<And>b. x_script_bytes x (x_script_of_bytes x b) = b"
    and "\<And>i v r r'. x_script_bytes x r = x_script_bytes x r' \<Longrightarrow>
      x_verify_input x t i (TxOutput v r) = x_verify_input x t i (TxOutput v r')"
    and "sql_wf (bs_utxos (nd_blockstore nd))" and "outputs_unspent x (nd_blockstore nd) (ch_funding_tx ch)"
    and "mempool_wf x (nd_mempool nd)" and "\<not> mp_contains (nd_mempool nd) (x_txid x t)"
    and "\<forall>u \<in> set (all_txs (nd_mempool nd)). tx_valid x (nd_blockstore nd) u"
    and "\<forall>u \<in> set (all_txs (nd_mempool nd)). funding_txid x ch \<in> fst ` set (tx_outpoints u) \<longrightarrow>
      (\<exists>st vs. valid_state (ch_cfg ch) st \<and> sign_state_tx x ch st = Inr (u, vs))"
  shows "\<exists>r nd1. submit_tx x nd t = Inr (r, nd1) \<and> vr_ok r \<and> vr_fee r = 0 \<and>
    t \<in> set (all_txs (nd_mempool nd1)) \<and>
    (\<forall>u \<in> set (all_txs (nd_mempool nd1)). funding_txid x ch \<in> fst ` set (tx_outpoints u) \<longrightarrow> u = t) \<and>
    (\<forall>script extra ts h txs nd2. generate_block x script True extra ts nd1 = Inr ((h, txs), nd2) \<and>
       x_is_coinbase x (hd txs) \<and> x_txid x (hd txs) \<notin> x_txid x ` set (tl txs) \<and>
       block_fresh x txs (bs_utxos (nd_blockstore nd)) \<longrightarrow>
       outputs_unspent x (nd_blockstore nd2) t \<and>
       (\<forall>i \<in> set (py_range (1 + cfg_n (ch_cfg ch))). get_utxo (nd_blockstore nd2) (funding_txid x ch, i) = None))"
proof -
  have state: "valid_state (ch_cfg ch) (case None of Some s \<Rightarrow> s | None \<Rightarrow> ch_state ch)"
    using channel_wfD(3) [OF assms(1)] by simp
  note d = unsigned_viewD [OF cooperative_close_Inr(2) [OF assms(1,2) state]]
  have valid: "tx_valid x (nd_blockstore nd) t"
    by (rule close_tx_valid(1) [OF assms(1-5,7)])
  have ops: "tx_outpoints t = map (\<lambda>i. (funding_txid x ch, i)) (py_range (1 + cfg_n (ch_cfg ch)))"
    using d(5) by (simp add: tx_outpoints_def close_tx_def)
  have spends: "\<forall>op \<in> set (tx_outpoints t). fst op = funding_txid x ch"
    "(funding_txid x ch, 0) \<in> set (tx_outpoints t)"
    using channel_wfD(6) [OF assms(1)] by (auto simp: ops)
  have "set (map sequence (tx_inputs t)) \<subseteq> {FINAL_SEQUENCE}" unfolding d(6) by (auto simp: close_tx_def)
  then have final: "\<forall>i \<in> set (tx_inputs t). sequence i = FINAL_SEQUENCE" by auto
  have pending: "only_states_pending (funding_txid x ch) (all_txs (nd_mempool nd))"
    unfolding only_states_pending_def
  proof (intro ballI impI)
    fix u assume u: "u \<in> set (all_txs (nd_mempool nd))" "\<exists>op \<in> set (tx_outpoints u). fst op = funding_txid x ch"
    then obtain st vs where st: "valid_state (ch_cfg ch) st" "sign_state_tx x ch st = Inr (u, vs)"
      using assms(11) by force
    show "\<exists>q < FINAL_SEQUENCE. settles (funding_txid x ch) q u"
      by (intro exI [of _ "version st"] conjI signed_state_below_final [OF assms(1) st]
          signed_state_settles [OF assms(1) st])
  qed
  obtain r mp where mp: "admit x (nd_blockstore nd) (nd_mempool nd) t = Inr (r, mp)" "vr_ok r"
    "mempool_wf x mp" "r = validate_tx x t (nd_blockstore nd) False"
    "t \<in> set (all_txs mp)" "set (all_txs mp) \<subseteq> insert t (set (all_txs (nd_mempool nd)))"
    "\<forall>u \<in> set (all_txs mp). (\<exists>op \<in> set (tx_outpoints u). fst op = funding_txid x ch) \<longrightarrow> u = t"
    by (rule admit_final [OF assms(8) valid assms(9) spends final pending], rule that, assumption+)
  let ?nd1 = "nd\<lparr>nd_mempool := mp\<rparr>"
  have "tx_valid x (nd_blockstore nd) u" if "u \<in> set (all_txs mp)" for u
    using that mp(6) valid assms(10) by blast
  then have all_valid: "\<forall>u \<in> set (all_txs (nd_mempool ?nd1)). tx_valid x (nd_blockstore ?nd1) u" by simp
  have block: "outputs_unspent x (nd_blockstore nd2) t \<and>
       (\<forall>i \<in> set (py_range (1 + cfg_n (ch_cfg ch))). get_utxo (nd_blockstore nd2) (funding_txid x ch, i) = None)"
    if "generate_block x script True extra ts ?nd1 = Inr ((h, txs), nd2)" "x_is_coinbase x (hd txs)"
      "x_txid x (hd txs) \<notin> x_txid x ` set (tl txs)" "block_fresh x txs (bs_utxos (nd_blockstore nd))"
    for script extra ts h txs nd2
  proof (intro conjI ballI)
    note gen = generate_spends [OF that(1) _ _ all_valid that(2,3), of t, simplified, OF assms(6) mp(3) that(4) mp(5)]
    show "outputs_unspent x (nd_blockstore nd2) t" by (rule gen(1))
    show "get_utxo (nd_blockstore nd2) (funding_txid x ch, i) = None"
      if "i \<in> set (py_range (1 + cfg_n (ch_cfg ch)))" for i
      by (rule gen(2)) (use that in \<open>simp add: ops del: set_py_range\<close>)
  qed
  have only: "\<forall>u \<in> set (all_txs (nd_mempool ?nd1)). funding_txid x ch \<in> fst ` set (tx_outpoints u) \<longrightarrow> u = t"
  proof (intro ballI impI)
    fix u assume "u \<in> set (all_txs (nd_mempool ?nd1))" "funding_txid x ch \<in> fst ` set (tx_outpoints u)"
    then show "u = t" using mp(7) by force
  qed
  have submitted: "submit_tx x nd t = Inr (r, ?nd1)" and pooled: "t \<in> set (all_txs (nd_mempool ?nd1))"
    using mp(1,5) by (simp_all add: submit_tx_def)
  have fee: "vr_fee r = 0"
    using mp(2) validate_tx_fee(1) [of x t "nd_blockstore nd"] close_tx_valid(2) [OF assms(1-5,7)]
    unfolding mp(4) by simp
  show ?thesis
    by (rule exI [of _ r], rule exI [of _ ?nd1],
        rule conjI [OF submitted conjI [OF mp(2) conjI [OF fee conjI [OF pooled conjI [OF only]]]]])
      (intro allI impI, elim conjE, erule (3) block)
qed

section \<open>A sample settlement\<close>

text \<open>The sample node with the funding transaction of the sample channel in its UTXO table.\<close>

definition sample_funded :: node where
  "sample_funded = sample_node\<lparr>nd_blockstore :=
     connect_block_utxos sample 1 [ch_funding_tx sample_channel] (nd_blockstore sample_node)\<rparr>"

lemma sample_funded_sel:
  "bs_utxos (nd_blockstore sample_funded) = fold (connect_tx_rows sample 1) [ch_funding_tx sample_open] []"
  "nd_mempool sample_funded = empty_mempool" "nd_headers sample_funded = nd_headers sample_node"
  "coinbase_reward sample_funded = 5000000000"
  by (simp_all add: sample_funded_def sample_node_eq(2) connect_block_utxos_def store_block_def
      empty_blockstore_def)

lemma sample_funding_id: "sample_txid (ch_funding_tx sample_open) = sample_fid"
  using sample_fid_eq by (simp add: funding_txid_def)

lemma sample_fid_second: "sample_fid ! 1 = 3"
  by (simp add: sample_fid_def)

lemma sample_funded_wf: "sql_wf (bs_utxos (nd_blockstore sample_funded))"
  unfolding sample_funded_sel by (rule connect_fold_wf) (simp add: sql_wf_def)

lemma sample_funded_unspent: "outputs_unspent sample (nd_blockstore sample_funded) (ch_funding_tx sample_open)"
proof (rule connected_outputs_unspent [where s = empty_blockstore])
  have "([1], 3) \<notin> set (created_outpoints sample (ch_funding_tx sample_open))"
    by (auto simp: created_outpoints_def sample_funding_id sample_fid_def)
  then show "block_spent sample [ch_funding_tx sample_open] \<inter>
      set (created_outpoints sample (ch_funding_tx sample_open)) = {}"
    by (simp add: block_spent_def spent_outpoints_def sample_funding_tx outpoint_of_def)
qed (simp_all add: sample_funded_sel(1) empty_blockstore_def sql_wf_def)

text \<open>Every row of the table belongs to the funding.\<close>

lemma sample_funded_rows:
  assumes "fst op \<noteq> sample_fid"
  shows "sql_select (bs_utxos (nd_blockstore sample_funded)) op = None"
proof -
  have "op \<notin> block_created sample [ch_funding_tx sample_open]"
    using assms by (auto simp: block_created_def created_outpoints_def sample_funding_id)
  then show ?thesis
    unfolding sample_funded_sel by (subst connect_fold_outside) (simp_all add: sql_wf_def sql_select_def)
qed

lemma sample_funded_channel_output:
  obtains e where "get_utxo (nd_blockstore sample_funded) (sample_fid, 0) = Some e" "ue_value e = 7"
proof -
  have "0 < length (tx_outputs (ch_funding_tx sample_open))" "out_value (tx_outputs (ch_funding_tx sample_open) ! 0) = 7"
    by (simp_all add: sample_funding_tx sample_cfg_def)
  then obtain b h where "sql_select (bs_utxos (nd_blockstore sample_funded)) (sample_fid, int 0) = Some (7, b, h)"
    using sample_funded_unspent unfolding outputs_unspent_def by (metis sample_sel(1) sample_funding_id)
  then show ?thesis by (intro that [of "entry_of_row (sample_fid, 0) (7, b, h)"])
    (simp_all add: get_utxo_def, simp add: entry_of_row_def)
qed

text \<open>The close carries the signatures of the channel output behind an \<open>OP_0\<close>.\<close>

lemma sign_bond_returns_first:
  assumes "sign_bond_returns x ch t = Inr t'"
  shows "tx_inputs t' ! 0 = tx_inputs t ! 0"
proof -
  have "(\<lambda>u. tx_inputs u ! 0 = tx_inputs t ! 0) t'"
  proof (rule foldR_invariant [OF assms [unfolded sign_bond_returns_def]])
    fix u i u' assume i: "i \<in> set (py_range (cfg_n (ch_cfg ch)))" and u: "tx_inputs u ! 0 = tx_inputs t ! 0"
      and "bindR (py_nth (ch_bonds ch) i) (\<lambda>b. bindR (kb_private (ch_keybook ch) i) (\<lambda>k.
        bindR (sign_bond_return x u (nat (1 + i)) b k) (\<lambda>s.
          return (set_script_sig u (nat (1 + i)) s)))) = Inr u'"
    then obtain s where "u' = set_script_sig u (nat (1 + i)) s" by (auto simp: bindR_eq_Inr)
    with i u show "tx_inputs u' ! 0 = tx_inputs t ! 0" by (simp add: set_script_sig_def nth_list_update_neq)
  qed simp
  then show ?thesis .
qed

lemma close_unlocks_channel:
  assumes "channel_wf x ch" and "cooperative_close x ch None = Inr (t, us)"
  shows "\<exists>sigs. script_sig (tx_inputs t ! 0) = Op OP_0 # map Push sigs"
proof -
  note wf = channel_wfD [OF assms(1)]
  obtain s where s: "channel_locking_script ch = Inr s" using wf_channel_output(2) [OF assms(1)] by blast
  obtain sigs where "sign_bond_returns x ch (set_script_sig (close_tx x ch (ch_state ch)) 0
      (push_sigs [Op OP_0] sigs)) = Inr t"
    using assms(2) by (auto simp: cooperative_close_def require_confirmed_def bindR_eq_Inr
        build_close_tx_eq [OF assms(1) wf(3) s] channel_funding_unlock_def split: if_splits)
  from sign_bond_returns_first [OF this] wf(6)
  have "tx_inputs t ! 0 = TxInput (funding_txid x ch) 0 (push_sigs [Op OP_0] sigs) FINAL_SEQUENCE"
    by (simp add: set_script_sig_def close_tx_def)
  then show ?thesis by (intro exI [of _ sigs]) (simp add: push_sigs_eq)
qed

lemma sample_close_id:
  assumes "cooperative_close sample sample_channel None = Inr (t, us)"
  shows "sample_txid t = replicate 32 0" and "\<not> x_is_coinbase sample t"
proof -
  have state: "valid_state (ch_cfg sample_channel) (case None of Some s \<Rightarrow> s | None \<Rightarrow> ch_state sample_channel)"
    using sample_state_valid by simp
  note d = unsigned_viewD [OF cooperative_close_Inr(2) [OF sample_channel_wf assms state]]
  obtain sigs where sig: "script_sig (tx_inputs t ! 0) = Op OP_0 # map Push sigs"
    using close_unlocks_channel [OF sample_channel_wf assms] by blast
  have len: "length (tx_inputs t) = 4" using d(4) by (simp add: close_tx_def sample_cfg_def)
  then obtain i ins where i: "tx_inputs t = i # ins" by (cases "tx_inputs t") auto
  have "outpoint_of i = (sample_fid, 0)" "sequence i = FINAL_SEQUENCE"
    using d(5,6) unfolding i by (simp_all add: close_tx_def sample_cfg_def py_range_def sample_fid_eq upt_rec)
  then have "prev_idx i = 0" "word_of_int (sequence i + 1) = (0 :: byte)"
    by (simp_all add: outpoint_of_def sequence_constants)
  moreover have "script_sig i = Op OP_0 # map Push sigs" using sig by (simp add: i)
  moreover have "tx_locktime t = 0" using d(3) by (simp add: close_tx_def sequence_constants COOP_LOCKTIME_def)
  ultimately show "sample_txid t = replicate 32 0" by (simp add: sample_txid_def i numeral_eq_Suc)
  have "length (map prev_hash (tx_inputs t)) \<noteq> 1" using len by simp
  then show "\<not> x_is_coinbase sample t" by (auto simp del: length_map)
qed

lemma sample_script_laws:
  "x_script_bytes sample (x_script_of_bytes sample b) = b"
  by (induction b) simp_all

lemma sample_tx_ids:
  assumes "cooperative_close sample sample_channel None = Inr (t, us)"
  shows "sample_txid t \<noteq> sample_fid" "sample_txid sample_coinbase \<noteq> sample_fid"
    "sample_txid sample_coinbase \<noteq> sample_txid t"
proof -
  have cb: "sample_txid sample_coinbase ! 1 = 0xFF"
    by (simp add: sample_txid_def sample_coinbase_def make_coinbase_def Let_def)
  show "sample_txid t \<noteq> sample_fid"
  proof
    assume "sample_txid t = sample_fid"
    then have "replicate 32 0 ! 1 = (3 :: byte)" using sample_close_id(1) [OF assms] sample_fid_second by simp
    then show False by simp
  qed
  show "sample_txid sample_coinbase \<noteq> sample_fid" using cb sample_fid_second by auto
  show "sample_txid sample_coinbase \<noteq> sample_txid t"
  proof
    assume "sample_txid sample_coinbase = sample_txid t"
    then have "replicate 32 0 ! 1 = (0xFF :: byte)" using sample_close_id(1) [OF assms] cb by simp
    then show False by simp
  qed
qed

lemma singleton_pool:
  assumes "mempool_wf x mp" and "set (all_txs mp) = {t}"
  shows "all_txs mp = [t]"
proof -
  have "distinct (all_txs mp)" using all_txs_distinct_ids [OF assms(1)] by (simp add: distinct_map)
  with assms(2) show ?thesis by (cases "all_txs mp") (auto dest: subset_singletonD)
qed

text \<open>The state that the close takes the place of, alone in the pool.\<close>

lemma sample_stale_pooled:
  obtains stale vs r nd where "sign_state_tx sample sample_channel sample_old_state = Inr (stale, vs)"
    "valid_state sample_cfg sample_old_state" "submit_tx sample sample_funded stale = Inr (r, nd)"
    "vr_ok r" "nd_blockstore nd = nd_blockstore sample_funded" "nd_headers nd = nd_headers sample_node"
    "coinbase_reward nd = 5000000000" "mempool_wf sample (nd_mempool nd)"
    "all_txs (nd_mempool nd) = [stale]" "tx_valid sample (nd_blockstore nd) stale"
    "sample_txid stale \<noteq> replicate 32 0"
proof -
  have old: "valid_state sample_cfg sample_old_state"
    by (simp add: valid_state_def sample_cfg_def sample_old_state_def)
  obtain stale vs where stale: "sign_state_tx sample sample_channel sample_old_state = Inr (stale, vs)"
    using sign_state_tx_ok [OF sample_channel_wf, of sample_old_state] old
    by (auto simp: sample_old_state_def)
  obtain e where e: "get_utxo (nd_blockstore sample_funded) (sample_fid, 0) = Some e" "ue_value e = 7"
    by (rule sample_funded_channel_output)
  have valid: "tx_valid sample (nd_blockstore sample_funded) stale"
    by (rule sample_signed(2) [OF stale old e])
  obtain r mp where ad: "admit sample (nd_blockstore sample_funded) empty_mempool stale = Inr (r, mp)"
    using admit_total [OF empty_mempool_wf] by blast
  have new: "\<not> mp_contains empty_mempool (x_txid sample stale)"
    by (simp add: mp_contains_def empty_mempool_def dict_get_def)
  have ok: "vr_ok r"
    using ad valid validate_tx_ok_iff [of sample stale "nd_blockstore sample_funded"] new
    by (auto simp: admit_def Let_def conflicting_txids_def empty_mempool_def dict_get_def)
  note pool = admitted_pool [OF ad ok empty_mempool_wf new] and wf = admit_wf [OF ad empty_mempool_wf]
  have "all_txs mp = [stale]"
    by (rule singleton_pool [OF wf]) (use pool(1,2) in \<open>auto simp: all_txs_def empty_mempool_def\<close>)
  moreover have "sample_txid stale ! 2 \<noteq> replicate 32 0 ! 2"
    using sample_signed(1) [OF stale old] by (simp add: sample_old_state_def)
  ultimately show ?thesis
    using stale old ad ok wf valid
    by (intro that [of stale vs r "sample_funded\<lparr>nd_mempool := mp\<rparr>"])
      (auto simp: submit_tx_def sample_funded_sel)
qed

text \<open>Then the close is alone in the pool, and pays no fee.\<close>

lemma sample_close_alone:
  assumes "submit_tx sample nd t = Inr (r, nd1)" "vr_ok r" "vr_fee r = 0" "mempool_wf sample (nd_mempool nd)"
    and "\<not> mp_contains (nd_mempool nd) (x_txid sample t)" "all_txs (nd_mempool nd) = [stale]"
    and "settles sample_fid q stale"
    and "\<forall>u \<in> set (all_txs (nd_mempool nd1)). sample_fid \<in> fst ` set (tx_outpoints u) \<longrightarrow> u = t"
  shows "all_txs (nd_mempool nd1) = [t]" and "nd_blockstore nd1 = nd_blockstore nd"
    and "nd_headers nd1 = nd_headers nd" and "coinbase_reward nd1 = coinbase_reward nd"
    and "valid_fee sample (nd_blockstore nd1) t = 0"
proof -
  obtain mp where ad: "admit sample (nd_blockstore nd) (nd_mempool nd) t = Inr (r, mp)"
    and nd1: "nd1 = nd\<lparr>nd_mempool := mp\<rparr>"
    using assms(1) by (auto simp: submit_tx_def bindR_eq_Inr)
  note pool = admitted_pool [OF ad assms(2,4,5)]
  have spends: "sample_fid \<in> fst ` set (tx_outpoints stale)"
    using assms(7) by (simp add: settles_outpoints)
  have "u = t" if u: "u \<in> set (all_txs mp)" for u
  proof (cases "u = stale")
    case True
    with u assms(8) spends show ?thesis by (simp add: nd1)
  next
    case False
    have "set (all_txs mp) \<subseteq> {t, stale}" using pool(2) assms(6) by simp
    with False u show ?thesis by blast
  qed
  with pool(1) have "set (all_txs mp) = {t}" by blast
  then show "all_txs (nd_mempool nd1) = [t]"
    using singleton_pool [OF admit_wf [OF ad assms(4)]] by (simp add: nd1)
  show "valid_fee sample (nd_blockstore nd1) t = 0"
    using assms(2,3) pool(3) by (simp add: valid_fee_def Let_def nd1)
qed (use assms(1) in \<open>auto simp: submit_tx_def bindR_eq_Inr\<close>)

text \<open>The block of the coinbase and the close.\<close>

lemma sample_settling_block:
  assumes "cooperative_close sample sample_channel None = Inr (t, us)"
    and "nd_headers nd = nd_headers sample_node" "coinbase_reward nd = 5000000000"
    and "all_txs (nd_mempool nd) = [t]" "valid_fee sample (nd_blockstore nd) t = 0"
    and "nd_blockstore nd = nd_blockstore sample_funded"
  obtains h txs nd' where "generate_block sample [] True [] 77 nd = Inr ((h, txs), nd')"
    "x_is_coinbase sample (hd txs)" "x_txid sample (hd txs) \<notin> x_txid sample ` set (tl txs)"
    "block_fresh sample txs (bs_utxos (nd_blockstore nd))"
proof -
  have "length (merkle_root sample [a, b]) = 32" for a b
    by (simp add: merkle_root_def merkle_levels_step pad_level_def)
  then obtain nd' where gen: "generate_block sample [] True [] 77 nd = Inr ((sample_hash 77, [sample_coinbase, t]), nd')"
    using sample_generates [OF assms(2,3)] assms(4,5) by auto
  note ids = sample_tx_ids [OF assms(1)]
  have "block_fresh sample [sample_coinbase, t] (bs_utxos (nd_blockstore nd))"
    using ids(1,2) by (auto simp: block_fresh_def created_outpoints_def assms(6) intro!: sample_funded_rows)
  with gen show ?thesis
    using sample_coinbase_facts(1) ids(3) by (intro that [OF gen]) auto
qed

theorem cooperative_close_settles_on_chain_witness:
  "\<exists>t us stale vs r nd r' nd1 h txs nd2. cooperative_close sample sample_channel None = Inr (t, us) \<and>
     sign_state_tx sample sample_channel sample_old_state = Inr (stale, vs) \<and>
     submit_tx sample sample_funded stale = Inr (r, nd) \<and> vr_ok r \<and>
     submit_tx sample nd t = Inr (r', nd1) \<and> all_txs (nd_mempool nd1) = [t] \<and>
     generate_block sample [] True [] 77 nd1 = Inr ((h, txs), nd2) \<and>
     outputs_unspent sample (nd_blockstore nd2) t \<and> get_utxo (nd_blockstore nd2) (sample_fid, 0) = None"
proof -
  obtain t us where close: "cooperative_close sample sample_channel None = Inr (t, us)"
    using sample_close by blast
  note id = sample_close_id(1) [OF close]
  obtain stale vs r nd where old: "sign_state_tx sample sample_channel sample_old_state = Inr (stale, vs)"
    "valid_state sample_cfg sample_old_state" "submit_tx sample sample_funded stale = Inr (r, nd)" "vr_ok r"
    and nd: "nd_blockstore nd = nd_blockstore sample_funded" "nd_headers nd = nd_headers sample_node"
    "coinbase_reward nd = 5000000000" "mempool_wf sample (nd_mempool nd)"
    and pool: "all_txs (nd_mempool nd) = [stale]" "tx_valid sample (nd_blockstore nd) stale"
    "sample_txid stale \<noteq> replicate 32 0"
    by (rule sample_stale_pooled)
  have new: "\<not> mp_contains (nd_mempool nd) (x_txid sample t)"
    using pool(1,3) id all_txs_ids [OF nd(4)] by (auto simp: mp_contains_def dict_get_def dest: map_of_SomeD)
  have signed: "\<forall>u \<in> set (all_txs (nd_mempool nd)). funding_txid sample sample_channel \<in> fst ` set (tx_outpoints u) \<longrightarrow>
      (\<exists>st vs. valid_state (ch_cfg sample_channel) st \<and> sign_state_tx sample sample_channel st = Inr (u, vs))"
    using old(1,2) pool(1) by auto
  have judged: "x_verify_input sample t i (TxOutput v a) = x_verify_input sample t i (TxOutput v b)" for i v a b
    by simp
  have funded: "sql_wf (bs_utxos (nd_blockstore nd))"
    "outputs_unspent sample (nd_blockstore nd) (ch_funding_tx sample_channel)"
    using sample_funded_wf sample_funded_unspent by (simp_all add: nd(1))
  have "\<forall>u \<in> set (all_txs (nd_mempool nd)). tx_valid sample (nd_blockstore nd) u"
    using pool(1,2) by simp
  note settle = cooperative_close_settles_on_chain [of sample sample_channel t us nd, OF sample_channel_wf close
        sample_close_id(2) [OF close] sample_script_laws judged funded nd(4) new this signed, unfolded nd(1) sample_fid_eq]
  obtain r' nd1 where sub: "submit_tx sample nd t = Inr (r', nd1)" "vr_ok r'" "vr_fee r' = 0"
    and only: "\<forall>u \<in> set (all_txs (nd_mempool nd1)). sample_fid \<in> fst ` set (tx_outpoints u) \<longrightarrow> u = t"
    and mined: "\<forall>script extra ts h txs nd2. generate_block sample script True extra ts nd1 = Inr ((h, txs), nd2) \<and>
       x_is_coinbase sample (hd txs) \<and> x_txid sample (hd txs) \<notin> x_txid sample ` set (tl txs) \<and>
       block_fresh sample txs (bs_utxos (nd_blockstore sample_funded)) \<longrightarrow>
       outputs_unspent sample (nd_blockstore nd2) t \<and>
       (\<forall>i \<in> set (py_range (1 + cfg_n (ch_cfg sample_channel))). get_utxo (nd_blockstore nd2) (sample_fid, i) = None)"
    using settle by (elim exE conjE) (rule that)
  have "settles sample_fid (version sample_old_state) stale"
    using signed_state_settles [OF sample_channel_wf _ old(1)] old(2) by (simp add: sample_fid_eq)
  note alone = sample_close_alone [OF sub nd(4) new pool(1) this only]
  then obtain h txs nd2 where gen: "generate_block sample [] True [] 77 nd1 = Inr ((h, txs), nd2)"
    "x_is_coinbase sample (hd txs)" "x_txid sample (hd txs) \<notin> x_txid sample ` set (tl txs)"
    "block_fresh sample txs (bs_utxos (nd_blockstore nd1))"
    using sample_settling_block [OF close, of nd1] alone nd by auto
  then have "outputs_unspent sample (nd_blockstore nd2) t \<and> get_utxo (nd_blockstore nd2) (sample_fid, 0) = None"
    using mined [rule_format, of "[]" "[]" 77 h txs nd2] by (simp add: alone(2) nd(1) sample_cfg_def)
  with close old(1,3,4) sub(1) alone(1) gen(1) show ?thesis by blast
qed

end
