(* ===== verification/Service.thy ===== *)
theory Service
  imports Channel_Manager Watchtower Node_Supply
begin

text \<open>
  The daemon's service: metrics and health (\<open>obs/\<close>) and the request dispatcher (\<open>daemon.py\<close>).  The
  service holds the node, the manager and one tower.  A connection is the bytes that were sent and the
  bytes that come back, one JSON text on a line each way; the handler answers every line, with the
  dispatcher's response or with a report of the exception.  Sockets are not modelled, and of the
  threads the order in which they answer.
\<close>

section \<open>Metrics and health\<close>

text \<open>Gauges are floats, which only pass through; their type is a parameter.\<close>

record 'f metrics =
  counters :: "(string, int) pydict"
  gauges :: "(string, 'f) pydict"

definition metrics_counter :: "'f metrics \<Rightarrow> string \<Rightarrow> int" where
  "metrics_counter m name = (case dict_get (counters m) name of None \<Rightarrow> 0 | Some n \<Rightarrow> n)"

definition metrics_inc :: "string \<Rightarrow> int \<Rightarrow> 'f metrics \<Rightarrow> 'f metrics" where
  "metrics_inc name value m = m\<lparr>counters := dict_put name (metrics_counter m name + value) (counters m)\<rparr>"

definition metrics_set_gauge :: "string \<Rightarrow> 'f \<Rightarrow> 'f metrics \<Rightarrow> 'f metrics" where
  "metrics_set_gauge name value m = m\<lparr>gauges := dict_put name value (gauges m)\<rparr>"

definition metrics_gauge :: "'f \<Rightarrow> 'f metrics \<Rightarrow> string \<Rightarrow> 'f" where
  "metrics_gauge zero m name = (case dict_get (gauges m) name of None \<Rightarrow> zero | Some v \<Rightarrow> v)"

definition metrics_snapshot :: "(int \<Rightarrow> 'f) \<Rightarrow> 'f metrics \<Rightarrow> (string, 'f) pydict \<times> (string, 'f) pydict" where
  "metrics_snapshot to_float m = (map (\<lambda>(k, v). (k, to_float v)) (counters m), gauges m)"

lemma counter_inc:
  "metrics_counter (metrics_inc name value m) other =
     metrics_counter m other + (if other = name then value else 0)"
  by (simp add: metrics_counter_def metrics_inc_def dict.get_put)

record health =
  he_node_height :: int
  he_mempool_size :: int
  he_open_channels :: int
  he_closed_channels :: int
  he_tower_records :: int
  he_tower_interventions :: int

definition health_as_dict :: "health \<Rightarrow> json" where
  "health_as_dict h = JObj
     [(''node_height'', JInt (he_node_height h)), (''mempool_size'', JInt (he_mempool_size h)),
      (''open_channels'', JInt (he_open_channels h)), (''closed_channels'', JInt (he_closed_channels h)),
      (''tower_records'', JInt (he_tower_records h)), (''tower_interventions'', JInt (he_tower_interventions h))]"

definition collect_health :: "node \<Rightarrow> manager \<Rightarrow> tower option \<Rightarrow> health result" where
  "collect_health nd mg tw =
     bindR (node_height nd) (\<lambda>n.
       return \<lparr>he_node_height = n, he_mempool_size = mp_size (nd_mempool nd),
         he_open_channels = int (length (mg_channels mg)) - int (card (mg_closed mg)),
         he_closed_channels = int (card (mg_closed mg)),
         he_tower_records = (case tw of None \<Rightarrow> 0 | Some t \<Rightarrow> registry_len (tw_registry t)),
         he_tower_interventions = (case tw of None \<Rightarrow> 0 | Some t \<Rightarrow> interventions t)\<rparr>)"

section \<open>The service\<close>

record 'f service =
  sv_node :: node
  sv_manager :: manager
  sv_tower :: tower
  sv_metrics :: "'f metrics"
  sv_shutdown :: bool

definition new_service :: "externals \<Rightarrow> system_store \<Rightarrow> 'f service result" where
  "new_service x s =
     bindR (new_node x) (\<lambda>nd.
       return \<lparr>sv_node = nd, sv_manager = new_manager s,
         sv_tower = \<lparr>tw_registry = \<lparr>rg_records = [], rg_file = None\<rparr>, tw_pubkey = None,
                     interventions = 0, forfeits = 0\<rparr>,
         sv_metrics = \<lparr>counters = [], gauges = []\<rparr>, sv_shutdown = False\<rparr>)"

definition service_status :: "'f service \<Rightarrow> json result" where
  "service_status sv =
     bindR (collect_health (sv_node sv) (sv_manager sv) (Some (sv_tower sv))) (\<lambda>h. return (health_as_dict h))"

section \<open>Requests\<close>

definition ok_with :: "(string \<times> json) list \<Rightarrow> json" where
  "ok_with kvs = JObj ((''ok'', JBool True) # kvs)"

definition unknown_command :: json where
  "unknown_command = JObj [(''ok'', JBool False), (''error'', JStr ''unknown cmd'')]"

text \<open>\<open>now\<close> is the clock, read when a block is generated.\<close>

definition dispatch_generate ::
  "externals \<Rightarrow> int \<Rightarrow> 'f service \<Rightarrow> json \<Rightarrow> json result \<times> 'f service" where
  "dispatch_generate x now sv req =
     (case bindR (bindR (bindR (j_index req ''payout_pk_hex'') j_string) (x_public_key_from_hex x)) (\<lambda>pk.
             generate_block x (p2pkh_script x pk) True [] now (sv_node sv)) of
        Inl e \<Rightarrow> (raise e, sv)
      | Inr ((bh, txs), nd) \<Rightarrow>
          (return (ok_with [(''block_hash'', JStr (bytes_hex bh)), (''txs'', JInt (int (length txs)))]),
           sv\<lparr>sv_node := nd, sv_metrics := metrics_inc ''blocks.generated'' 1 (sv_metrics sv)\<rparr>))"

definition dispatch :: "externals \<Rightarrow> int \<Rightarrow> 'f service \<Rightarrow> json \<Rightarrow> json result \<times> 'f service" where
  "dispatch x now sv req =
     (case j_get req ''cmd'' of
        Inl e \<Rightarrow> (raise e, sv)
      | Inr cmd \<Rightarrow>
          if cmd = JStr ''ping'' then (return (ok_with [(''pong'', JBool True)]), sv)
          else if cmd = JStr ''status''
          then (bindR (service_status sv) (\<lambda>st. return (ok_with [(''status'', st)])), sv)
          else if cmd = JStr ''shutdown'' then (return (ok_with []), sv\<lparr>sv_shutdown := True\<rparr>)
          else if cmd = JStr ''node.generate'' then dispatch_generate x now sv req
          else if cmd = JStr ''node.height''
          then (bindR (node_height (sv_node sv)) (\<lambda>n. return (ok_with [(''height'', JInt n)])), sv)
          else (return unknown_command, sv))"

text \<open>The line the handler writes: the response, or the report of an exception.  A connection that is
  closed before a line arrives is no request and gets no answer; a line that is no JSON is an
  exception of the decoder.\<close>

datatype reply = Reply json | Failure exn

definition handle_request :: "externals \<Rightarrow> int \<Rightarrow> 'f service \<Rightarrow> json result \<Rightarrow> reply \<times> 'f service" where
  "handle_request x now sv line =
     (case line of
        Inl e \<Rightarrow> (Failure e, sv)
      | Inr req \<Rightarrow>
          (case dispatch x now sv req of
             (Inl e, sv') \<Rightarrow> (Failure e, sv')
           | (Inr resp, sv') \<Rightarrow> (Reply resp, sv')))"

text \<open>The handler's side of the wire: one JSON text on a line each way.  The text of a reported exception is
  the parameter \<open>describe\<close>.\<close>

definition NEWLINE :: byte where
  "NEWLINE = 10"

definition readline :: "bytes \<Rightarrow> bytes" where
  "readline bs = takeWhile (\<lambda>b. b \<noteq> NEWLINE) bs @ (if NEWLINE \<in> set bs then [NEWLINE] else [])"

definition failure_report :: "(exn \<Rightarrow> string) \<Rightarrow> exn \<Rightarrow> json" where
  "failure_report describe e = JObj [(''ok'', JBool False), (''error'', JStr (describe e))]"

definition reply_value :: "(exn \<Rightarrow> string) \<Rightarrow> reply \<Rightarrow> json" where
  "reply_value describe r = (case r of Reply resp \<Rightarrow> resp | Failure e \<Rightarrow> failure_report describe e)"

definition reply_line :: "(exn \<Rightarrow> string) \<Rightarrow> reply \<Rightarrow> bytes" where
  "reply_line describe r = dump_bytes None (reply_value describe r) @ [NEWLINE]"

text \<open>One connection: what the client sent, and what the handler writes.\<close>

definition handle_connection ::
  "externals \<Rightarrow> (exn \<Rightarrow> string) \<Rightarrow> int \<Rightarrow> 'f service \<Rightarrow> bytes \<Rightarrow> bytes \<times> 'f service" where
  "handle_connection x describe now sv sent =
     (let line = readline sent
      in if line = [] then ([], sv)
         else case handle_request x now sv (load_bytes line) of (r, sv') \<Rightarrow> (reply_line describe r, sv'))"

text \<open>The client's call: it receives chunks until one is empty or a newline has come.  \<open>exchange\<close> is the
  connection: the chunks that come back for the bytes sent, or its failure.\<close>

fun recv_loop :: "bytes \<Rightarrow> bytes list \<Rightarrow> bytes" where
  "recv_loop buf [] = buf"
| "recv_loop buf (chunk # rest) =
     (if chunk = [] then buf
      else if NEWLINE \<in> set (buf @ chunk) then buf @ chunk else recv_loop (buf @ chunk) rest)"

definition request_line :: "json \<Rightarrow> bytes" where
  "request_line req = dump_bytes None req @ [NEWLINE]"

definition call :: "(bytes \<Rightarrow> bytes list result) \<Rightarrow> json \<Rightarrow> json result" where
  "call exchange req =
     bindR (exchange (request_line req)) (\<lambda>chunks.
       load_bytes (takeWhile (\<lambda>b. b \<noteq> NEWLINE) (recv_loop [] chunks)))"

lemma recv_loop_line:
  assumes "concat chunks = rest @ [NEWLINE]" and "NEWLINE \<notin> set buf" "NEWLINE \<notin> set rest" "[] \<notin> set chunks"
  shows "recv_loop buf chunks = buf @ rest @ [NEWLINE]"
  using assms
proof (induction chunks arbitrary: buf rest)
  case (Cons c cs)
  show ?case
  proof (cases "NEWLINE \<in> set c")
    case True
    then obtain us vs where c: "c = us @ NEWLINE # vs" using split_list by fast
    then have "us @ NEWLINE # (vs @ concat cs) = rest @ [NEWLINE]" using Cons.prems(1) by simp
    then have "us = rest \<and> vs @ concat cs = []" using Cons.prems(3)
      by (auto simp: append_eq_append_conv2 append_eq_Cons_conv Cons_eq_append_conv)
    with c True Cons.prems(2) show ?thesis by simp
  next
    case False
    then have "\<exists>r. rest = c @ r \<and> concat cs = r @ [NEWLINE]"
      using Cons.prems(1) by (auto simp: append_eq_append_conv2 append_eq_Cons_conv Cons_eq_append_conv)
    then obtain r where r: "rest = c @ r" "concat cs = r @ [NEWLINE]" by blast
    have "recv_loop (buf @ c) cs = (buf @ c) @ r @ [NEWLINE]"
      by (rule Cons.IH [OF r(2)]) (use Cons.prems False r(1) in auto)
    then show ?thesis using False Cons.prems(2,4) by (auto simp: r(1))
  qed
qed simp

text \<open>A service that handles the requests of a list in turn, each at its time.\<close>

fun serve :: "externals \<Rightarrow> 'f service \<Rightarrow> (int \<times> json result) list \<Rightarrow> reply list \<times> 'f service" where
  "serve x sv [] = ([], sv)"
| "serve x sv ((now, line) # rest) =
     (case handle_request x now sv line of
        (r, sv1) \<Rightarrow> (case serve x sv1 rest of (rs, sv2) \<Rightarrow> (r # rs, sv2)))"

section \<open>Starting and stopping the daemon\<close>

text \<open>\<open>listen\<close> binds a socket to a port, 0 for any, and gives the port it got.\<close>

record 'f daemon =
  dm_service :: "'f service"
  dm_port :: int
  dm_listening :: bool

definition daemon_start :: "(int \<Rightarrow> int result) \<Rightarrow> 'f daemon \<Rightarrow> int result \<times> 'f daemon" where
  "daemon_start listen d =
     (if dm_listening d then (raise DaemonError, d)
      else case listen (dm_port d) of
             Inl e \<Rightarrow> (raise e, d)
           | Inr bound \<Rightarrow> (return bound, d\<lparr>dm_port := bound, dm_listening := True\<rparr>))"

definition daemon_stop :: "'f daemon \<Rightarrow> 'f daemon" where
  "daemon_stop d = d\<lparr>dm_listening := False\<rparr>"

definition daemon_address :: "'f daemon \<Rightarrow> string \<times> int" where
  "daemon_address d = (''127.0.0.1'', dm_port d)"

text \<open>The life of a daemon: its threads answer connections while the main thread looks at the shutdown
  signal every tenth of a second.  When the events are over, the keyboard interrupt comes.\<close>

datatype daemon_event = Connection int bytes | LookForShutdown

fun wait_for_shutdown ::
  "externals \<Rightarrow> (exn \<Rightarrow> string) \<Rightarrow> daemon_event list \<Rightarrow> 'f service \<Rightarrow> bytes list \<times> 'f service" where
  "wait_for_shutdown x describe [] sv = ([], sv)"
| "wait_for_shutdown x describe (Connection now sent # es) sv =
     (case handle_connection x describe now sv sent of
        (out, sv1) \<Rightarrow> (case wait_for_shutdown x describe es sv1 of (outs, sv2) \<Rightarrow> (out # outs, sv2)))"
| "wait_for_shutdown x describe (LookForShutdown # es) sv =
     (if sv_shutdown sv then ([], sv) else wait_for_shutdown x describe es sv)"

text \<open>The requests of the connections; one that is closed before anything is sent has none.\<close>

fun requests :: "daemon_event list \<Rightarrow> (int \<times> json result) list" where
  "requests [] = []"
| "requests (Connection now sent # es) =
     (if sent = [] then requests es else (now, load_bytes (readline sent)) # requests es)"
| "requests (LookForShutdown # es) = requests es"

lemma readline_Nil [simp]: "readline bs = [] \<longleftrightarrow> bs = []"
  by (cases bs) (auto simp: readline_def)

lemma reply_line_nonempty [simp]: "reply_line describe r \<noteq> []"
  by (simp add: reply_line_def)

text \<open>What a session answers, and what it leaves.\<close>

definition session_serves ::
  "externals \<Rightarrow> (exn \<Rightarrow> string) \<Rightarrow> daemon_event list \<Rightarrow> 'f service \<Rightarrow> bytes list \<times> 'f service \<Rightarrow> bool" where
  "session_serves x describe served sv result \<longleftrightarrow>
     (case serve x sv (requests served) of (rs, sv') \<Rightarrow>
        filter (\<lambda>out. out \<noteq> []) (fst result) = map (reply_line describe) rs \<and> snd result = sv')"

lemma session_serves_connection:
  assumes "handle_connection x describe now sv sent = (out, sv1)" and "session_serves x describe served sv1 (outs, sv2)"
  shows "session_serves x describe (Connection now sent # served) sv (out # outs, sv2)"
  using assms by (auto simp: session_serves_def handle_connection_def Let_def split: prod.splits if_splits)

lemma shutdown_stays:
  "snd (serve x sv (requests (Connection now sent # us))) =
     snd (serve x (snd (handle_connection x describe now sv sent)) (requests us))"
  by (auto simp: handle_connection_def Let_def split: prod.splits)

text \<open>A session serves the connections before the first look that finds the signal.\<close>

lemma wait_for_shutdown_serves:
  "\<exists>served rest. es = served @ rest \<and> session_serves x describe served sv (wait_for_shutdown x describe es sv) \<and>
     (rest \<noteq> [] \<longrightarrow> hd rest = LookForShutdown \<and> sv_shutdown (snd (serve x sv (requests served)))) \<and>
     (\<forall>us vs. served = us @ LookForShutdown # vs \<longrightarrow> \<not> sv_shutdown (snd (serve x sv (requests us))))"
proof (induction x describe es sv rule: wait_for_shutdown.induct)
  case (1 x describe sv)
  then show ?case by (intro exI [of _ "[]"]) (simp add: session_serves_def)
next
  case (2 x describe now sent es sv)
  obtain out sv1 where h: "handle_connection x describe now sv sent = (out, sv1)" by fastforce
  note stays = shutdown_stays [of x sv now sent _ describe, unfolded h snd_conv]
  obtain served rest where IH: "es = served @ rest"
    "session_serves x describe served sv1 (wait_for_shutdown x describe es sv1)"
    "rest \<noteq> [] \<longrightarrow> hd rest = LookForShutdown \<and> sv_shutdown (snd (serve x sv1 (requests served)))"
    "\<forall>us vs. served = us @ LookForShutdown # vs \<longrightarrow> \<not> sv_shutdown (snd (serve x sv1 (requests us)))"
    using "2.IH" [OF h [symmetric]] by blast
  have "\<not> sv_shutdown (snd (serve x sv (requests us)))"
    if "Connection now sent # served = us @ LookForShutdown # vs" for us vs
    using that IH(4) stays by (cases us) auto
  moreover have "session_serves x describe (Connection now sent # served) sv
      (wait_for_shutdown x describe (Connection now sent # es) sv)"
    using session_serves_connection [OF h] IH(2) h by (cases "wait_for_shutdown x describe es sv1") simp
  ultimately show ?case using IH(1,3) stays [of served]
    by (intro exI [of _ "Connection now sent # served"] exI [of _ rest]) simp
next
  case (3 x describe es sv)
  show ?case
  proof (cases "sv_shutdown sv")
    case True
    then show ?thesis
      by (intro exI [of _ "[]"] exI [of _ "LookForShutdown # es"]) (simp add: session_serves_def)
  next
    case False
    from "3.IH" [OF False] obtain served rest where IH: "es = served @ rest"
      "session_serves x describe served sv (wait_for_shutdown x describe es sv)"
      "rest \<noteq> [] \<longrightarrow> hd rest = LookForShutdown \<and> sv_shutdown (snd (serve x sv (requests served)))"
      "\<forall>us vs. served = us @ LookForShutdown # vs \<longrightarrow> \<not> sv_shutdown (snd (serve x sv (requests us)))"
      by blast
    have "\<not> sv_shutdown (snd (serve x sv (requests us)))"
      if "LookForShutdown # served = us @ LookForShutdown # vs" for us vs
      using that IH(4) False by (cases us) auto
    with IH False show ?thesis
      by (intro exI [of _ "LookForShutdown # served"] exI [of _ rest]) (auto simp: session_serves_def)
  qed
qed

lemma daemon_restart: "listen (dm_port d) = Inr p \<Longrightarrow> fst (daemon_start listen (daemon_stop d)) = Inr p"
  by (simp add: daemon_start_def daemon_stop_def)

section \<open>What a request can change\<close>

lemma generate_mempool:
  assumes "generate_block x script True extra ts nd = Inr (r, nd')" and "mempool_wf x (nd_mempool nd)"
  shows "mempool_wf x (nd_mempool nd')"
proof -
  obtain txs nd1 where "nd' = evict_all x txs nd1" "nd_mempool nd1 = nd_mempool nd"
    using assms(1) by (auto simp: generate_block_def bindR_eq_Inr Let_def connect_block_with_undo_def)
  moreover have "mempool_wf x mp \<Longrightarrow> mempool_wf x (fold (\<lambda>t mp. snd (evict (x_txid x t) mp)) txs mp)" for mp
    by (induction txs arbitrary: mp) (simp_all add: evict_wf evict_def)
  ultimately show ?thesis using assms(2) by (simp add: evict_all_def)
qed

lemma generate_headers:
  assumes "generate_block x script True extra ts nd = Inr ((h, txs), nd')"
    and "header_store_wf x g (nd_headers nd)" and "node_height nd = Inr n"
  shows "header_store_wf x g (nd_headers nd')" "\<exists>m. node_height nd' = Inr m \<and> n \<le> m"
proof -
  obtain c hs r where hh: "header_hash x r = Inr h" and con: "store_connect x (nd_headers nd) r = Inr (c, hs)"
    and hs: "nd_headers nd' = hs"
    by (rule generate_block_Inr [OF assms(1)], rule that, assumption+)
  show "header_store_wf x g (nd_headers nd')" unfolding hs by (rule store_connect_wf [OF con assms(2)])
  have h: "double_sha256 x r = h" using hh by (auto simp: header_hash_def split: if_splits)
  show "\<exists>m. node_height nd' = Inr m \<and> n \<le> m"
  proof (cases "dict_get (by_hash (nd_headers nd)) h")
    case None
    from generate_block_tip(2) [OF assms(1,2) None] assms(3) show ?thesis by (simp add: node_height_def)
  next
    case (Some old)
    with store_connect_cases [OF con assms(2)] have "hs = nd_headers nd" by (auto simp: h)
    with assms(3) show ?thesis by (simp add: node_height_def hs)
  qed
qed

text \<open>The invariant of the service: its header store and mempool are well formed.\<close>

definition service_ok :: "externals \<Rightarrow> bytes \<Rightarrow> 'f service \<Rightarrow> bool" where
  "service_ok x g sv \<longleftrightarrow>
     header_store_wf x g (nd_headers (sv_node sv)) \<and> mempool_wf x (nd_mempool (sv_node sv)) \<and>
     isOK (node_height (sv_node sv))"

text \<open>How a request may move the service: the manager and the tower stay, the height does not fall, and
  the counter of generated blocks follows the answers.\<close>

definition generated_reply :: "reply \<Rightarrow> bool" where
  "generated_reply r \<longleftrightarrow>
     (case r of Reply (JObj kvs) \<Rightarrow> map_of kvs ''block_hash'' \<noteq> None | _ \<Rightarrow> False)"

definition moved :: "reply list \<Rightarrow> 'f service \<Rightarrow> 'f service \<Rightarrow> bool" where
  "moved rs sv sv' \<longleftrightarrow>
     sv_manager sv' = sv_manager sv \<and> sv_tower sv' = sv_tower sv \<and> (sv_shutdown sv \<longrightarrow> sv_shutdown sv') \<and>
     metrics_counter (sv_metrics sv') ''blocks.generated'' =
       metrics_counter (sv_metrics sv) ''blocks.generated'' + int (length (filter generated_reply rs)) \<and>
     (\<forall>n. node_height (sv_node sv) = Inr n \<longrightarrow> (\<exists>m. node_height (sv_node sv') = Inr m \<and> n \<le> m)) \<and>
     (filter generated_reply rs = [] \<longrightarrow> sv_node sv' = sv_node sv)"

lemma moved_refl: "\<not> generated_reply r \<Longrightarrow> moved [r] sv sv"
  by (simp add: moved_def)

lemma moved_trans: "moved rs a b \<Longrightarrow> moved ss b c \<Longrightarrow> moved (rs @ ss) a c"
  unfolding moved_def by (auto intro: order_trans)

lemma not_generated [simp]:
  "\<not> generated_reply (Failure e)" "\<not> generated_reply (Reply unknown_command)"
  "generated_reply (Reply (ok_with kvs)) = (map_of kvs ''block_hash'' \<noteq> None)"
  by (simp_all add: generated_reply_def unknown_command_def ok_with_def)

lemma dispatch_generate_moved:
  assumes "handle_request x now sv (Inr req) = (r, sv')"
    and "dispatch x now sv req = dispatch_generate x now sv req" and "service_ok x g sv"
  shows "moved [r] sv sv' \<and> service_ok x g sv'"
proof (cases "dispatch_generate x now sv req")
  case (Pair res sv1)
  show ?thesis
  proof (cases res)
    case (Inl e)
    then have "r = Failure e" "sv' = sv"
      using Pair assms(1,2) by (auto simp: handle_request_def dispatch_generate_def split: sum.splits)
    with assms(3) show ?thesis by (simp add: moved_refl)
  next
    case (Inr resp)
    obtain script bh txs nd where gen: "generate_block x script True [] now (sv_node sv) = Inr ((bh, txs), nd)"
      and sv1: "sv1 = sv\<lparr>sv_node := nd, sv_metrics := metrics_inc ''blocks.generated'' 1 (sv_metrics sv)\<rparr>"
      and res: "res = Inr (ok_with [(''block_hash'', JStr (bytes_hex bh)), (''txs'', JInt (int (length txs)))])"
      using Pair Inr by (auto simp: dispatch_generate_def bindR_eq_Inr split: sum.splits)
    have r: "r = Reply (ok_with [(''block_hash'', JStr (bytes_hex bh)), (''txs'', JInt (int (length txs)))])" "sv' = sv1"
      using assms(1,2) Pair res by (simp_all add: handle_request_def)
    obtain n where n: "node_height (sv_node sv) = Inr n" using assms(3) by (auto simp: service_ok_def isOK_iff)
    from assms(3) have wf: "header_store_wf x g (nd_headers (sv_node sv))" "mempool_wf x (nd_mempool (sv_node sv))"
      by (simp_all add: service_ok_def)
    from generate_headers [OF gen wf(1) n] generate_mempool [OF gen wf(2)] n show ?thesis
      by (auto simp: r sv1 moved_def service_ok_def counter_inc isOK_iff)
  qed
qed

lemma handle_request_moved:
  assumes "handle_request x now sv line = (r, sv')" and "service_ok x g sv"
  shows "moved [r] sv sv' \<and> service_ok x g sv'"
proof (cases line)
  case (Inl e)
  then show ?thesis using assms by (auto simp: handle_request_def moved_refl)
next
  case (Inr req)
  show ?thesis
  proof (cases "dispatch x now sv req = dispatch_generate x now sv req")
    case True
    from dispatch_generate_moved [OF assms(1) [unfolded Inr] True assms(2)] show ?thesis .
  next
    case False
    obtain res sv1 where d: "dispatch x now sv req = (res, sv1)" by fastforce
    have st: "sv1 = sv \<or> sv1 = sv\<lparr>sv_shutdown := True\<rparr>"
      using d False by (auto simp: dispatch_def split: sum.splits if_splits)
    have "\<not> generated_reply r"
      using d False assms(1) Inr
      by (auto simp: handle_request_def dispatch_def bindR_eq_Inr split: sum.splits if_splits)
    moreover have "sv' = sv1" using d assms(1) Inr by (auto simp: handle_request_def split: sum.splits)
    ultimately show ?thesis using st assms(2) by (auto simp: moved_def service_ok_def)
  qed
qed

lemma serve_moved:
  assumes "serve x sv reqs = (rs, sv')" and "service_ok x g sv"
  shows "length rs = length reqs \<and> moved rs sv sv' \<and> service_ok x g sv'"
  using assms
proof (induction reqs arbitrary: sv rs)
  case (Cons req reqs)
  obtain now line where req: "req = (now, line)" by fastforce
  obtain r sv1 where h: "handle_request x now sv line = (r, sv1)" by fastforce
  obtain rs1 where rest: "serve x sv1 reqs = (rs1, sv')" "rs = r # rs1"
    using Cons.prems(1) h by (auto simp: req split: prod.splits)
  from handle_request_moved [OF h Cons.prems(2)] have m: "moved [r] sv sv1" "service_ok x g sv1" by simp_all
  from Cons.IH [OF rest(1) m(2)] moved_trans [OF m(1), of rs1 sv'] rest(2) show ?case by simp
qed (simp add: moved_def)

lemma new_service_ok:
  assumes "new_service x s = Inr sv"
  shows "\<exists>g. service_ok x g sv" "mg_store (sv_manager sv) = s" "\<not> sv_shutdown sv"
    "metrics_counter (sv_metrics sv) ''blocks.generated'' = 0" "node_height (sv_node sv) = Inr 0"
proof -
  obtain nd where nd: "new_node x = Inr nd" and sv: "sv_node sv = nd" "sv_manager sv = new_manager s"
    "\<not> sv_shutdown sv" "sv_metrics sv = \<lparr>counters = [], gauges = []\<rparr>"
    using assms by (auto simp: new_service_def bindR_eq_Inr)
  obtain r hs where hs: "with_genesis x r = Inr hs" "nd_headers nd = hs" "nd_mempool nd = empty_mempool"
    using nd by (auto simp: new_node_def bindR_eq_Inr)
  show "\<exists>g. service_ok x g sv" "node_height (sv_node sv) = Inr 0"
    using with_genesis_wf [OF hs(1)] hs(2,3) empty_mempool_wf sv(1)
    by (auto simp: service_ok_def node_height_def)
  show "mg_store (sv_manager sv) = s" "\<not> sv_shutdown sv"
    "metrics_counter (sv_metrics sv) ''blocks.generated'' = 0"
    using sv by (simp_all add: new_manager_def metrics_counter_def dict_get_def)
qed

section \<open>A client and the daemon\<close>

text \<open>What is answered is an object without repeated keys that says whether the request succeeded.\<close>

lemma reply_shape:
  assumes "handle_request x now sv line = (r, sv')"
  shows "json_ok (reply_value describe r)" "\<exists>b. j_get (reply_value describe r) ''ok'' = Inr (JBool b)"
proof -
  have "json_ok j \<and> (\<exists>b. j_get j ''ok'' = Inr (JBool b))" if "dispatch x now sv req = (Inr j, sv')" for req j
    using that
    by (auto simp: dispatch_def dispatch_generate_def unknown_command_def ok_with_def service_status_def
        health_as_dict_def bindR_eq_Inr split: sum.splits if_splits)
  moreover have "r = Failure e \<or> (\<exists>req j. line = Inr req \<and> dispatch x now sv req = (Inr j, sv') \<and> r = Reply j)"
    if "\<forall>e'. r = Failure e' \<longrightarrow> e' = e" for e
    using assms that by (cases r) (auto simp: handle_request_def split: sum.splits prod.splits)
  ultimately have "json_ok (reply_value describe r) \<and> (\<exists>b. j_get (reply_value describe r) ''ok'' = Inr (JBool b))"
    by (cases r) (auto simp: reply_value_def failure_report_def)
  then show "json_ok (reply_value describe r)" "\<exists>b. j_get (reply_value describe r) ''ok'' = Inr (JBool b)" by blast+
qed

lemma readline_request: "json_ok req \<Longrightarrow> readline (request_line req) = request_line req"
  using dump_bytes_one_line [of req] by (simp add: readline_def request_line_def takeWhile_append NEWLINE_def)

text \<open>A call gives what the handler answered, however the reply is cut into chunks.\<close>

lemma call_answer:
  assumes "json_ok req" and "handle_request x now sv (Inr req) = (r, sv')"
    and "exchange (request_line req) = Inr chunks" "[] \<notin> set chunks"
    and "concat chunks = fst (handle_connection x describe now sv (request_line req))"
  shows "call exchange req = Inr (reply_value describe r)"
    and "snd (handle_connection x describe now sv (request_line req)) = sv'"
proof -
  let ?resp = "reply_value describe r"
  have ok: "json_ok ?resp" by (rule reply_shape(1) [OF assms(2)])
  have one: "NEWLINE \<notin> set (dump_bytes None ?resp)" using dump_bytes_one_line [OF ok] by (simp add: NEWLINE_def)
  have "load_bytes (request_line req) = Inr req"
    using json_line.load_dump [OF assms(1)] by (simp add: request_line_def NEWLINE_def)
  then have hc: "handle_connection x describe now sv (request_line req) = (dump_bytes None ?resp @ [NEWLINE], sv')"
    using assms(2) readline_request [OF assms(1)]
    by (simp add: handle_connection_def reply_line_def request_line_def)
  then show "snd (handle_connection x describe now sv (request_line req)) = sv'" by simp
  have "recv_loop [] chunks = dump_bytes None ?resp @ [NEWLINE]"
    using recv_loop_line [of chunks "dump_bytes None ?resp" "[]"] one assms(4,5) hc by simp
  moreover have "takeWhile (\<lambda>b. b \<noteq> NEWLINE) (dump_bytes None ?resp @ [NEWLINE]) = dump_bytes None ?resp"
    using one by (simp add: takeWhile_append)
  ultimately show "call exchange req = Inr ?resp" using assms(3) ok by (simp add: call_def)
qed

end
