(* ===== verification/Arg_Parser.thy ===== *)
theory Arg_Parser
  imports Py_Json
begin

text \<open>
  What the command line and the demo script use of \<open>argparse\<close> (Python 3.11): parsers whose arguments
  are long options, flags or options with one value, and a required choice of subcommands.  Every
  parser has \<open>-h\<close> and \<open>--help\<close>, which exit with 0; a usage error exits with 2.  Options can be
  abbreviated and written \<open>--option value\<close> or \<open>--option=value\<close>.
\<close>

section \<open>Parsers\<close>

datatype arg_value = ArgNone | ArgBool bool | ArgInt int | ArgText string

text \<open>What an option stores: \<open>True\<close>, an integer, a text, or one of the given texts.\<close>

datatype arg_action = StoreTrue | StoreInt | StoreText | StoreChoice "string list"

record arg_option =
  op_flag :: string
  op_dest :: string
  op_action :: arg_action
  op_default :: arg_value
  op_required :: bool

text \<open>The attribute of the namespace that \<open>add_argument\<close> derives from the option string.\<close>

definition dest_of :: "string \<Rightarrow> string" where
  "dest_of s = map (\<lambda>c. if c = CHR ''-'' then CHR ''_'' else c) (drop 2 s)"

definition flag_option :: "string \<Rightarrow> arg_option" where
  "flag_option s = \<lparr>op_flag = s, op_dest = dest_of s, op_action = StoreTrue, op_default = ArgBool False,
     op_required = False\<rparr>"

definition value_option :: "string \<Rightarrow> arg_action \<Rightarrow> arg_value \<Rightarrow> arg_option" where
  "value_option s a v = \<lparr>op_flag = s, op_dest = dest_of s, op_action = a, op_default = v, op_required = False\<rparr>"

definition required_option :: "string \<Rightarrow> arg_action \<Rightarrow> arg_option" where
  "required_option s a = \<lparr>op_flag = s, op_dest = dest_of s, op_action = a, op_default = ArgNone, op_required = True\<rparr>"

type_synonym namespace = "string \<Rightarrow> arg_value option"

definition defaults :: "arg_option list \<Rightarrow> namespace" where
  "defaults os = map_of (map (\<lambda>o'. (op_dest o', op_default o')) os)"

definition arg_int :: "namespace \<Rightarrow> string \<Rightarrow> int" where
  "arg_int ns d = (case ns d of Some (ArgInt n) \<Rightarrow> n | _ \<Rightarrow> 0)"

definition arg_text :: "namespace \<Rightarrow> string \<Rightarrow> string" where
  "arg_text ns d = (case ns d of Some (ArgText s) \<Rightarrow> s | _ \<Rightarrow> [])"

definition arg_bool :: "namespace \<Rightarrow> string \<Rightarrow> bool" where
  "arg_bool ns d \<longleftrightarrow> ns d = Some (ArgBool True)"

section \<open>Reading one argument\<close>

datatype arg_class = Positional | HelpFlag | MisusedHelp | Known arg_option "string option" | Ambiguous | Unknown

definition starts_with :: "string \<Rightarrow> string \<Rightarrow> bool" where
  "starts_with p s \<longleftrightarrow> take (length p) s = p"

definition before_eq :: "string \<Rightarrow> string" where
  "before_eq s = takeWhile (\<lambda>c. c \<noteq> CHR ''='') s"

definition after_eq :: "string \<Rightarrow> string option" where
  "after_eq s = (case dropWhile (\<lambda>c. c \<noteq> CHR ''='') s of [] \<Rightarrow> None | _ # v \<Rightarrow> Some v)"

definition all_digits :: "string \<Rightarrow> bool" where
  "all_digits s \<longleftrightarrow> s \<noteq> [] \<and> list_all (\<lambda>c. digit_value c \<noteq> None) s"

text \<open>\<open>-\<close> and digits, or \<open>-\<close> and a decimal fraction\<close>

definition negative_number :: "string \<Rightarrow> bool" where
  "negative_number s =
     (let t = drop 1 s; frac = dropWhile (\<lambda>c. digit_value c \<noteq> None) t
      in all_digits t \<or> (frac \<noteq> [] \<and> hd frac = CHR ''.'' \<and> all_digits (tl frac)))"

text \<open>Short options written together: \<open>-hh\<close> is \<open>-h -h\<close>.\<close>

definition classify_short :: "string \<Rightarrow> arg_class" where
  "classify_short s =
     (if starts_with ''-h'' s
      then (let t = (if starts_with ''-h='' s then drop 3 s else drop 2 s)
            in if t \<noteq> [] \<and> list_all (\<lambda>c. c = CHR ''h'') t then HelpFlag else MisusedHelp)
      else if negative_number s \<or> CHR '' '' \<in> set s then Positional else Unknown)"

definition classify_abbreviation :: "arg_option list \<Rightarrow> string \<Rightarrow> arg_class" where
  "classify_abbreviation os s =
     (let p = before_eq s; cands = filter (\<lambda>o'. starts_with p (op_flag o')) os;
          help = starts_with p ''--help''
      in case cands of
           [] \<Rightarrow> if help then (if after_eq s = None then HelpFlag else MisusedHelp)
                 else if CHR '' '' \<in> set s then Positional else Unknown
         | [o'] \<Rightarrow> if help then Ambiguous else Known o' (after_eq s)
         | _ \<Rightarrow> Ambiguous)"

definition classify_long :: "arg_option list \<Rightarrow> string \<Rightarrow> arg_class" where
  "classify_long os s =
     (case find (\<lambda>o'. op_flag o' = s) os of
        Some o' \<Rightarrow> Known o' None
      | None \<Rightarrow>
          (case after_eq s of
             None \<Rightarrow> classify_abbreviation os s
           | Some v \<Rightarrow>
               if before_eq s = ''--help'' then MisusedHelp
               else case find (\<lambda>o'. op_flag o' = before_eq s) os of
                      Some o' \<Rightarrow> Known o' (Some v)
                    | None \<Rightarrow> classify_abbreviation os s))"

definition classify :: "arg_option list \<Rightarrow> string \<Rightarrow> arg_class" where
  "classify os s =
     (if \<not> starts_with ''-'' s \<or> s = ''-'' then Positional
      else if s = ''-h'' \<or> s = ''--help'' then HelpFlag
      else if starts_with ''--'' s then classify_long os s
      else classify_short s)"

definition convert :: "arg_action \<Rightarrow> string \<Rightarrow> arg_value option" where
  "convert a s =
     (case a of
        StoreInt \<Rightarrow> (case int_str s of Inl _ \<Rightarrow> None | Inr n \<Rightarrow> Some (ArgInt n))
      | StoreText \<Rightarrow> Some (ArgText s)
      | StoreChoice cs \<Rightarrow> if s \<in> set cs then Some (ArgText s) else None
      | StoreTrue \<Rightarrow> None)"

section \<open>Reading the arguments\<close>

text \<open>\<open>SystemExit\<close> with its code, or what was parsed.\<close>

datatype 'a parsed = SystemExit int | Parsed 'a

record parse_state =
  ps_values :: namespace
  ps_seen :: "string list"
  ps_extras :: bool

definition store_value :: "arg_option \<Rightarrow> arg_value \<Rightarrow> parse_state \<Rightarrow> parse_state" where
  "store_value o' v st =
     st\<lparr>ps_values := (ps_values st)(op_dest o' \<mapsto> v), ps_seen := op_flag o' # ps_seen st\<rparr>"

definition store_text :: "arg_option \<Rightarrow> string \<Rightarrow> parse_state \<Rightarrow> parse_state parsed" where
  "store_text o' s st =
     (case convert (op_action o') s of None \<Rightarrow> SystemExit 2 | Some v \<Rightarrow> Parsed (store_value o' v st))"

text \<open>The options of a parser, from left to right; a parser with subcommands stops at the first
  positional argument, another one collects what it does not know.  After \<open>--\<close> nothing is an option,
  so it ends in a usage error: no parser here takes another positional argument.\<close>

fun parse_options ::
  "bool \<Rightarrow> arg_option list \<Rightarrow> parse_state \<Rightarrow> string list \<Rightarrow> (parse_state \<times> string list) parsed" where
  "parse_options subs os st [] = Parsed (st, [])"
| "parse_options subs os st (a # rest) =
     (if a = ''--'' then SystemExit 2
      else case classify os a of
        Positional \<Rightarrow> if subs then Parsed (st, a # rest) else parse_options subs os (st\<lparr>ps_extras := True\<rparr>) rest
      | HelpFlag \<Rightarrow> SystemExit 0
      | MisusedHelp \<Rightarrow> SystemExit 2
      | Ambiguous \<Rightarrow> SystemExit 2
      | Unknown \<Rightarrow> parse_options subs os (st\<lparr>ps_extras := True\<rparr>) rest
      | Known o' explicit \<Rightarrow>
          if op_action o' = StoreTrue
          then (if explicit = None then parse_options subs os (store_value o' (ArgBool True) st) rest
                else SystemExit 2)
          else (case explicit of
              Some v \<Rightarrow> (case store_text o' v st of
                  SystemExit c \<Rightarrow> SystemExit c | Parsed st' \<Rightarrow> parse_options subs os st' rest)
            | None \<Rightarrow> (case rest of
                  [] \<Rightarrow> SystemExit 2
                | v # rest' \<Rightarrow>
                    if v = ''--'' \<or> classify os v \<noteq> Positional then SystemExit 2
                    else (case store_text o' v st of
                      SystemExit c \<Rightarrow> SystemExit c | Parsed st' \<Rightarrow> parse_options subs os st' rest'))))"

text \<open>The arguments are classified before any is acted on, so an ambiguous one ends the program first.\<close>

definition ambiguous_args :: "arg_option list \<Rightarrow> string list \<Rightarrow> bool" where
  "ambiguous_args os args \<longleftrightarrow> list_ex (\<lambda>a. classify os a = Ambiguous) (takeWhile (\<lambda>a. a \<noteq> ''--'') args)"

definition missing_options :: "arg_option list \<Rightarrow> parse_state \<Rightarrow> bool" where
  "missing_options os st \<longleftrightarrow> list_ex (\<lambda>o'. op_required o' \<and> op_flag o' \<notin> set (ps_seen st)) os"

definition parse_known :: "bool \<Rightarrow> arg_option list \<Rightarrow> string list \<Rightarrow> (parse_state \<times> string list) parsed" where
  "parse_known subs os args =
     (if ambiguous_args os args then SystemExit 2
      else case parse_options subs os \<lparr>ps_values = defaults os, ps_seen = [], ps_extras = False\<rparr> args of
             SystemExit c \<Rightarrow> SystemExit c
           | Parsed (st, rest) \<Rightarrow> if missing_options os st then SystemExit 2 else Parsed (st, rest))"

text \<open>\<open>parse_args\<close> of a parser without subcommands\<close>

definition parse_flat :: "arg_option list \<Rightarrow> string list \<Rightarrow> namespace parsed" where
  "parse_flat os args =
     (case parse_known False os args of
        SystemExit c \<Rightarrow> SystemExit c
      | Parsed (st, _) \<Rightarrow> if ps_extras st then SystemExit 2 else Parsed (ps_values st))"

text \<open>A parser with subcommands: what it sets by \<open>set_defaults\<close> is the tag of the command.\<close>

record 'f arg_parser =
  ap_options :: "arg_option list"
  ap_commands :: "(string \<times> arg_option list \<times> 'f) list"

definition parse_args :: "'f arg_parser \<Rightarrow> string list \<Rightarrow> (namespace \<times> 'f) parsed" where
  "parse_args p args =
     (case parse_known True (ap_options p) args of
        SystemExit c \<Rightarrow> SystemExit c
      | Parsed (st, []) \<Rightarrow> SystemExit 2
      | Parsed (st, cmd # rest) \<Rightarrow>
          (case map_of (ap_commands p) cmd of
             None \<Rightarrow> SystemExit 2
           | Some (os, f) \<Rightarrow>
               (case parse_known False os rest of
                  SystemExit c \<Rightarrow> SystemExit c
                | Parsed (st', _) \<Rightarrow>
                    if ps_extras st \<or> ps_extras st' then SystemExit 2
                    else Parsed (ps_values st ++ ps_values st', f))))"

section \<open>What a written option is read as\<close>

definition assign :: "arg_option \<Rightarrow> string \<Rightarrow> string" where
  "assign o' v = op_flag o' @ ''='' @ v"

definition option_names_ok :: "arg_option list \<Rightarrow> bool" where
  "option_names_ok os \<longleftrightarrow> distinct (map op_flag os) \<and>
     list_all (\<lambda>o'. starts_with ''--'' (op_flag o') \<and> CHR ''='' \<notin> set (op_flag o') \<and>
       op_flag o' \<noteq> ''--'' \<and> op_flag o' \<noteq> ''--help'') os"

lemma starts_with_iff: "starts_with p s \<longleftrightarrow> (\<exists>t. s = p @ t)"
  unfolding starts_with_def by (metis append_eq_conv_conj append_take_drop_id)

lemma option_names_okD:
  assumes "option_names_ok os" and "o' \<in> set os"
  shows "\<exists>c name. op_flag o' = CHR ''-'' # CHR ''-'' # c # name" "CHR ''='' \<notin> set (op_flag o')"
    "op_flag o' \<noteq> ''--help''" "find (\<lambda>p. op_flag p = op_flag o') os = Some o'"
proof -
  have ok: "starts_with ''--'' (op_flag o')" "op_flag o' \<noteq> ''--''" "CHR ''='' \<notin> set (op_flag o')"
    "op_flag o' \<noteq> ''--help''" and d: "distinct (map op_flag os)"
    using assms by (auto simp: option_names_ok_def list_all_iff)
  show "CHR ''='' \<notin> set (op_flag o')" "op_flag o' \<noteq> ''--help''" by fact+
  show "\<exists>c name. op_flag o' = CHR ''-'' # CHR ''-'' # c # name"
    using ok(1,2) by (auto simp: starts_with_iff neq_Nil_conv)
  show "find (\<lambda>p. op_flag p = op_flag o') os = Some o'"
    using d assms(2) by (induction os) auto
qed

lemma eq_parts:
  "CHR ''='' \<notin> set s \<Longrightarrow> before_eq (s @ ''='' @ v) = s" "CHR ''='' \<notin> set s \<Longrightarrow> after_eq (s @ ''='' @ v) = Some v"
  "CHR ''='' \<notin> set s \<Longrightarrow> before_eq s = s" "CHR ''='' \<notin> set s \<Longrightarrow> after_eq s = None"
  unfolding before_eq_def after_eq_def by (induction s) auto

lemma find_assign: "option_names_ok os \<Longrightarrow> find (\<lambda>p. op_flag p = assign o' v) os = None"
  by (auto simp: find_None_iff assign_def dest: option_names_okD(2))

lemma classify_is_long:
  assumes "s = CHR ''-'' # CHR ''-'' # c # name" and "s \<noteq> ''--help''"
  shows "classify os s = classify_long os s"
proof -
  have "starts_with ''-'' s" "starts_with ''--'' s" "s \<noteq> ''-''" "s \<noteq> ''-h''"
    using assms(1) by (simp_all add: starts_with_def)
  with assms(2) show ?thesis unfolding classify_def by (simp only: if_True if_False simp_thms)
qed

lemma classify_assign:
  assumes "option_names_ok os" and "o' \<in> set os"
  shows "classify os (assign o' v) = Known o' (Some v)"
proof -
  obtain c name where f: "op_flag o' = CHR ''-'' # CHR ''-'' # c # name"
    using option_names_okD(1) [OF assms] by blast
  note ok = option_names_okD [OF assms]
  have "CHR ''='' \<in> set (assign o' v)" by (simp add: assign_def)
  then have "assign o' v \<noteq> ''--help''" by auto
  moreover have "assign o' v = CHR ''-'' # CHR ''-'' # c # (name @ ''='' @ v)" by (simp add: assign_def f)
  ultimately have "classify os (assign o' v) = classify_long os (assign o' v)"
    by (intro classify_is_long)
  then show ?thesis
    using find_assign [OF assms(1), of o' v] eq_parts(1,2) [OF ok(2), of v] ok(3,4)
    by (simp add: classify_long_def) (simp add: assign_def)
qed

lemma classify_flag:
  assumes "option_names_ok os" and "o' \<in> set os"
  shows "classify os (op_flag o') = Known o' None"
proof -
  note ok = option_names_okD [OF assms]
  obtain c name where "op_flag o' = CHR ''-'' # CHR ''-'' # c # name" using ok(1) by blast
  from classify_is_long [OF this ok(3)] ok(4) show ?thesis by (simp add: classify_long_def)
qed

text \<open>Arguments of the form \<open>--option=value\<close> are stored from left to right.\<close>

lemma parse_assign:
  assumes "option_names_ok os" "o' \<in> set os" "op_action o' \<noteq> StoreTrue" "convert (op_action o') v = Some w"
  shows "parse_options subs os st (assign o' v # rest) = parse_options subs os (store_value o' w st) rest"
proof -
  have "CHR ''='' \<in> set (assign o' v)" by (simp add: assign_def)
  then have "assign o' v \<noteq> ''--''" by auto
  then show ?thesis using assms(3,4) classify_assign [OF assms(1,2)] by (simp add: store_text_def)
qed

lemma parse_flag:
  assumes "option_names_ok os" "o' \<in> set os" "op_action o' = StoreTrue"
  shows "parse_options subs os st (op_flag o' # rest) =
    parse_options subs os (store_value o' (ArgBool True) st) rest"
proof -
  have "op_flag o' \<noteq> ''--''" using option_names_okD(1) [OF assms(1,2)] by auto
  then show ?thesis using assms(3) classify_flag [OF assms(1,2)] by simp
qed

text \<open>An option of another parser is no ambiguous argument, unless it abbreviates two options.\<close>

lemma classify_foreign:
  assumes "option_names_ok os" and "op_flag o' = CHR ''-'' # CHR ''-'' # c # name" "CHR ''='' \<notin> set (op_flag o')"
    and "filter (\<lambda>p. starts_with (op_flag o') (op_flag p)) os = []" "\<not> starts_with (op_flag o') ''--help''"
  shows "classify os (assign o' v) \<noteq> Ambiguous \<and> assign o' v \<noteq> ''--''"
proof -
  have eq: "CHR ''='' \<in> set (assign o' v)" by (simp add: assign_def)
  then have "assign o' v \<noteq> ''--help''" by auto
  moreover have "assign o' v = CHR ''-'' # CHR ''-'' # c # (name @ ''='' @ v)" by (simp add: assign_def assms(2))
  ultimately have long: "classify os (assign o' v) = classify_long os (assign o' v)"
    by (intro classify_is_long)
  have parts: "before_eq (assign o' v) = op_flag o'" "after_eq (assign o' v) = Some v"
    using eq_parts(1,2) [OF assms(3), of v] by (simp_all add: assign_def)
  have "find (\<lambda>p. op_flag p = op_flag o') os = None"
    using assms(4) by (auto simp: find_None_iff filter_empty_conv starts_with_def)
  then have "classify_long os (assign o' v) = (if op_flag o' = ''--help'' then MisusedHelp
      else classify_abbreviation os (assign o' v))"
    unfolding classify_long_def find_assign [OF assms(1)] parts by simp
  moreover have "classify_abbreviation os (assign o' v) \<noteq> Ambiguous"
    unfolding classify_abbreviation_def Let_def parts assms(4) using assms(5) by simp
  ultimately show ?thesis using long eq by auto
qed


lemma ambiguous_args_append:
  "(\<And>a. a \<in> set as \<Longrightarrow> classify os a \<noteq> Ambiguous \<and> a \<noteq> ''--'') \<Longrightarrow>
     ambiguous_args os (as @ bs) = ambiguous_args os bs"
  unfolding ambiguous_args_def by (subst takeWhile_append2) (auto simp: list_ex_iff)

lemma ambiguous_args_Nil [simp]: "\<not> ambiguous_args os []"
  by (simp add: ambiguous_args_def)

text \<open>The options a parser is given with, and what it makes of them.\<close>

definition given_ok :: "arg_option list \<Rightarrow> (arg_option \<times> string) list \<Rightarrow> bool" where
  "given_ok os avs \<longleftrightarrow>
     list_all (\<lambda>(o', v). o' \<in> set os \<and> op_action o' \<noteq> StoreTrue \<and> convert (op_action o') v \<noteq> None) avs"

definition store_given :: "(arg_option \<times> string) list \<Rightarrow> parse_state \<Rightarrow> parse_state" where
  "store_given avs = fold (\<lambda>(o', v). store_value o' (the (convert (op_action o') v))) avs"

definition initial_parse :: "arg_option list \<Rightarrow> parse_state" where
  "initial_parse os = \<lparr>ps_values = defaults os, ps_seen = [], ps_extras = False\<rparr>"

lemma parse_given:
  assumes "option_names_ok os" and "given_ok os avs"
  shows "parse_options subs os st (map (\<lambda>(o', v). assign o' v) avs) = Parsed (store_given avs st, [])"
  using assms(2)
proof (induction avs arbitrary: st)
  case (Cons av avs)
  obtain o' v where av: "av = (o', v)" by fastforce
  with Cons.prems obtain w where w: "o' \<in> set os" "op_action o' \<noteq> StoreTrue" "convert (op_action o') v = Some w"
    and avs: "given_ok os avs" by (auto simp: given_ok_def)
  show ?case
    using Cons.IH [OF avs, of "store_value o' w st"] parse_assign [OF assms(1) w] w(3)
    by (simp add: av store_given_def del: parse_options.simps)
qed (simp add: store_given_def)

lemma parse_known_given:
  assumes "option_names_ok os" and "given_ok os avs"
    and "\<not> missing_options os (store_given avs (initial_parse os))"
  shows "parse_known False os (map (\<lambda>(o', v). assign o' v) avs) =
    Parsed (store_given avs (initial_parse os), [])"
proof -
  have "classify os a \<noteq> Ambiguous \<and> a \<noteq> ''--''" if given: "a \<in> set (map (\<lambda>(o', v). assign o' v) avs)" for a
  proof -
    obtain o' v where a: "a = assign o' v" "(o', v) \<in> set avs" using given by auto
    then have a: "a = assign o' v" "o' \<in> set os" using assms(2) by (auto simp: given_ok_def list_all_iff)
    have "CHR ''='' \<in> set a" by (simp add: a assign_def)
    then show ?thesis using classify_assign [OF assms(1) a(2)] a(1) by auto
  qed
  then have "\<not> ambiguous_args os (map (\<lambda>(o', v). assign o' v) avs)"
    using ambiguous_args_append [of "map (\<lambda>(o', v). assign o' v) avs" os "[]"] by simp
  with assms show ?thesis by (simp add: parse_known_def parse_given flip: initial_parse_def)
qed

lemma parse_flags:
  assumes "option_names_ok os" and "\<And>f. f \<in> set fs \<Longrightarrow> f \<in> set os \<and> op_action f = StoreTrue"
    and "classify os cmd = Positional" "cmd \<noteq> ''--''"
  shows "parse_options True os st (map op_flag fs @ cmd # rest) =
    Parsed (fold (\<lambda>f. store_value f (ArgBool True)) fs st, cmd # rest)"
  using assms(2)
proof (induction fs arbitrary: st)
  case (Cons f fs)
  then show ?case using parse_flag [OF assms(1), of f] by (simp del: parse_options.simps)
qed (use assms(3,4) in simp)

lemma parse_known_flags:
  assumes "option_names_ok os" and "\<And>f. f \<in> set fs \<Longrightarrow> f \<in> set os \<and> op_action f = StoreTrue"
    and "classify os cmd = Positional" "cmd \<noteq> ''--''"
    and "\<And>a. a \<in> set rest \<Longrightarrow> classify os a \<noteq> Ambiguous \<and> a \<noteq> ''--''"
    and "list_all (\<lambda>o'. \<not> op_required o') os"
  shows "parse_known True os (map op_flag fs @ cmd # rest) =
    Parsed (fold (\<lambda>f. store_value f (ArgBool True)) fs (initial_parse os), cmd # rest)"
proof -
  have "classify os a \<noteq> Ambiguous \<and> a \<noteq> ''--''" if "a \<in> set (map op_flag fs @ cmd # rest)" for a
    using that assms(3-5) classify_flag [OF assms(1)] option_names_okD(1) [OF assms(1)] assms(2) by force
  then have "\<not> ambiguous_args os (map op_flag fs @ cmd # rest)"
    using ambiguous_args_append [of "map op_flag fs @ cmd # rest" os "[]"] by simp
  moreover have "\<not> missing_options os st" for st
    using assms(6) by (auto simp: missing_options_def list_all_iff list_ex_iff)
  ultimately show ?thesis
    by (simp add: parse_known_def parse_flags [OF assms(1-4)] flip: initial_parse_def)
qed

section \<open>What every parse keeps\<close>

lemma find_SomeD: "find P xs = Some y \<Longrightarrow> y \<in> set xs \<and> P y"
  by (auto simp: find_Some_iff)

lemma classify_Known: "classify os a = Known o' e \<Longrightarrow> o' \<in> set os"
  by (auto simp: classify_def classify_long_def classify_short_def classify_abbreviation_def Let_def
      dest!: find_SomeD dest: filter_eq_ConsD split: if_splits option.splits list.splits)

lemma store_text_Parsed:
  "store_text o' s st = Parsed st' \<longleftrightarrow> (\<exists>v. convert (op_action o') s = Some v \<and> st' = store_value o' v st)"
  by (auto simp: store_text_def split: option.splits)

definition kept :: "arg_option list \<Rightarrow> (parse_state \<Rightarrow> bool) \<Rightarrow> bool" where
  "kept os P \<longleftrightarrow> (\<forall>st. P st \<longrightarrow> P (st\<lparr>ps_extras := True\<rparr>) \<and>
     (\<forall>o' \<in> set os. (op_action o' = StoreTrue \<longrightarrow> P (store_value o' (ArgBool True) st)) \<and>
       (op_action o' \<noteq> StoreTrue \<longrightarrow>
          (\<forall>s v. convert (op_action o') s = Some v \<longrightarrow> P (store_value o' v st)))))"

lemma parse_options_kept:
  assumes "parse_options subs os st args = Parsed (st', rest)" and "P st" and "kept os P"
  shows "P st'"
  using assms
proof (induction subs os st args rule: parse_options.induct)
  case (2 subs os st a rest)
  show ?case
  proof (cases "classify os a")
    case (Known o' e)
    have o': "o' \<in> set os" by (rule classify_Known [OF Known])
    have ne: "a \<noteq> ''--''" using "2.prems" by auto
    show ?thesis
    proof (cases "op_action o' = StoreTrue")
      case True
      then show ?thesis using 2 o' Known by (simp add: kept_def split: if_splits)
    next
      case False
      then show ?thesis using 2 o' Known
        by (auto simp: kept_def store_text_Parsed split: if_splits option.splits list.splits parsed.splits)
    qed
  qed (use 2 in \<open>auto simp: kept_def split: if_splits\<close>)
qed simp


lemma parse_known_kept:
  assumes "parse_known subs os args = Parsed (st, rest)" and "kept os P" and "P (initial_parse os)"
  shows "P st" "\<not> missing_options os st"
  using assms parse_options_kept [of subs os "initial_parse os" args st rest P]
  by (auto simp: parse_known_def initial_parse_def split: if_splits parsed.splits)

text \<open>A flag whose default is \<open>True\<close> stays so.\<close>

lemma flag_kept:
  assumes "\<And>o'. o' \<in> set os \<Longrightarrow> op_dest o' = d \<Longrightarrow> op_action o' = StoreTrue"
  shows "kept os (\<lambda>st. ps_values st d = Some (ArgBool True))"
  using assms by (auto simp: kept_def store_value_def)

text \<open>Every attribute of the namespace has the type of its option.\<close>

definition typed :: "arg_option \<Rightarrow> arg_value \<Rightarrow> bool" where
  "typed o' v =
     (case op_action o' of
        StoreTrue \<Rightarrow> (case v of ArgBool _ \<Rightarrow> True | _ \<Rightarrow> False)
      | StoreInt \<Rightarrow> (case v of ArgInt _ \<Rightarrow> True | _ \<Rightarrow> False)
      | StoreText \<Rightarrow> (case v of ArgText _ \<Rightarrow> True | _ \<Rightarrow> False)
      | StoreChoice cs \<Rightarrow> (case v of ArgText s \<Rightarrow> s \<in> set cs | _ \<Rightarrow> False))"

definition options_typed :: "arg_option list \<Rightarrow> bool" where
  "options_typed os \<longleftrightarrow> distinct (map op_dest os) \<and> distinct (map op_flag os) \<and>
     list_all (\<lambda>o'. op_required o' \<or> typed o' (op_default o')) os"

lemma convert_typed: "convert (op_action o') s = Some v \<Longrightarrow> typed o' v"
  by (auto simp: convert_def typed_def split: arg_action.splits sum.splits if_splits)

definition well_typed :: "arg_option list \<Rightarrow> parse_state \<Rightarrow> bool" where
  "well_typed os st \<longleftrightarrow> (\<forall>o' \<in> set os. \<exists>v. ps_values st (op_dest o') = Some v \<and>
     (typed o' v \<or> op_required o' \<and> op_flag o' \<notin> set (ps_seen st)))"

lemma distinct_map_eqD: "distinct (map f xs) \<Longrightarrow> x \<in> set xs \<Longrightarrow> y \<in> set xs \<Longrightarrow> f x = f y \<Longrightarrow> x = y"
  by (simp add: distinct_map inj_on_def)

lemma typed_kept:
  assumes "options_typed os"
  shows "kept os (well_typed os)"
proof -
  have store: "well_typed os (store_value o' v st)" if "well_typed os st" "o' \<in> set os" "typed o' v" for o' v st
    unfolding well_typed_def
  proof
    fix p assume p: "p \<in> set os"
    show "\<exists>w. ps_values (store_value o' v st) (op_dest p) = Some w \<and>
        (typed p w \<or> op_required p \<and> op_flag p \<notin> set (ps_seen (store_value o' v st)))"
    proof (cases "p = o'")
      case False
      have d: "distinct (map op_dest os)" "distinct (map op_flag os)"
        using assms by (simp_all add: options_typed_def)
      have "op_dest p \<noteq> op_dest o'" "op_flag p \<noteq> op_flag o'"
        using False distinct_map_eqD [OF d(1) p that(2)] distinct_map_eqD [OF d(2) p that(2)] by blast+
      then show ?thesis using that(1) p by (simp add: well_typed_def store_value_def)
    qed (use that(3) in \<open>simp add: store_value_def\<close>)
  qed
  have "typed o' (ArgBool True)" if "op_action o' = StoreTrue" for o' using that by (simp add: typed_def)
  with store show ?thesis
    by (auto simp: kept_def dest: convert_typed) (simp add: well_typed_def)
qed

lemma initial_typed:
  assumes "options_typed os"
  shows "well_typed os (initial_parse os)"
  unfolding well_typed_def
proof
  fix o' assume o': "o' \<in> set os"
  have "map_of (map (\<lambda>p. (op_dest p, op_default p)) os) (op_dest o') = Some (op_default o')"
    using assms o' by (intro map_of_is_SomeI) (auto simp: options_typed_def comp_def)
  with assms o' show "\<exists>v. ps_values (initial_parse os) (op_dest o') = Some v \<and>
      (typed o' v \<or> op_required o' \<and> op_flag o' \<notin> set (ps_seen (initial_parse os)))"
    by (auto simp: initial_parse_def defaults_def options_typed_def list_all_iff)
qed

lemma parse_known_typed:
  assumes "parse_known subs os args = Parsed (st, rest)" and "options_typed os" and "o' \<in> set os"
  shows "\<exists>v. ps_values st (op_dest o') = Some v \<and> typed o' v"
proof -
  note k = parse_known_kept [OF assms(1) typed_kept initial_typed, OF assms(2) assms(2)]
  from k(2) assms(3) have "op_required o' \<longrightarrow> op_flag o' \<in> set (ps_seen st)"
    by (auto simp: missing_options_def list_ex_iff)
  with k(1) assms(3) show ?thesis unfolding well_typed_def by blast
qed

end
