(* ===== verification/Command_Line.thy ===== *)
theory Command_Line
  imports Service Arg_Parser
begin

text \<open>
  The safety gate (\<open>safety.py\<close>) and the command line (\<open>cli.py\<close>).  A world is the process (its mode,
  whether mainnet was confirmed, the banners it printed), the files and the databases by path, and what
  the commands printed, as data.  A command gives its exit code, or the exception that ends the process,
  together with the world it leaves.  A path is its text.
\<close>

section \<open>The safety gate\<close>

datatype mode = REGTEST | MAINNET

datatype notice = RESEARCH_BANNER | MAINNET_BANNER | MainnetRefused | UsageError | ErrorNotice exn

record process =
  process_mode :: mode
  mainnet_confirmed :: bool
  banner_shown :: bool
  stderr :: "notice list"

definition emit_banner_once :: "process \<Rightarrow> process" where
  "emit_banner_once p =
     (if banner_shown p then p
      else p\<lparr>stderr := stderr p @ [RESEARCH_BANNER], banner_shown := True\<rparr>)"

definition current_mode :: "process \<Rightarrow> mode" where
  "current_mode p = process_mode p"

definition is_mainnet :: "process \<Rightarrow> bool" where
  "is_mainnet p \<longleftrightarrow> process_mode p = MAINNET"

definition set_mode :: "mode \<Rightarrow> bool \<Rightarrow> process \<Rightarrow> unit result \<times> process" where
  "set_mode m i_understand p =
     (if m = MAINNET
      then if \<not> i_understand then (raise SafetyError, p)
           else (return (), p\<lparr>mainnet_confirmed := True, stderr := stderr p @ [MAINNET_BANNER], process_mode := m\<rparr>)
      else (return (), p\<lparr>process_mode := m\<rparr>))"

definition require_safe_mode :: "process \<Rightarrow> unit result" where
  "require_safe_mode p =
     (if process_mode p = MAINNET \<and> \<not> mainnet_confirmed p then raise SafetyError else return ())"

text \<open>The invariant: a process in mainnet mode was confirmed and showed the warning.\<close>

definition process_safe :: "process \<Rightarrow> bool" where
  "process_safe p \<longleftrightarrow>
     (process_mode p = MAINNET \<longrightarrow> mainnet_confirmed p \<and> MAINNET_BANNER \<in> set (stderr p))"

lemma set_mode_safe: "process_safe p \<Longrightarrow> process_safe (snd (set_mode m b p))"
  by (simp add: set_mode_def process_safe_def)

lemma emit_banner_safe: "process_safe p \<Longrightarrow> process_safe (emit_banner_once p)"
  by (simp add: emit_banner_once_def process_safe_def)

lemma process_safe_require: "process_safe p \<Longrightarrow> require_safe_mode p = Inr ()"
  by (simp add: process_safe_def require_safe_mode_def)

lemma emit_banner_once_idem: "emit_banner_once (emit_banner_once p) = emit_banner_once p"
  by (simp add: emit_banner_once_def)

section \<open>Creating key books\<close>

text \<open>\<open>draw i\<close> is the \<open>i\<close>-th key the generator of bitcoinx draws.\<close>

definition kb_random :: "(nat \<Rightarrow> privkey) \<Rightarrow> int \<Rightarrow> keybook" where
  "kb_random draw n = \<lparr>keys = map draw [0..<nat n]\<rparr>"

definition kb_from_ints :: "externals \<Rightarrow> int list \<Rightarrow> keybook result" where
  "kb_from_ints x ints =
     bindR (mapR (\<lambda>i. bindR (to_bytes_be 32 i) (x_private_key x)) ints) (\<lambda>ks. return \<lparr>keys = ks\<rparr>)"

lemma kb_random_n: "0 \<le> n \<Longrightarrow> kb_n (kb_random draw n) = n"
  by (simp add: kb_random_def kb_n_def)

section \<open>Files and output\<close>

datatype cli_output =
    HelpText
  | Opened string
  | Applied int int
  | Payouts "(int \<times> int \<times> int) list" int int
  | Contested int int int int
  | DaemonListening int
  | DaemonReply json
  | DaemonFailed exn

record cli_world =
  cw_process :: process
  cw_files :: "string \<Rightarrow> disk_file"
  cw_databases :: "string \<Rightarrow> system_store"
  cw_printed :: "cli_output list"

definition print_out :: "cli_output \<Rightarrow> cli_world \<Rightarrow> cli_world" where
  "print_out out W = W\<lparr>cw_printed := cw_printed W @ [out]\<rparr>"

definition write_file :: "string \<Rightarrow> disk_file \<Rightarrow> cli_world \<Rightarrow> cli_world" where
  "write_file p f W = W\<lparr>cw_files := (cw_files W)(p := f)\<rparr>"

text \<open>\<open>json.load(open(path))\<close>\<close>

definition read_json :: "disk_file \<Rightarrow> json result" where
  "read_json f = (case f of None \<Rightarrow> raise PyOSError | Some content \<Rightarrow> load_bytes content)"

type_synonym command_run = "cli_world \<Rightarrow> int result \<times> cli_world"

text \<open>A computation that raises leaves the world; one that returns continues.\<close>

definition try_run :: "'a result \<Rightarrow> ('a \<Rightarrow> command_run) \<Rightarrow> command_run" where
  "try_run r k W = (case r of Inl e \<Rightarrow> (raise e, W) | Inr v \<Rightarrow> k v W)"

section \<open>The channel commands\<close>

definition cmd_open ::
  "externals \<Rightarrow> (nat \<Rightarrow> privkey) \<Rightarrow> int \<Rightarrow> int \<Rightarrow> int \<Rightarrow> int \<Rightarrow> string \<Rightarrow> command_run" where
  "cmd_open x draw parties k funded bond out =
     try_run (bindR (uniform_bond parties k funded bond DEFAULT_L0 DEFAULT_DELTA) (\<lambda>cfg.
       bindR (channel_open x cfg (kb_random draw parties) default_parent None) (\<lambda>ch.
         save_channel x (mark_confirmed ch)))) (\<lambda>f W.
       (return 0, print_out (Opened out) (write_file out f W)))"

text \<open>An entry of the transfer script, checked in the order \<open>transfer\<close> looks at its arguments.\<close>

definition same_json :: "json \<Rightarrow> json \<Rightarrow> bool" where
  "same_json a b \<longleftrightarrow>
     (case (j_number a, j_number b) of (Inr v, Inr w) \<Rightarrow> v = w | _ \<Rightarrow> a = b)"

definition is_float :: "json \<Rightarrow> bool" where
  "is_float v \<longleftrightarrow> (case v of JFloat f \<Rightarrow> True | _ \<Rightarrow> False)"

definition json_op :: "config \<Rightarrow> json list \<Rightarrow> (int \<times> int \<times> int) result" where
  "json_op cfg op =
     (case op of
        [a, b, c] \<Rightarrow>
          if is_float a \<or> is_float b then raise OutsideModel
          else if same_json a b then raise AccountingError
          else bindR (j_number a) (\<lambda>s.
            if \<not> (0 \<le> s \<and> s < cfg_n cfg) then raise AccountingError
            else bindR (j_number b) (\<lambda>r.
              if \<not> (0 \<le> r \<and> r < cfg_n cfg) then raise AccountingError
              else (case j_number c of Inl _ \<Rightarrow> raise AccountingError | Inr d \<Rightarrow> return (s, r, d))))
      | _ \<Rightarrow> raise ChannelError)"

definition apply_json_sequence :: "channel \<Rightarrow> json list list \<Rightarrow> channel result" where
  "apply_json_sequence ch ops =
     (let cfg = ch_cfg ch
      in bindR (conservation_check (ch_state ch) cfg) (\<lambda>_.
         bindR (foldR (\<lambda>cur op. bindR (json_op cfg op) (\<lambda>(s, r, d).
             bindR (transfer cur s r d cfg) (\<lambda>cur'.
             bindR (conservation_check cur' cfg) (\<lambda>_. return cur')))) (ch_state ch) ops) (\<lambda>st.
           return (ch\<lparr>ch_state := st\<rparr>))))"

definition parse_script :: "json \<Rightarrow> json list list result" where
  "parse_script d =
     (case d of
        JList ops \<Rightarrow>
          bindR (mapR j_elements ops) (\<lambda>seq.
          bindR (check_all (\<lambda>op. if length op \<noteq> 3 then raise ChannelError else return ()) seq) (\<lambda>_.
            return seq))
      | _ \<Rightarrow> raise ChannelError)"

definition cmd_transfer :: "externals \<Rightarrow> string \<Rightarrow> string \<Rightarrow> command_run" where
  "cmd_transfer x script state W =
     try_run (bindR (load_channel x (cw_files W state)) (\<lambda>ch.
       bindR (read_json (cw_files W script)) (\<lambda>ops.
       bindR (parse_script ops) (\<lambda>seq.
       bindR (apply_json_sequence ch seq) (\<lambda>ch'.
       bindR (save_channel x ch') (\<lambda>f.
         return (f, int (length seq), version (ch_state ch')))))))) (\<lambda>(f, count, v) W.
       (return 0, print_out (Applied count v) (write_file state f W))) W"

definition payout_rows :: "int list \<Rightarrow> config \<Rightarrow> (int \<times> int \<times> int) list result" where
  "payout_rows q cfg =
     mapR (\<lambda>i. bindR (py_nth q i) (\<lambda>qi. bindR (py_nth (cfg_bonds cfg) i) (\<lambda>b.
       return (qi, b, qi + b)))) (py_range (cfg_n cfg))"

definition cmd_close :: "externals \<Rightarrow> string \<Rightarrow> command_run" where
  "cmd_close x state W =
     try_run (bindR (load_channel x (cw_files W state)) (\<lambda>ch.
       bindR (cooperative_close x ch None) (\<lambda>(t, utxos).
       bindR (verify_all_inputs x t utxos) (\<lambda>_.
       bindR (quantise (ch_state ch) (ch_cfg ch)) (\<lambda>q.
       bindR (payout_rows q (ch_cfg ch)) (\<lambda>rows.
         return (Payouts rows (outputs_total (tx_outputs t)) (x_tx_size x t)))))))) (\<lambda>out W.
       (return 0, print_out out W)) W"

definition cmd_contested :: "externals \<Rightarrow> int \<Rightarrow> string \<Rightarrow> command_run" where
  "cmd_contested x offender state W =
     try_run (bindR (load_channel x (cw_files W state)) (\<lambda>ch.
       bindR (forfeit_bond_tx x ch offender None 0) (\<lambda>(t, utxos).
       bindR (py_nth utxos 0) (\<lambda>u.
       bindR (verify_spend x t 0 u) (\<lambda>_.
       bindR (py_nth (cfg_bonds (ch_cfg ch)) offender) (\<lambda>b.
         return (Contested offender b (cfg_n (ch_cfg ch) - 1) (outputs_total (tx_outputs t))))))))) (\<lambda>out W.
       (return 0, print_out out W)) W"

section \<open>The daemon commands\<close>

text \<open>What the outside world does during a run: the keys drawn, the chunks the socket to the daemon at a
  port gives back for a line, the port a listening socket gets, the events of a daemon's life, and
  the texts of exceptions.\<close>

record outside =
  ou_draw :: "nat \<Rightarrow> privkey"
  ou_exchange :: "int \<Rightarrow> bytes \<Rightarrow> bytes list result"
  ou_listen :: "int \<Rightarrow> int result"
  ou_events :: "daemon_event list"
  ou_describe :: "exn \<Rightarrow> string"

definition cmd_daemon_call :: "outside \<Rightarrow> int \<Rightarrow> json \<Rightarrow> command_run" where
  "cmd_daemon_call ou port req W =
     (case call (ou_exchange ou port) req of
        Inl e \<Rightarrow> (return 1, print_out (DaemonFailed e) W)
      | Inr resp \<Rightarrow>
          (bindR (bindR (j_get resp ''ok'') j_truth) (\<lambda>ok. return (if ok then 0 else 2)),
           print_out (DaemonReply resp) W))"

definition cmd_request :: "string \<Rightarrow> json" where
  "cmd_request c = JObj [(''cmd'', JStr c)]"

definition cmd_ping :: "outside \<Rightarrow> int \<Rightarrow> command_run" where
  "cmd_ping ou port = cmd_daemon_call ou port (cmd_request ''ping'')"

definition cmd_status :: "outside \<Rightarrow> int \<Rightarrow> command_run" where
  "cmd_status ou port = cmd_daemon_call ou port (cmd_request ''status'')"

definition cmd_daemon_stop :: "outside \<Rightarrow> int \<Rightarrow> command_run" where
  "cmd_daemon_stop ou port = cmd_daemon_call ou port (cmd_request ''shutdown'')"

definition cmd_node_generate :: "outside \<Rightarrow> int \<Rightarrow> string \<Rightarrow> command_run" where
  "cmd_node_generate ou port payout_hex =
     cmd_daemon_call ou port (JObj [(''cmd'', JStr ''node.generate''), (''payout_pk_hex'', JStr payout_hex)])"

text \<open>The daemon's store is the database at the path, which keeps what the manager put there.\<close>

definition open_database :: "string \<Rightarrow> cli_world \<Rightarrow> system_store" where
  "open_database db W = (if db = '':memory:'' then empty_system_store else cw_databases W db)"

definition close_database :: "string \<Rightarrow> system_store \<Rightarrow> cli_world \<Rightarrow> cli_world" where
  "close_database db s W =
     (if db = '':memory:'' then W else W\<lparr>cw_databases := (cw_databases W)(db := s)\<rparr>)"

text \<open>Without \<open>foreground\<close> the command returns while the daemon's thread serves on.\<close>

definition cmd_daemon_start :: "externals \<Rightarrow> outside \<Rightarrow> int \<Rightarrow> string \<Rightarrow> bool \<Rightarrow> command_run" where
  "cmd_daemon_start x ou port db foreground W =
     (case new_service x (open_database db W) of
        Inl e \<Rightarrow> (raise e, W)
      | Inr (sv :: unit service) \<Rightarrow>
          (case daemon_start (ou_listen ou) \<lparr>dm_service = sv, dm_port = port, dm_listening = False\<rparr> of
             (Inl e, d) \<Rightarrow> (raise e, W)
           | (Inr actual_port, d) \<Rightarrow>
               (let W1 = print_out (DaemonListening actual_port) W
                in if foreground
                   then (let (replies, sv') = wait_for_shutdown x (ou_describe ou) (ou_events ou) (dm_service d);
                             d' = daemon_stop (d\<lparr>dm_service := sv'\<rparr>)
                         in (return 0, close_database db (mg_store (sv_manager (dm_service d'))) W1))
                   else (return 0, W1))))"

section \<open>The entry point\<close>

datatype cli_command =
    CmdOpen int int int int string
  | CmdTransfer string string
  | CmdClose string
  | CmdContested int string
  | CmdDaemonStart int string bool
  | CmdPing int
  | CmdStatus int
  | CmdDaemonStop int
  | CmdNodeGenerate int string

record cli_args =
  arg_mainnet :: bool
  arg_confirmed :: bool
  arg_no_banner :: bool
  arg_command :: cli_command

fun run_command :: "externals \<Rightarrow> outside \<Rightarrow> cli_command \<Rightarrow> command_run" where
  "run_command x ou (CmdOpen n k S b out) = cmd_open x (ou_draw ou) n k S b out"
| "run_command x ou (CmdTransfer script state) = cmd_transfer x script state"
| "run_command x ou (CmdClose state) = cmd_close x state"
| "run_command x ou (CmdContested i state) = cmd_contested x i state"
| "run_command x ou (CmdDaemonStart port db foreground) = cmd_daemon_start x ou port db foreground"
| "run_command x ou (CmdPing port) = cmd_ping ou port"
| "run_command x ou (CmdStatus port) = cmd_status ou port"
| "run_command x ou (CmdDaemonStop port) = cmd_daemon_stop ou port"
| "run_command x ou (CmdNodeGenerate port h) = cmd_node_generate ou port h"

definition tell :: "notice \<Rightarrow> cli_world \<Rightarrow> cli_world" where
  "tell n W = W\<lparr>cw_process := (cw_process W)\<lparr>stderr := stderr (cw_process W) @ [n]\<rparr>\<rparr>"

text \<open>\<open>except ChannelError\<close> turns the package's errors into exit code 2.\<close>

definition guarded :: "command_run \<Rightarrow> command_run" where
  "guarded c W =
     (case c W of
        (Inl e, W') \<Rightarrow> if catches ChannelError e then (return 2, tell (ErrorNotice e) W') else (raise e, W')
      | (Inr v, W') \<Rightarrow> (return v, W'))"

definition cli_main ::
  "externals \<Rightarrow> outside \<Rightarrow> cli_args \<Rightarrow> command_run" where
  "cli_main x ou args W =
     (let W1 = (if arg_no_banner args then W else W\<lparr>cw_process := emit_banner_once (cw_process W)\<rparr>)
      in if arg_mainnet args \<and> \<not> arg_confirmed args then (return 2, tell MainnetRefused W1)
         else
           let W2 = (if arg_mainnet args
                then W1\<lparr>cw_process := snd (set_mode MAINNET True (cw_process W1))\<rparr> else W1)
           in guarded (run_command x ou (arg_command args)) W2)"

section \<open>The arguments\<close>

definition DEFAULT_PATH :: string where
  "DEFAULT_PATH = ''channel_state.json''"

definition build_parser :: "(namespace \<Rightarrow> cli_command) arg_parser" where
  "build_parser = \<lparr>
     ap_options =
       [value_option ''--log-level'' (StoreChoice [''DEBUG'', ''INFO'', ''WARNING'', ''ERROR'']) (ArgText ''INFO''),
        flag_option ''--mainnet'',
        (flag_option ''--i-understand-this-is-research-code'')\<lparr>op_dest := ''confirmed''\<rparr>,
        flag_option ''--no-banner''],
     ap_commands =
       [(''open'',
          [required_option ''--parties'' StoreInt, required_option ''--k'' StoreInt,
           required_option ''--funded'' StoreInt, value_option ''--bond'' StoreInt (ArgInt 1),
           value_option ''--out'' StoreText (ArgText DEFAULT_PATH)],
          \<lambda>ns. CmdOpen (arg_int ns ''parties'') (arg_int ns ''k'') (arg_int ns ''funded'')
            (arg_int ns ''bond'') (arg_text ns ''out'')),
        (''transfer'',
          [required_option ''--script'' StoreText, value_option ''--state'' StoreText (ArgText DEFAULT_PATH)],
          \<lambda>ns. CmdTransfer (arg_text ns ''script'') (arg_text ns ''state'')),
        (''close'', [value_option ''--state'' StoreText (ArgText DEFAULT_PATH)],
          \<lambda>ns. CmdClose (arg_text ns ''state'')),
        (''contested'',
          [required_option ''--offender'' StoreInt, value_option ''--state'' StoreText (ArgText DEFAULT_PATH)],
          \<lambda>ns. CmdContested (arg_int ns ''offender'') (arg_text ns ''state'')),
        (''daemon-start'',
          [value_option ''--port'' StoreInt (ArgInt 0), value_option ''--db'' StoreText (ArgText '':memory:''),
           (flag_option ''--foreground'')\<lparr>op_default := ArgBool True\<rparr>],
          \<lambda>ns. CmdDaemonStart (arg_int ns ''port'') (arg_text ns ''db'') (arg_bool ns ''foreground'')),
        (''ping'', [required_option ''--port'' StoreInt], \<lambda>ns. CmdPing (arg_int ns ''port'')),
        (''status'', [required_option ''--port'' StoreInt], \<lambda>ns. CmdStatus (arg_int ns ''port'')),
        (''daemon-stop'', [required_option ''--port'' StoreInt], \<lambda>ns. CmdDaemonStop (arg_int ns ''port'')),
        (''node-generate'', [required_option ''--port'' StoreInt, required_option ''--payout-hex'' StoreText],
          \<lambda>ns. CmdNodeGenerate (arg_int ns ''port'') (arg_text ns ''payout_hex''))]\<rparr>"

text \<open>The log level only selects what is logged.\<close>

definition parse_cli :: "string list \<Rightarrow> cli_args parsed" where
  "parse_cli argv =
     (case parse_args build_parser argv of
        SystemExit c \<Rightarrow> SystemExit c
      | Parsed (ns, f) \<Rightarrow> Parsed \<lparr>arg_mainnet = arg_bool ns ''mainnet'', arg_confirmed = arg_bool ns ''confirmed'',
          arg_no_banner = arg_bool ns ''no_banner'', arg_command = f ns\<rparr>)"

text \<open>The process: \<open>SystemExit\<close> ends it with its code, after a usage error or the help text.\<close>

definition cli_process :: "externals \<Rightarrow> outside \<Rightarrow> string list \<Rightarrow> command_run" where
  "cli_process x ou argv W =
     (case parse_cli argv of
        SystemExit c \<Rightarrow> (return c, if c = 0 then print_out HelpText W else tell UsageError W)
      | Parsed args \<Rightarrow> cli_main x ou args W)"

section \<open>What a command can change\<close>

lemma print_out_sel [simp]:
  "cw_process (print_out out W) = cw_process W" "cw_files (print_out out W) = cw_files W"
  "cw_databases (print_out out W) = cw_databases W"
  by (simp_all add: print_out_def)

lemma write_file_sel [simp]:
  "cw_process (write_file p f W) = cw_process W" "cw_files (write_file p f W) = (cw_files W)(p := f)"
  "cw_databases (write_file p f W) = cw_databases W"
  by (simp_all add: write_file_def)

lemma tell_sel [simp]:
  "cw_files (tell n W) = cw_files W" "cw_databases (tell n W) = cw_databases W" "cw_printed (tell n W) = cw_printed W"
  "process_mode (cw_process (tell n W)) = process_mode (cw_process W)"
  "process_safe (cw_process W) \<Longrightarrow> process_safe (cw_process (tell n W))"
  by (simp_all add: tell_def process_safe_def)

text \<open>A command writes no file and no database unless it exits with 0, and never touches the mode.\<close>

definition quiet :: "command_run \<Rightarrow> bool" where
  "quiet c \<longleftrightarrow> (\<forall>W. cw_process (snd (c W)) = cw_process W \<and>
     (fst (c W) \<noteq> Inr 0 \<longrightarrow> cw_files (snd (c W)) = cw_files W \<and> cw_databases (snd (c W)) = cw_databases W))"

lemma quiet_daemon_call: "quiet (cmd_daemon_call ou port req)"
  by (simp add: quiet_def cmd_daemon_call_def split: sum.splits)

lemmas daemon_commands = cmd_ping_def cmd_status_def cmd_daemon_stop_def cmd_node_generate_def

lemma run_command_quiet: "quiet (run_command x ou c)"
proof (cases c)
  case (CmdOpen n k S b out)
  then show ?thesis by (auto simp: quiet_def cmd_open_def try_run_def split: sum.splits)
next
  case (CmdTransfer script state)
  then show ?thesis by (auto simp: quiet_def cmd_transfer_def try_run_def split: sum.splits)
next
  case (CmdClose state)
  then show ?thesis by (auto simp: quiet_def cmd_close_def try_run_def split: sum.splits)
next
  case (CmdContested i state)
  then show ?thesis by (auto simp: quiet_def cmd_contested_def try_run_def split: sum.splits)
next
  case (CmdDaemonStart port db foreground)
  then show ?thesis
    by (auto simp: quiet_def cmd_daemon_start_def close_database_def Let_def split: sum.splits prod.splits)
qed (simp_all add: daemon_commands quiet_daemon_call)

lemma guarded_sel:
  "cw_files (snd (guarded c W)) = cw_files (snd (c W))"
  "cw_databases (snd (guarded c W)) = cw_databases (snd (c W))"
  "process_mode (cw_process (snd (guarded c W))) = process_mode (cw_process (snd (c W)))"
  "process_safe (cw_process (snd (c W))) \<Longrightarrow> process_safe (cw_process (snd (guarded c W)))"
  "fst (guarded c W) = Inr 0 \<longleftrightarrow> fst (c W) = Inr 0"
  by (auto simp: guarded_def split: prod.splits sum.splits)

lemma cli_main_runs:
  assumes "arg_mainnet args \<Longrightarrow> arg_confirmed args"
  shows "\<exists>W'. cli_main x ou args W = guarded (run_command x ou (arg_command args)) W' \<and>
    cw_files W' = cw_files W"
proof -
  have "\<not> (arg_mainnet args \<and> \<not> arg_confirmed args)" using assms by blast
  then have "cli_main x ou args W = guarded (run_command x ou (arg_command args))
      (let W1 = (if arg_no_banner args then W else W\<lparr>cw_process := emit_banner_once (cw_process W)\<rparr>)
       in if arg_mainnet args then W1\<lparr>cw_process := snd (set_mode MAINNET True (cw_process W1))\<rparr> else W1)"
    unfolding cli_main_def Let_def by (simp only: if_False)
  then show ?thesis by (intro exI conjI) (assumption, simp add: Let_def)
qed

lemma cli_main_files:
  assumes "fst (cli_main x ou args W) \<noteq> Inr 0"
  shows "cw_files (snd (cli_main x ou args W)) = cw_files W \<and>
    cw_databases (snd (cli_main x ou args W)) = cw_databases W"
proof (cases "arg_mainnet args \<and> \<not> arg_confirmed args")
  case False
  then show ?thesis
    using assms run_command_quiet [of x ou "arg_command args"] unfolding quiet_def
    by (auto simp: cli_main_def Let_def guarded_sel)
qed (simp add: cli_main_def)

lemma cli_main_process:
  assumes "process_safe (cw_process W)"
  shows "process_safe (cw_process (snd (cli_main x ou args W)))"
    and "\<not> arg_mainnet args \<Longrightarrow>
      process_mode (cw_process (snd (cli_main x ou args W))) = process_mode (cw_process W)"
proof -
  have run: "cw_process (snd (run_command x ou (arg_command args) W')) = cw_process W'" for W'
    using run_command_quiet [of x ou "arg_command args"] by (simp add: quiet_def)
  show "process_safe (cw_process (snd (cli_main x ou args W)))"
    using assms emit_banner_safe [OF assms] set_mode_safe
    by (auto simp: cli_main_def Let_def run intro!: guarded_sel(4) tell_sel(5))
  show "process_mode (cw_process (snd (cli_main x ou args W))) = process_mode (cw_process W)"
    if "\<not> arg_mainnet args"
    using that by (simp add: cli_main_def Let_def guarded_sel run emit_banner_once_def)
qed

section \<open>Transfers through the command line\<close>

lemma apply_json_sequence_wf:
  assumes "apply_json_sequence ch ops = Inr ch'" and "channel_wf x ch"
  shows "channel_wf x ch' \<and> version (ch_state ch') = version (ch_state ch) + int (length ops) \<and>
    ch_funding_tx ch' = ch_funding_tx ch \<and> ch_keybook ch' = ch_keybook ch \<and>
    ch_funding_utxos ch' = ch_funding_utxos ch"
proof -
  let ?cfg = "ch_cfg ch"
  let ?step = "\<lambda>cur op. bindR (json_op ?cfg op) (\<lambda>(s, r, d).
      bindR (transfer cur s r d ?cfg) (\<lambda>cur'. bindR (conservation_check cur' ?cfg) (\<lambda>_. return cur')))"
  obtain st where st: "foldR ?step (ch_state ch) ops = Inr st" and ch': "ch' = ch\<lparr>ch_state := st\<rparr>"
    using assms(1) by (auto simp: apply_json_sequence_def bindR_eq_Inr Let_def)
  have "valid_state ?cfg st' \<and> version st' = version st0 + int (length ops)"
    if "foldR ?step st0 ops = Inr st'" "valid_state ?cfg st0" for st0 st'
    using that
  proof (induction ops arbitrary: st0)
    case (Cons op ops)
    then obtain s r d st1 where step: "transfer st0 s r d ?cfg = Inr st1" and rest: "foldR ?step st1 ops = Inr st'"
      by (auto simp: bindR_eq_Inr)
    show ?case using Cons.IH [OF rest transfer_Inr(7) [OF step]] transfer_Inr(8) [OF step] by simp
  qed simp
  with st channel_wfD(3) [OF assms(2)]
  have "valid_state ?cfg st" "version st = version (ch_state ch) + int (length ops)" by blast+
  then show ?thesis using assms(2) by (simp add: ch' channel_wf_def)
qed

text \<open>A file written from a channel reads back as that channel.\<close>

lemma load_saved:
  assumes "channel_wf x ch" and "readable x ch" and "save_channel x ch = Inr f"
  shows "load_channel x f = Inr (reloaded ch)"
  using dict_roundtrip [OF assms(1,2)] assms(3) by (auto simp: save_channel_def load_saved_dict)

lemma reloaded_sel [simp]:
  "ch_cfg (reloaded ch) = ch_cfg ch" "ch_state (reloaded ch) = ch_state ch"
  "ch_funding_tx (reloaded ch) = ch_funding_tx ch" "ch_keybook (reloaded ch) = ch_keybook ch"
  "channel_wf x (reloaded ch) = channel_wf x ch"
  "readable x ch \<Longrightarrow> readable x (reloaded ch)"
  by (simp_all add: reloaded_def channel_wf_def readable_def)

lemma cmd_transfer_exit0:
  assumes "cmd_transfer x script state W = (Inr 0, W')"
    and "cw_files W state = f" "save_channel x ch = Inr f" "channel_wf x ch" "readable x ch"
  shows "\<exists>d ops ch'. read_json (cw_files W script) = Inr d \<and> parse_script d = Inr ops \<and>
    apply_json_sequence (reloaded ch) ops = Inr ch' \<and>
    load_channel x (cw_files W' state) = Inr (reloaded ch') \<and> channel_wf x ch' \<and>
    version (ch_state ch') = version (ch_state ch) + int (length ops) \<and>
    ch_funding_tx ch' = ch_funding_tx ch \<and>
    (\<forall>p. p \<noteq> state \<longrightarrow> cw_files W' p = cw_files W p)"
proof -
  have load: "load_channel x (cw_files W state) = Inr (reloaded ch)"
    using load_saved [OF assms(4,5,3)] assms(2) by simp
  obtain d ops ch' g where d: "read_json (cw_files W script) = Inr d" and ops: "parse_script d = Inr ops"
    and seq: "apply_json_sequence (reloaded ch) ops = Inr ch'" and g: "save_channel x ch' = Inr g"
    and W': "W' = print_out (Applied (int (length ops)) (version (ch_state ch'))) (write_file state g W)"
    using assms(1) load by (auto simp: cmd_transfer_def try_run_def bindR_eq_Inr split: sum.splits)
  have wf: "channel_wf x (reloaded ch)" using assms(4) by simp
  note s = apply_json_sequence_wf [OF seq wf]
  have "readable x ch'" using s reloaded_sel(6) [OF assms(5)] by (simp add: readable_def)
  then have "load_channel x g = Inr (reloaded ch')" using load_saved [OF _ _ g] s by blast
  then show ?thesis using d ops seq s by (simp add: W')
qed

end
