(* ===== verification/Cli_Arguments.thy ===== *)
theory Cli_Arguments
  imports Command_Line
begin

text \<open>
  What the arguments of the command line (\<open>build_parser\<close> in \<open>cli.py\<close>) can say: every command can be
  written, and reading what was written gives the command back; what is read has the types its
  options declare.
\<close>

section \<open>Every command can be written\<close>

text \<open>The arguments that give a command, every option as \<open>--option=value\<close>.\<close>

definition command_name :: "cli_command \<Rightarrow> string" where
  "command_name c =
     (case c of CmdOpen _ _ _ _ _ \<Rightarrow> ''open'' | CmdTransfer _ _ \<Rightarrow> ''transfer'' | CmdClose _ \<Rightarrow> ''close''
      | CmdContested _ _ \<Rightarrow> ''contested'' | CmdDaemonStart _ _ _ \<Rightarrow> ''daemon-start'' | CmdPing _ \<Rightarrow> ''ping''
      | CmdStatus _ \<Rightarrow> ''status'' | CmdDaemonStop _ \<Rightarrow> ''daemon-stop'' | CmdNodeGenerate _ _ \<Rightarrow> ''node-generate'')"

definition option_texts :: "cli_command \<Rightarrow> string list" where
  "option_texts c =
     (case c of
        CmdOpen n k S b out \<Rightarrow> [str_int n, str_int k, str_int S, str_int b, out]
      | CmdTransfer script state \<Rightarrow> [script, state]
      | CmdClose state \<Rightarrow> [state]
      | CmdContested i state \<Rightarrow> [str_int i, state]
      | CmdDaemonStart port db foreground \<Rightarrow> [str_int port, db]
      | CmdPing port \<Rightarrow> [str_int port] | CmdStatus port \<Rightarrow> [str_int port] | CmdDaemonStop port \<Rightarrow> [str_int port]
      | CmdNodeGenerate port h \<Rightarrow> [str_int port, h])"

definition command_options :: "cli_command \<Rightarrow> arg_option list" where
  "command_options c = (case map_of (ap_commands build_parser) (command_name c) of None \<Rightarrow> [] | Some (os, f) \<Rightarrow> os)"

definition flags_of :: "cli_args \<Rightarrow> arg_option list" where
  "flags_of args =
     (if arg_mainnet args then [ap_options build_parser ! 1] else []) @
     (if arg_confirmed args then [ap_options build_parser ! 2] else []) @
     (if arg_no_banner args then [ap_options build_parser ! 3] else [])"

definition argv_of :: "cli_args \<Rightarrow> string list" where
  "argv_of args =
     map op_flag (flags_of args) @ command_name (arg_command args) #
       map (\<lambda>(o', v). assign o' v) (zip (command_options (arg_command args)) (option_texts (arg_command args)))"

lemma build_parser_names:
  "option_names_ok (ap_options build_parser)" "option_names_ok (command_options c)"
  by (cases c; simp add: option_names_ok_def build_parser_def command_options_def command_name_def starts_with_def
      flag_option_def value_option_def required_option_def)+

lemmas option_defs = flag_option_def value_option_def required_option_def dest_of_def

lemma given_options:
  "given_ok (command_options c) (zip (command_options c) (option_texts c))"
  by (cases c) (simp_all add: given_ok_def build_parser_def command_options_def command_name_def option_texts_def
      option_defs convert_def int_str_int)

lemma required_given:
  "\<not> missing_options (command_options c)
      (store_given (zip (command_options c) (option_texts c)) (initial_parse (command_options c)))"
  by (cases c) (simp_all add: missing_options_def build_parser_def command_options_def command_name_def option_texts_def
      option_defs store_given_def store_value_def initial_parse_def)


lemma foreign_options:
  assumes "o' \<in> set (command_options c)"
  shows "classify (ap_options build_parser) (assign o' v) \<noteq> Ambiguous \<and> assign o' v \<noteq> ''--''"
proof -
  obtain ch name where f: "op_flag o' = CHR ''-'' # CHR ''-'' # ch # name"
    using option_names_okD(1) [OF build_parser_names(2) assms] by blast
  have "filter (\<lambda>p. starts_with (op_flag o') (op_flag p)) (ap_options build_parser) = [] \<and>
      \<not> starts_with (op_flag o') ''--help''"
    using assms by (cases c) (auto simp: build_parser_def command_options_def command_name_def option_defs starts_with_def)
  with classify_foreign [OF build_parser_names(1) f option_names_okD(2) [OF build_parser_names(2) assms]]
  show ?thesis by blast
qed

lemma parse_command:
  "parse_args build_parser (argv_of args) =
     Parsed (ps_values (fold (\<lambda>f. store_value f (ArgBool True)) (flags_of args) (initial_parse (ap_options build_parser))) ++
        ps_values (store_given (zip (command_options (arg_command args)) (option_texts (arg_command args)))
          (initial_parse (command_options (arg_command args)))),
       snd (the (map_of (ap_commands build_parser) (command_name (arg_command args)))))"
proof -
  let ?c = "arg_command args"
  let ?rest = "map (\<lambda>(o', v). assign o' v) (zip (command_options ?c) (option_texts ?c))"
  have flags: "f \<in> set (ap_options build_parser) \<and> op_action f = StoreTrue" if "f \<in> set (flags_of args)" for f
    using that by (auto simp: flags_of_def build_parser_def option_defs split: if_splits)
  have cmd: "classify os (command_name ?c) = Positional" "command_name ?c \<noteq> ''--''" for os
    by (cases ?c; simp add: command_name_def classify_def starts_with_def)+
  have rest: "classify (ap_options build_parser) a \<noteq> Ambiguous \<and> a \<noteq> ''--''" if a: "a \<in> set ?rest" for a
  proof -
    obtain o' v where "a = assign o' v" "o' \<in> set (command_options ?c)" using a by (auto dest: set_zip_leftD)
    then show ?thesis using foreign_options [of o' ?c v] by simp
  qed
  have none_required: "list_all (\<lambda>o'. \<not> op_required o') (ap_options build_parser)"
    by (simp add: build_parser_def option_defs)
  have main: "parse_known True (ap_options build_parser) (argv_of args) =
      Parsed (fold (\<lambda>f. store_value f (ArgBool True)) (flags_of args) (initial_parse (ap_options build_parser)),
        command_name ?c # ?rest)"
    unfolding argv_of_def by (rule parse_known_flags [OF build_parser_names(1) flags cmd rest none_required])
  have sub: "parse_known False (command_options ?c) ?rest =
      Parsed (store_given (zip (command_options ?c) (option_texts ?c)) (initial_parse (command_options ?c)), [])"
    by (rule parse_known_given [OF build_parser_names(2) given_options required_given])
  obtain f where f: "map_of (ap_commands build_parser) (command_name ?c) = Some (command_options ?c, f)"
    by (cases ?c) (simp_all add: command_options_def build_parser_def command_name_def)
  have extras: "\<not> ps_extras (fold (\<lambda>f. store_value f (ArgBool True)) fs (initial_parse os))"
    "\<not> ps_extras (store_given avs (initial_parse os))" for fs avs os
    by (induction fs rule: rev_induct; simp add: initial_parse_def store_value_def)
      (induction avs rule: rev_induct; simp add: initial_parse_def store_given_def store_value_def split: prod.splits)
  show ?thesis unfolding parse_args_def main sub f by (simp add: sub f extras)
qed

text \<open>\<open>--foreground\<close> stores \<open>True\<close> and defaults to \<open>True\<close>.\<close>

definition in_foreground :: "cli_command \<Rightarrow> bool" where
  "in_foreground c = (case c of CmdDaemonStart _ _ foreground \<Rightarrow> foreground | _ \<Rightarrow> True)"

lemma command_values:
  assumes "in_foreground c"
  shows "snd (the (map_of (ap_commands build_parser) (command_name c)))
     (m ++ ps_values (store_given (zip (command_options c) (option_texts c)) (initial_parse (command_options c)))) = c"
  by (insert assms, cases c) (simp_all add: command_options_def build_parser_def command_name_def option_texts_def
      option_defs store_given_def store_value_def initial_parse_def defaults_def convert_def int_str_int
      arg_int_def arg_text_def arg_bool_def map_add_def in_foreground_def)

lemma command_values_main:
  assumes "d \<in> {''mainnet'', ''confirmed'', ''no_banner''}"
  shows "ps_values (store_given (zip (command_options c) (option_texts c)) (initial_parse (command_options c))) d = None"
  by (insert assms, cases c) (auto simp: command_options_def build_parser_def command_name_def option_texts_def
      option_defs store_given_def store_value_def initial_parse_def defaults_def)


lemma flag_values:
  assumes "m ''mainnet'' = None" "m ''confirmed'' = None" "m ''no_banner'' = None"
  shows "arg_bool (ps_values (fold (\<lambda>f. store_value f (ArgBool True)) (flags_of args)
        (initial_parse (ap_options build_parser))) ++ m) ''mainnet'' = arg_mainnet args"
      "arg_bool (ps_values (fold (\<lambda>f. store_value f (ArgBool True)) (flags_of args)
        (initial_parse (ap_options build_parser))) ++ m) ''confirmed'' = arg_confirmed args"
      "arg_bool (ps_values (fold (\<lambda>f. store_value f (ArgBool True)) (flags_of args)
        (initial_parse (ap_options build_parser))) ++ m) ''no_banner'' = arg_no_banner args"
  using assms
  by (simp_all add: flags_of_def build_parser_def option_defs store_value_def initial_parse_def defaults_def
        arg_bool_def map_add_def)

lemma argv_roundtrip:
  assumes "in_foreground (arg_command args)"
  shows "parse_cli (argv_of args) = Parsed args"
  unfolding parse_cli_def parse_command parsed.case prod.case command_values [OF assms]
  using command_values_main by (simp add: flag_values)

section \<open>What can be read\<close>

lemma parse_args_Parsed:
  assumes "parse_args p argv = Parsed (ns, f)"
  obtains st st' cmd rest rest' os where "parse_known True (ap_options p) argv = Parsed (st, cmd # rest)"
    "map_of (ap_commands p) cmd = Some (os, f)" "parse_known False os rest = Parsed (st', rest')"
    "ns = ps_values st ++ ps_values st'"
  using assms by (auto simp: parse_args_def split: parsed.splits prod.splits list.splits option.splits if_splits)

lemma command_exists: "\<exists>c. command_name c = cmd" if "cmd \<in> {''open'', ''transfer'', ''close'', ''contested'',
    ''daemon-start'', ''ping'', ''status'', ''daemon-stop'', ''node-generate''}"
  using that command_name_def [of "CmdOpen 0 0 0 0 []"] command_name_def [of "CmdTransfer [] []"]
    command_name_def [of "CmdClose []"] command_name_def [of "CmdContested 0 []"]
    command_name_def [of "CmdDaemonStart 0 [] True"] command_name_def [of "CmdPing 0"]
    command_name_def [of "CmdStatus 0"] command_name_def [of "CmdDaemonStop 0"]
    command_name_def [of "CmdNodeGenerate 0 []"]
  by (simp add: insert_iff) metis

lemma parser_commands:
  assumes "map_of (ap_commands build_parser) cmd = Some (os, f)"
  obtains c where "os = command_options c" "cmd = command_name c"
    "f = snd (the (map_of (ap_commands build_parser) (command_name c)))"
proof -
  have "cmd \<in> fst ` set (ap_commands build_parser)"
    using map_of_SomeD [OF assms] by force
  then have "cmd \<in> {''open'', ''transfer'', ''close'', ''contested'', ''daemon-start'', ''ping'', ''status'',
      ''daemon-stop'', ''node-generate''}" by (simp add: build_parser_def)
  then obtain c where "command_name c = cmd" using command_exists by blast
  with assms show ?thesis by (intro that [of c]) (simp_all add: command_options_def)
qed

lemma parser_typed:
  "options_typed (ap_options build_parser)" "options_typed (command_options c)"
  "set (map op_dest (command_options c)) \<inter> set (map op_dest (ap_options build_parser)) = {}"
  by (cases c; simp add: options_typed_def typed_def build_parser_def command_options_def command_name_def option_defs)+

lemma values_within: "kept os (\<lambda>st. dom (ps_values st) \<subseteq> op_dest ` set os)"
  by (auto simp: kept_def store_value_def)

lemma initial_within: "dom (ps_values (initial_parse os)) \<subseteq> op_dest ` set os"
  by (auto simp: initial_parse_def defaults_def dom_map_of_conv_image_fst image_image)

lemma parse_build_parser:
  assumes "parse_args build_parser argv = Parsed (ns, f)"
  obtains c st st' rest rest' where "f = snd (the (map_of (ap_commands build_parser) (command_name c)))"
    "ns = ps_values st ++ ps_values st'" "parse_known True (ap_options build_parser) argv = Parsed (st, command_name c # rest)"
    "parse_known False (command_options c) rest = Parsed (st', rest')"
proof -
  obtain st st' cmd rest rest' os where p: "parse_known True (ap_options build_parser) argv = Parsed (st, cmd # rest)"
    "map_of (ap_commands build_parser) cmd = Some (os, f)" "parse_known False os rest = Parsed (st', rest')"
    "ns = ps_values st ++ ps_values st'"
    by (rule parse_args_Parsed [OF assms])
  obtain c where "os = command_options c" "cmd = command_name c"
      "f = snd (the (map_of (ap_commands build_parser) (command_name c)))"
    by (rule parser_commands [OF p(2)])
  with p that show ?thesis by blast
qed

lemma parsed_typed:
  assumes "parse_args build_parser argv = Parsed (ns, f)"
  obtains c where "f = snd (the (map_of (ap_commands build_parser) (command_name c)))"
    "\<forall>o' \<in> set (ap_options build_parser @ command_options c). \<exists>v. ns (op_dest o') = Some v \<and> typed o' v"
proof -
  obtain c st st' rest rest' where f: "f = snd (the (map_of (ap_commands build_parser) (command_name c)))"
    and ns: "ns = ps_values st ++ ps_values st'"
    and main: "parse_known True (ap_options build_parser) argv = Parsed (st, command_name c # rest)"
    and sub: "parse_known False (command_options c) rest = Parsed (st', rest')"
    by (rule parse_build_parser [OF assms])
  have within: "dom (ps_values st') \<subseteq> op_dest ` set (command_options c)"
    by (rule parse_known_kept(1) [OF sub values_within initial_within])
  have "\<exists>v. ns (op_dest o') = Some v \<and> typed o' v" if "o' \<in> set (ap_options build_parser)" for o'
  proof -
    have "op_dest o' \<notin> dom (ps_values st')" using within parser_typed(3) [of c] that by auto
    then show ?thesis using parse_known_typed [OF main parser_typed(1) that] by (simp add: ns map_add_dom_app_simps)
  qed
  moreover have "\<exists>v. ns (op_dest o') = Some v \<and> typed o' v" if "o' \<in> set (command_options c)" for o'
    using parse_known_typed [OF sub parser_typed(2) that] by (auto simp: ns)
  ultimately show ?thesis using that [OF f] by auto
qed

lemma parsed_in_foreground:
  assumes "parse_cli argv = Parsed args"
  shows "in_foreground (arg_command args)"
proof -
  obtain ns f where p: "parse_args build_parser argv = Parsed (ns, f)" and args: "arg_command args = f ns"
    using assms by (auto simp: parse_cli_def split: parsed.splits prod.splits)
  obtain c st st' rest rest' where f: "f = snd (the (map_of (ap_commands build_parser) (command_name c)))"
    and ns: "ns = ps_values st ++ ps_values st'"
    and main: "parse_known True (ap_options build_parser) argv = Parsed (st, command_name c # rest)"
    and sub: "parse_known False (command_options c) rest = Parsed (st', rest')"
    by (rule parse_build_parser [OF p])
  show ?thesis
  proof (cases "command_name c = ''daemon-start''")
    case True
    then have os: "command_options c = [value_option ''--port'' StoreInt (ArgInt 0),
        value_option ''--db'' StoreText (ArgText '':memory:''), (flag_option ''--foreground'')\<lparr>op_default := ArgBool True\<rparr>]"
      by (simp add: command_options_def build_parser_def)
    have "ps_values st' ''foreground'' = Some (ArgBool True)"
      by (rule parse_known_kept(1) [OF sub flag_kept])
        (auto simp: os option_defs initial_parse_def defaults_def)
    moreover have "snd (the (map_of (ap_commands build_parser) (command_name c))) =
        (\<lambda>ns. CmdDaemonStart (arg_int ns ''port'') (arg_text ns ''db'') (arg_bool ns ''foreground''))"
      unfolding True by (simp add: build_parser_def)
    ultimately show ?thesis by (simp add: args f in_foreground_def arg_bool_def ns)
  next
    case False
    then show ?thesis
      unfolding args f by (cases c; simp add: build_parser_def command_name_def in_foreground_def)
  qed
qed

text \<open>The words of the module's documentation are not commands.\<close>

lemma documented_words_refused:
  "parse_cli [''daemon'', ''start''] = SystemExit 2" "parse_cli [''daemon'', ''stop'', ''--port'', ''1''] = SystemExit 2"
  "parse_cli [''node'', ''generate'', ''--port'', ''1'', ''--payout-hex'', ''ab''] = SystemExit 2"
  by code_simp+

end
