(* ===== verification/Service_Properties.thy ===== *)
theory Service_Properties
  imports Cli_Arguments Store_Properties Sample_Chain
begin

text \<open>
  The properties of the program's two entry points: what the command line can do to the files and the
  mode, and what any sequence of requests does to the service.
\<close>

section \<open>The command line\<close>


text \<open>C36. The arguments of the command line: whatever arguments the parser accepts, the command can be
  written as such arguments again, and writing and reading give it back.  The commands that can be
  written are all but one kind: \<open>daemon-start\<close> without \<open>foreground\<close> cannot be reached, because the flag
  that should select the foreground is set by default.\<close>

theorem command_line_arguments:
  "(if in_foreground (arg_command args) then parse_cli (argv_of args) = Parsed args
    else \<forall>argv. parse_cli argv \<noteq> Parsed args) \<and>
   (\<forall>argv args'. parse_cli argv = Parsed args' \<longrightarrow> parse_cli (argv_of args') = Parsed args')"
  using argv_roundtrip parsed_in_foreground by auto

theorem command_line_arguments_witness:
  "parse_cli (argv_of \<lparr>arg_mainnet = False, arg_confirmed = False, arg_no_banner = True,
      arg_command = CmdContested (- 3) ''-x=y''\<rparr>) =
    Parsed \<lparr>arg_mainnet = False, arg_confirmed = False, arg_no_banner = True,
      arg_command = CmdContested (- 3) ''-x=y''\<rparr>"
  using command_line_arguments [of "\<lparr>arg_mainnet = False, arg_confirmed = False, arg_no_banner = True,
      arg_command = CmdContested (- 3) ''-x=y''\<rparr>"] by (simp add: in_foreground_def)


definition sample_cli_world :: cli_world where
  "sample_cli_world = \<lparr>cw_process = \<lparr>process_mode = REGTEST, mainnet_confirmed = False, banner_shown = False,
     stderr = []\<rparr>, cw_files = (\<lambda>_. None), cw_databases = (\<lambda>_. empty_system_store), cw_printed = []\<rparr>"

definition sample_outside :: outside where
  "sample_outside = \<lparr>ou_draw = (\<lambda>_. PrivateKey [1]), ou_exchange = (\<lambda>_ _. raise PyOSError),
     ou_listen = (\<lambda>p. return (if p = 0 then 40000 else p)), ou_events = [], ou_describe = (\<lambda>_. [])\<rparr>"



lemma sample_saved: "\<exists>f. save_channel sample sample_channel = Inr f"
  using dict_roundtrip [OF sample_channel_wf sample_readable [OF sample_channel_sel(2) sample_parent]]
  by (auto simp: save_channel_def)


section \<open>The daemon\<close>


definition sample_service :: "unit service" where
  "sample_service = \<lparr>sv_node = sample_node, sv_manager = new_manager empty_system_store,
     sv_tower = \<lparr>tw_registry = \<lparr>rg_records = [], rg_file = None\<rparr>, tw_pubkey = None, interventions = 0, forfeits = 0\<rparr>,
     sv_metrics = \<lparr>counters = [], gauges = []\<rparr>, sv_shutdown = False\<rparr>"

lemma sample_service_new: "new_service sample empty_system_store = Inr sample_service"
  by (simp add: new_service_def sample_node_eq(1) sample_service_def)

text \<open>A client that sends no JSON, one that asks for the shutdown, and one that comes too late.\<close>

definition sample_events :: "daemon_event list" where
  "sample_events = [Connection 0 [120, NEWLINE], LookForShutdown,
     Connection 1 (request_line (cmd_request ''shutdown'')), LookForShutdown,
     Connection 2 (request_line (cmd_request ''ping''))]"

lemma no_json: "load_bytes [120, 10] = Inl PyJSONDecodeError"
  by code_simp

lemma cmd_request_ok [simp]: "json_ok (cmd_request c)"
  by (simp add: cmd_request_def)

lemma handle_request_line:
  assumes "json_ok req"
  shows "handle_connection x describe now sv (request_line req) =
    (case handle_request x now sv (Inr req) of (r, sv') \<Rightarrow> (reply_line describe r, sv'))"
proof -
  have "load_bytes (request_line req) = Inr req"
    using json_line.load_dump [OF assms] by (simp add: request_line_def NEWLINE_def)
  moreover have "request_line req \<noteq> []" by (simp add: request_line_def)
  ultimately show ?thesis by (simp add: handle_connection_def readline_request [OF assms])
qed


text \<open>C35. A client of the daemon, on the wire: when the command line sends a request and the chunks that come
  back are the line the handler wrote, however it is cut, the call gives what the dispatcher answers, or
  the report of its exception; the command prints it and exits with 0 exactly when it says \<open>ok\<close>, and the
  service changes as the dispatcher changed it.\<close>

theorem client_gets_answer:
  assumes "json_ok req" and "handle_connection x describe now sv (request_line req) = (sent, sv')"
    and "ou_exchange ou port (request_line req) = Inr chunks" and "concat chunks = sent" and "[] \<notin> set chunks"
  shows "case dispatch x now sv req of (res, sv'') \<Rightarrow>
    let resp = (case res of Inr j \<Rightarrow> j | Inl e \<Rightarrow> failure_report describe e)
    in sv' = sv'' \<and> call (ou_exchange ou port) req = Inr resp \<and>
       cmd_daemon_call ou port req W =
         (Inr (if j_get resp ''ok'' = Inr (JBool True) then 0 else 2), print_out (DaemonReply resp) W)"
proof -
  obtain res sv'' where d: "dispatch x now sv req = (res, sv'')" by fastforce
  let ?r = "case res of Inl e \<Rightarrow> Failure e | Inr j \<Rightarrow> Reply j"
  have h: "handle_request x now sv (Inr req) = (?r, sv'')"
    using d by (cases res) (simp_all add: handle_request_def)
  have resp: "reply_value describe ?r = (case res of Inr j \<Rightarrow> j | Inl e \<Rightarrow> failure_report describe e)"
    by (cases res) (simp_all add: reply_value_def)
  have "concat chunks = fst (handle_connection x describe now sv (request_line req))"
    using assms(2,4) by simp
  from call_answer [where exchange = "ou_exchange ou port", OF assms(1) h assms(3,5) this] assms(2) resp
  have "call (ou_exchange ou port) req = Inr (reply_value describe ?r)" "sv' = sv''" by simp_all
  moreover obtain b where "j_get (reply_value describe ?r) ''ok'' = Inr (JBool b)"
    using reply_shape(2) [OF h] by blast
  ultimately show ?thesis using d resp by (simp add: cmd_daemon_call_def)
qed

theorem client_gets_answer_witness:
  "cmd_ping (sample_outside\<lparr>ou_exchange := \<lambda>_ line.
      Inr (map (\<lambda>b. [b]) (fst (handle_connection sample (\<lambda>_. []) 0 sample_service line)))\<rparr>) 40000 sample_cli_world =
    (Inr 0, print_out (DaemonReply (ok_with [(''pong'', JBool True)])) sample_cli_world)"
proof -
  let ?ou = "sample_outside\<lparr>ou_exchange := \<lambda>_ line.
      Inr (map (\<lambda>b. [b]) (fst (handle_connection sample (\<lambda>_. []) 0 sample_service line)))\<rparr>"
  obtain sent sv' where h: "handle_connection sample (\<lambda>_. []) 0 sample_service (request_line (cmd_request ''ping'')) = (sent, sv')"
    by fastforce
  have cut: "concat (map (\<lambda>b. [b]) sent) = sent" "[] \<notin> set (map (\<lambda>b. [b]) sent)"
    by (induction sent) simp_all
  have exchange: "ou_exchange ?ou 40000 (request_line (cmd_request ''ping'')) = Inr (map (\<lambda>b. [b]) sent)"
    by (simp add: h)
  have d: "dispatch sample 0 sample_service (cmd_request ''ping'') =
      (Inr (ok_with [(''pong'', JBool True)]), sample_service)"
    by (simp add: dispatch_def cmd_request_def)
  have ok: "j_get (ok_with [(''pong'', JBool True)]) ''ok'' = Inr (JBool True)" by (simp add: ok_with_def)
  from client_gets_answer [where ou = ?ou, OF cmd_request_ok h exchange cut, of sample_cli_world] show ?thesis
    unfolding cmd_ping_def d by (simp only: prod.case sum.case Let_def ok simp_thms if_True)
qed

end
