(* ===== verification/Transfers_Demo.thy ===== *)
theory Transfers_Demo
  imports Command_Line Lifecycle_Facts
begin

text \<open>
  The demo (\<open>scripts/tiny_transfers_demo.py\<close>): a channel is opened, moves single micro-units between
  randomly drawn parties and is closed cooperatively, with the checks of the script on the way.  The
  random numbers are the sequence \<open>rng seed n\<close> of the values of \<open>randint(0, n - 1)\<close>.  Both loops of the
  script draw until they like what they get, so they need not end; what the script prints is kept as
  data, the lines printed before an exception included, except for the line the exception interrupts.
  Python's limit of 4300 digits on printed integers is not modelled.
\<close>

section \<open>Floats\<close>

text \<open>The floats are printed and forgotten, but an integer of this size cannot be converted.\<close>

definition FLOAT_LIMIT :: int where
  "FLOAT_LIMIT = 2 ^ 1024 - 2 ^ 970"

definition true_div :: "int \<Rightarrow> int \<Rightarrow> unit result" where
  "true_div a b = (if FLOAT_LIMIT * \<bar>b\<bar> \<le> \<bar>a\<bar> then raise PyOverflowError else return ())"

section \<open>The loops\<close>

partial_function (option) draw_recipient :: "(nat \<Rightarrow> int) \<Rightarrow> int \<Rightarrow> nat \<Rightarrow> (int \<times> nat) option" where
  "draw_recipient draw sender i =
     (if draw i = sender then draw_recipient draw sender (Suc i) else Some (draw i, Suc i))"

partial_function (option) demo_loop ::
  "(nat \<Rightarrow> int) \<Rightarrow> int \<Rightarrow> channel \<Rightarrow> int \<Rightarrow> int \<Rightarrow> nat \<Rightarrow> (channel \<times> int \<times> int) result option" where
  "demo_loop draw transfers ch applied attempted i =
     (if transfers \<le> applied then Some (return (ch, applied, attempted))
      else let sender = draw i; balance = py_nth (balances (ch_state ch)) sender
           in if isl balance then Some (raise (projl balance))
              else if projr balance = 0 then demo_loop draw transfers ch applied (attempted + 1) (Suc i)
              else Option.bind (draw_recipient draw sender (Suc i)) (\<lambda>rj.
                let moved = apply_transfer ch sender (fst rj) 1
                in if isl moved then Some (raise (projl moved))
                   else demo_loop draw transfers (projr moved) (applied + 1) (attempted + 1) (snd rj)))"

section \<open>The script\<close>

datatype demo_line =
    DemoSetup int int int int int
  | DemoApplied int int
  | DemoBalances "int list" int
  | DemoNetting "int list" int
  | DemoClose int "int list" int int
  | DemoViolation int int
  | DemoSummary int int int int int int

type_synonym demo_run = "int result \<times> demo_line list"

definition demo_try :: "'a result \<Rightarrow> demo_line list \<Rightarrow> ('a \<Rightarrow> demo_run) \<Rightarrow> demo_run" where
  "demo_try r out k = (case r of Inl e \<Rightarrow> (raise e, out) | Inr v \<Rightarrow> k v)"

text \<open>From the first report on: the balances, the netting, the close.\<close>

definition demo_report :: "externals \<Rightarrow> channel \<Rightarrow> int \<Rightarrow> demo_line list \<Rightarrow> demo_run" where
  "demo_report x ch applied out =
     (let cfg = ch_cfg ch; bal = balances (ch_state ch); total = cfg_k cfg * cfg_S cfg;
          out1 = out @ [DemoApplied applied (version (ch_state ch))]
      in demo_try (check_all (\<lambda>b. true_div b (cfg_k cfg)) bal) out1 (\<lambda>_.
         if sum_list bal \<noteq> total then (raise PyAssertionError, out1)
         else let out2 = out1 @ [DemoBalances bal (sum_list bal)]
         in demo_try (quantise (ch_state ch) cfg) out2 (\<lambda>q.
         if sum_list q \<noteq> cfg_S cfg then (raise PyAssertionError, out2)
         else let out3 = out2 @ [DemoNetting q (sum_list q)]
         in demo_try (cooperative_close x ch None) out3 (\<lambda>(t, utxos).
            demo_try (verify_all_inputs x t utxos) out3 (\<lambda>_.
            let total_out = outputs_total (tx_outputs t);
                expected = cfg_S cfg + sum_list (cfg_bonds cfg)
            in demo_try (check_all (\<lambda>i. bindR (py_nth q i) (\<lambda>_. bindR (py_nth (cfg_bonds cfg) i) (\<lambda>_. return ())))
                 (py_range (int (length (tx_outputs t))))) out3 (\<lambda>_.
            let out4 = out3 @ [DemoClose (x_tx_size x t) (map out_value (tx_outputs t)) total_out expected]
            in if total_out \<noteq> expected then (return 1, out4 @ [DemoViolation total_out expected])
               else (return 0, out4 @ [DemoSummary applied (cfg_k cfg) total_out (int (length (tx_outputs t)))
                 total (sum_list q)])))))))"

record demo_args =
  da_parties :: int
  da_k :: int
  da_funded :: int
  da_bond :: int
  da_transfers :: int
  da_seed :: int

definition demo_open :: "externals \<Rightarrow> demo_args \<Rightarrow> channel result" where
  "demo_open x a =
     bindR (uniform_bond (da_parties a) (da_k a) (da_funded a) (da_bond a) DEFAULT_L0 DEFAULT_DELTA) (\<lambda>cfg.
     bindR (kb_from_ints x (map (\<lambda>i. 100000 + i) (py_range (da_parties a)))) (\<lambda>book.
     bindR (channel_open x cfg book default_parent None) (\<lambda>ch. return (mark_confirmed ch))))"

definition demo_main :: "externals \<Rightarrow> (int \<Rightarrow> int \<Rightarrow> nat \<Rightarrow> int) \<Rightarrow> demo_args \<Rightarrow> demo_run option" where
  "demo_main x rng a =
     (case demo_open x a of
        Inl e \<Rightarrow> Some (raise e, [])
      | Inr ch \<Rightarrow>
          (let cfg = ch_cfg ch
           in case py_nth (cfg_bonds cfg) 0 of
                Inl e \<Rightarrow> Some (raise e, [])
              | Inr b \<Rightarrow>
                  let out = [DemoSetup (da_parties a) (cfg_k cfg) (cfg_S cfg) b (cfg_k cfg * cfg_S cfg)]
                  in case true_div (cfg_k cfg) 1 of
                       Inl e \<Rightarrow> Some (raise e, out)
                     | Inr _ \<Rightarrow>
                         Option.bind (demo_loop (rng (da_seed a) (da_parties a)) (da_transfers a) ch 0 0 0) (\<lambda>r.
                           Some (demo_try r out (\<lambda>(ch', applied, attempted). demo_report x ch' applied out)))))"

definition demo_options :: "arg_option list" where
  "demo_options =
     [value_option ''--parties'' StoreInt (ArgInt 4), value_option ''--k'' StoreInt (ArgInt 1000),
      value_option ''--funded'' StoreInt (ArgInt 1), value_option ''--bond'' StoreInt (ArgInt 1),
      value_option ''--transfers'' StoreInt (ArgInt 200), value_option ''--seed'' StoreInt (ArgInt 42)]"

definition demo_arguments :: "string list \<Rightarrow> demo_args parsed" where
  "demo_arguments argv =
     (case parse_flat demo_options argv of
        SystemExit c \<Rightarrow> SystemExit c
      | Parsed ns \<Rightarrow> Parsed \<lparr>da_parties = arg_int ns ''parties'', da_k = arg_int ns ''k'',
          da_funded = arg_int ns ''funded'', da_bond = arg_int ns ''bond'',
          da_transfers = arg_int ns ''transfers'', da_seed = arg_int ns ''seed''\<rparr>)"

definition demo_process :: "externals \<Rightarrow> (int \<Rightarrow> int \<Rightarrow> nat \<Rightarrow> int) \<Rightarrow> string list \<Rightarrow> demo_run option" where
  "demo_process x rng argv =
     (case demo_arguments argv of
        SystemExit c \<Rightarrow> Some (return c, [])
      | Parsed a \<Rightarrow> demo_main x rng a)"

section \<open>The loops end\<close>

text \<open>Draws that come back to every party.\<close>

definition fair :: "int \<Rightarrow> (nat \<Rightarrow> int) \<Rightarrow> bool" where
  "fair n draw \<longleftrightarrow> (\<forall>i. 0 \<le> draw i \<and> draw i < n) \<and> (\<forall>p i. 0 \<le> p \<and> p < n \<longrightarrow> (\<exists>d. draw (i + d) = p))"

lemma fairD:
  assumes "fair n draw"
  shows "0 \<le> draw i" "draw i < n" "0 \<le> p \<Longrightarrow> p < n \<Longrightarrow> \<exists>d. draw (i + d) = p"
  using assms unfolding fair_def by blast+

lemma draw_recipient_returns:
  assumes "draw (i + d) \<noteq> sender"
  shows "\<exists>j. draw_recipient draw sender i = Some (draw j, Suc j) \<and> draw j \<noteq> sender"
  using assms
proof (induction d arbitrary: i)
  case 0
  then show ?case by (subst draw_recipient.simps) auto
next
  case (Suc d)
  show ?case
  proof (cases "draw i = sender")
    case True
    with Suc.IH [of "Suc i"] Suc.prems show ?thesis by (subst draw_recipient.simps) simp
  next
    case False
    then show ?thesis by (subst draw_recipient.simps) auto
  qed
qed

lemma fair_recipient:
  assumes "fair n draw" and "2 \<le> n"
  shows "\<exists>j. draw_recipient draw sender i = Some (draw j, Suc j) \<and> draw j \<noteq> sender \<and> 0 \<le> draw j \<and> draw j < n"
proof -
  let ?p = "if sender = 0 then 1 else 0 :: int"
  have "0 \<le> ?p" "?p < n" using assms(2) by simp_all
  then obtain d where "draw (i + d) = ?p" using fairD(3) [OF assms(1)] by blast
  then have "draw (i + d) \<noteq> sender" by auto
  from draw_recipient_returns [of draw i d sender, OF this] assms(1) show ?thesis by (auto simp: fair_def)
qed

text \<open>What a channel reached by transfers keeps.\<close>

definition advanced :: "externals \<Rightarrow> channel \<Rightarrow> int \<Rightarrow> channel \<Rightarrow> bool" where
  "advanced x ch m ch' \<longleftrightarrow> channel_wf x ch' \<and> ch_cfg ch' = ch_cfg ch \<and> ch_funding_tx ch' = ch_funding_tx ch \<and>
     ch_keybook ch' = ch_keybook ch \<and> ch_funding_confirmed ch' = ch_funding_confirmed ch \<and>
     version (ch_state ch') = version (ch_state ch) + m"

lemma advanced_refl: "channel_wf x ch \<Longrightarrow> advanced x ch 0 ch"
  by (simp add: advanced_def)

lemma advanced_trans: "advanced x a m b \<Longrightarrow> advanced x b k c \<Longrightarrow> advanced x a (m + k) c"
  by (simp add: advanced_def)

lemma single_transfer:
  assumes "channel_wf x ch" and "0 \<le> s" "s < cfg_n (ch_cfg ch)" "0 \<le> r" "r < cfg_n (ch_cfg ch)" "r \<noteq> s"
    and "balances (ch_state ch) ! nat s \<noteq> 0"
  shows "\<exists>ch'. apply_transfer ch s r 1 = Inr ch' \<and> advanced x ch 1 ch'"
proof -
  note v = channel_wfD(3) [OF assms(1)]
  have len: "nat s < length (balances (ch_state ch))" using v assms(2,3) by (auto simp: valid_state_def)
  then have "0 \<le> balances (ch_state ch) ! nat s" using v by (auto simp: valid_state_def)
  then have allowed: "transfer_allowed (ch_cfg ch) (ch_state ch) s r 1" using assms by (simp add: transfer_allowed_def)
  obtain st where "transfer (ch_state ch) s r 1 (ch_cfg ch) = Inr st" "version st = version (ch_state ch) + 1"
    using transfer_step [OF v allowed] by simp
  then have t: "apply_transfer ch s r 1 = Inr (ch\<lparr>ch_state := st\<rparr>)" by (simp add: apply_transfer_def)
  with apply_transfer_wf [OF t assms(1)] \<open>version st = _\<close> show ?thesis by (simp add: advanced_def)
qed

text \<open>Until a party with a balance is drawn, and one micro-unit has moved.\<close>

lemma demo_loop_step:
  assumes "fair (cfg_n (ch_cfg ch)) draw" and "channel_wf x ch" and "applied < transfers"
    and "0 \<le> draw (i + d)" "balances (ch_state ch) ! nat (draw (i + d)) \<noteq> 0"
  shows "\<exists>ch' attempted' j. advanced x ch 1 ch' \<and>
    demo_loop draw transfers ch applied attempted i = demo_loop draw transfers ch' (applied + 1) attempted' j"
  using assms(4,5)
proof (induction d arbitrary: i attempted)
  have n: "2 \<le> cfg_n (ch_cfg ch)" using valid_configD(1) [OF channel_wfD(1) [OF assms(2)]] .
  have moved: "\<exists>ch' attempted' j. advanced x ch 1 ch' \<and>
      demo_loop draw transfers ch applied attempted i = demo_loop draw transfers ch' (applied + 1) attempted' j"
    if nz: "balances (ch_state ch) ! nat (draw i) \<noteq> 0" for i attempted
  proof -
    have s: "0 \<le> draw i" "draw i < cfg_n (ch_cfg ch)" using assms(1) by (auto simp: fair_def)
    obtain j where j: "draw_recipient draw (draw i) (Suc i) = Some (draw j, Suc j)" "draw j \<noteq> draw i"
        "0 \<le> draw j" "draw j < cfg_n (ch_cfg ch)"
      using fair_recipient [OF assms(1) n] by blast
    obtain ch' where t: "apply_transfer ch (draw i) (draw j) 1 = Inr ch'" "advanced x ch 1 ch'"
      using single_transfer [OF assms(2) s j(3,4,2) nz] by blast
    have "py_nth (balances (ch_state ch)) (draw i) = Inr (balances (ch_state ch) ! nat (draw i))"
      using s channel_wfD(3) [OF assms(2)] by (simp add: valid_state_def)
    then have "demo_loop draw transfers ch applied attempted i =
        demo_loop draw transfers ch' (applied + 1) (attempted + 1) (Suc j)"
      using assms(3) nz j(1) t(1) by (subst demo_loop.simps) (simp add: Let_def)
    with t(2) show ?thesis by blast
  qed
  {
    case 0
    then show ?case using moved [of i] by simp
  next
    case (Suc d)
    show ?case
    proof (cases "balances (ch_state ch) ! nat (draw i) = 0")
      case True
      have s: "0 \<le> draw i" "draw i < cfg_n (ch_cfg ch)" using assms(1) by (auto simp: fair_def)
      have "py_nth (balances (ch_state ch)) (draw i) = Inr (balances (ch_state ch) ! nat (draw i))"
        using s channel_wfD(3) [OF assms(2)] by (simp add: valid_state_def)
      then have "demo_loop draw transfers ch applied attempted i =
          demo_loop draw transfers ch applied (attempted + 1) (Suc i)"
        using assms(3) True by (subst demo_loop.simps) (simp add: Let_def)
      with Suc.IH [of "Suc i"] Suc.prems show ?thesis by simp
    next
      case False
      then show ?thesis using moved [of i] by simp
    qed
  }
qed

lemma funded_party:
  assumes "channel_wf x ch"
  shows "\<exists>p. 0 \<le> p \<and> p < cfg_n (ch_cfg ch) \<and> balances (ch_state ch) ! nat p \<noteq> 0"
proof (rule ccontr)
  note v = channel_wfD(3) [OF assms] and c = valid_configD [OF channel_wfD(1) [OF assms]]
  assume "\<not> ?thesis"
  then have "\<forall>b \<in> set (balances (ch_state ch)). b = 0"
    using v by (auto simp: valid_state_def in_set_conv_nth) (metis nat_int of_nat_0_le_iff of_nat_less_iff)
  moreover have "(\<forall>b \<in> set xs. b = 0) \<Longrightarrow> sum_list xs = 0" for xs :: "int list" by (induction xs) simp_all
  ultimately have "sum_list (balances (ch_state ch)) = 0" by blast
  moreover have "0 < cfg_k (ch_cfg ch) * cfg_S (ch_cfg ch)" using c(2,3) by simp
  ultimately show False using v unfolding valid_state_def by linarith
qed

lemma demo_loop_returns:
  assumes "fair (cfg_n (ch_cfg ch)) draw" and "channel_wf x ch" and "applied \<le> transfers"
  shows "\<exists>ch' attempted'. advanced x ch (transfers - applied) ch' \<and>
    demo_loop draw transfers ch applied attempted i = Some (Inr (ch', transfers, attempted'))"
  using assms
proof (induction "nat (transfers - applied)" arbitrary: ch applied attempted i)
  case 0
  then have "applied = transfers" by simp
  then show ?case using advanced_refl [OF 0(3)] by (subst demo_loop.simps) simp
next
  case (Suc m)
  then have lt: "applied < transfers" by simp
  obtain p where p: "0 \<le> p" "p < cfg_n (ch_cfg ch)" "balances (ch_state ch) ! nat p \<noteq> 0"
    using funded_party [OF Suc.prems(2)] by blast
  obtain d where "draw (i + d) = p" using fairD(3) [OF Suc.prems(1) p(1,2)] by blast
  then obtain ch1 att1 j where one: "advanced x ch 1 ch1"
      "demo_loop draw transfers ch applied attempted i = demo_loop draw transfers ch1 (applied + 1) att1 j"
    using demo_loop_step [OF Suc.prems(1,2) lt, of i d] p by blast
  have "\<exists>ch' att'. advanced x ch1 (transfers - (applied + 1)) ch' \<and>
      demo_loop draw transfers ch1 (applied + 1) att1 j = Some (Inr (ch', transfers, att'))"
    by (rule Suc.hyps(1)) (use Suc.hyps(2) Suc.prems(1) one(1) lt in \<open>simp_all add: advanced_def\<close>)
  with one advanced_trans [OF one(1), of "transfers - (applied + 1)"] show ?case by auto
qed


section \<open>The checks hold\<close>

lemma demo_report_exact:
  assumes "channel_wf x ch" and "ch_funding_confirmed ch" and "cfg_S (ch_cfg ch) < FLOAT_LIMIT"
  shows "case cooperative_close x ch None of
      Inl e \<Rightarrow> fst (demo_report x ch applied out) = Inl e
    | Inr (t, utxos) \<Rightarrow>
        fst (demo_report x ch applied out) = Inr 0 \<and>
        outputs_total (tx_outputs t) = cfg_S (ch_cfg ch) + sum_list (cfg_bonds (ch_cfg ch)) \<and>
        last (snd (demo_report x ch applied out)) =
          DemoSummary applied (cfg_k (ch_cfg ch)) (outputs_total (tx_outputs t)) (cfg_n (ch_cfg ch))
            (cfg_k (ch_cfg ch) * cfg_S (ch_cfg ch)) (cfg_S (ch_cfg ch))"
proof -
  let ?cfg = "ch_cfg ch" and ?st = "ch_state ch"
  note wf = channel_wfD [OF assms(1)] and c = valid_configD [OF channel_wfD(1) [OF assms(1)]]
  have v: "sum_list (balances ?st) = cfg_k ?cfg * cfg_S ?cfg" "\<forall>b \<in> set (balances ?st). 0 \<le> b"
    using wf(3) by (simp_all add: valid_state_def)
  have "true_div b (cfg_k ?cfg) = Inr ()" if b: "b \<in> set (balances ?st)" for b
  proof -
    have "b \<le> sum_list (balances ?st)" using member_le_sum_list [of b "balances ?st"] v(2) b by simp
    also have "\<dots> < FLOAT_LIMIT * \<bar>cfg_k ?cfg\<bar>"
      using v(1) c(2) assms(3) by (simp add: mult.commute)
    finally show ?thesis using v(2) b by (simp add: true_div_def not_le)
  qed
  then have floats: "check_all (\<lambda>b. true_div b (cfg_k ?cfg)) (balances ?st) = Inr ()"
    by (simp add: check_all_Inr)
  obtain q where q: "quantise ?st ?cfg = Inr q" "sum_list q = cfg_S ?cfg" "length q = nat (cfg_n ?cfg)"
    using quantise_eq [OF wf(1,3)] sum_netting_payout [OF wf(1,3)] by simp
  show ?thesis
  proof (cases "cooperative_close x ch None")
    case (Inl e)
    then show ?thesis using v(1) floats q(1,2) by (simp add: demo_report_def demo_try_def Let_def)
  next
    case (Inr txu)
    then obtain t utxos where close: "cooperative_close x ch None = Inr (t, utxos)" by (cases txu) simp
    note cc = cooperative_close_Inr [OF assms(1) close]
    have st: "valid_state ?cfg (case None of None \<Rightarrow> ?st | Some s \<Rightarrow> s)" using wf(3) by simp
    have view: "unsigned_view t = unsigned_view (close_tx x ch ?st)"
      and total: "outputs_total utxos = cfg_S ?cfg + sum_list (cfg_bonds ?cfg)"
      and ver: "verify_all_inputs x t utxos = Inr True"
      using cc(2-5) [OF st] by (simp_all add: verify_all_inputs_Inr)
    note d = unsigned_viewD [OF view]
    have out: "outputs_total (tx_outputs t) = cfg_S ?cfg + sum_list (cfg_bonds ?cfg)"
      "int (length (tx_outputs t)) = cfg_n ?cfg"
      using d(2) close_tx_total [OF wf(1,3)] c(1) by (simp_all add: close_tx_def)
    have rows: "check_all (\<lambda>i. bindR (py_nth q i) (\<lambda>_. bindR (py_nth (cfg_bonds ?cfg) i) (\<lambda>_. Inr ())))
        (py_range (cfg_n ?cfg)) = Inr ()"
      using q(3) c(4) by (auto simp: check_all_Inr)
    show ?thesis using v(1) floats q(1,2) close ver out rows by (simp add: demo_report_def demo_try_def Let_def)
  qed
qed

end
