(* ===== verification/Demo_Properties.thy ===== *)
theory Demo_Properties
  imports Transfers_Demo Channel_Properties
begin

text \<open>The property of the demo script, which runs the channel from its opening to its close.\<close>

definition demo_valid :: "demo_args \<Rightarrow> bool" where
  "demo_valid a \<longleftrightarrow> 2 \<le> da_parties a \<and> 1 \<le> da_k a \<and> 1 \<le> da_funded a \<and> 1 \<le> da_bond a"

lemma demo_config:
  "uniform_bond (da_parties a) (da_k a) (da_funded a) (da_bond a) DEFAULT_L0 DEFAULT_DELTA =
    (if demo_valid a then Inr \<lparr>cfg_n = da_parties a, cfg_k = da_k a, cfg_S = da_funded a,
       cfg_bonds = replicate (nat (da_parties a)) (da_bond a), cfg_L0 = DEFAULT_L0, cfg_delta = DEFAULT_DELTA\<rparr>
     else Inl ConfigError)"
proof (cases "uniform_bond (da_parties a) (da_k a) (da_funded a) (da_bond a) DEFAULT_L0 DEFAULT_DELTA")
  case (Inl e)
  then show ?thesis using ChannelConfig_Inl [of "da_parties a"]
    by (auto simp: uniform_bond_def demo_valid_def ChannelConfig_def check_all_Inr DEFAULT_L0_def DEFAULT_DELTA_def
        result_simps check_all_def split: if_splits elim: foldR_error)
next
  case (Inr cfg)
  then show ?thesis by (auto simp: uniform_bond_def ChannelConfig_Inr valid_config_def demo_valid_def)
qed


lemma round_robin_fair: "0 < n \<Longrightarrow> fair n (\<lambda>i. int i mod n)"
proof -
  assume n: "0 < n"
  have "\<exists>d. int (i + d) mod n = p" if "0 \<le> p" "p < n" for p i
  proof -
    have "int (i + nat ((p - int i) mod n)) = int i + (p - int i) mod n" using n by simp
    also have "\<dots> mod n = (int i + (p - int i)) mod n" by (rule mod_add_right_eq)
    finally have "int (i + nat ((p - int i) mod n)) mod n = p" using that by simp
    then show ?thesis by blast
  qed
  with n show ?thesis by (simp add: fair_def)
qed

lemma sample_close_returns:
  assumes "channel_wf sample ch" and "ch_funding_confirmed ch"
  shows "\<exists>t us. cooperative_close sample ch None = Inr (t, us)"
proof -
  note wf = channel_wfD [OF assms(1)]
  obtain t s where v: "unsigned_view t = unsigned_view (close_tx sample ch (ch_state ch))"
    and c: "cooperative_close sample ch None =
      bindR (verify_all_inputs sample t (close_utxos sample ch s)) (\<lambda>_. Inr (t, close_utxos sample ch s))"
    using cooperative_close_eq [OF assms, of None] wf(3) by auto
  have "length (close_utxos sample ch s) = length (tx_inputs t)"
    using unsigned_viewD(4) [OF v] valid_configD(1) [OF wf(1)] wf(5) by (simp add: close_utxos_def close_tx_def)
  from sample_verifies [OF this] c show ?thesis by simp
qed


end
